(* ===== verification/Prelude.thy ===== *)
theory Prelude
  imports Main "HOL-Library.AList" "HOL-Library.Multiset" "HOL-Library.Signed_Division"
begin

text \<open>
  What every component of the development shares: the Go types the source uses, and the
  general lemmas about them.

  \<^item> A Go \<open>string\<close> or \<open>[]byte\<close> is a list of characters, one character per byte.
  \<^item> A Go \<open>int\<close> (64 bits on the platforms the service is built for) is an \<open>int\<close>;
    \<open>int64\<close> is the wrap-around of an operation whose operands are not bounded by an
    earlier check. Go's \<open>/\<close> and \<open>%\<close> truncate: they are \<open>sdiv\<close> and \<open>smod\<close>.
  \<^item> A Go \<open>map\<close> is an association list with distinct keys (\<open>gomap\<close>). A
    \<open>for range\<close> over a map visits it in an order Go leaves open; where the order can
    reach a result, the loop takes the visiting order as an argument \<open>ord\<close>, a function
    that permutes the entries (\<open>range_order\<close>).
\<close>

named_theorems go_defs "definitions of the small helper functions of the Go library"
named_theorems map_simps "lookups after updates of Go maps"

type_synonym bytes = string
type_synonym ('k, 'v) gomap = "('k \<times> 'v) list"
type_synonym ('k, 'v) range_ord = "('k, 'v) gomap \<Rightarrow> ('k, 'v) gomap"

abbreviation gm_get :: "('k, 'v) gomap \<Rightarrow> 'k \<Rightarrow> 'v option" where
  "gm_get \<equiv> map_of"

abbreviation gm_set :: "'k \<Rightarrow> 'v \<Rightarrow> ('k, 'v) gomap \<Rightarrow> ('k, 'v) gomap" where
  "gm_set \<equiv> AList.update"

abbreviation gm_del :: "'k \<Rightarrow> ('k, 'v) gomap \<Rightarrow> ('k, 'v) gomap" where
  "gm_del \<equiv> AList.delete"

abbreviation gm_wf :: "('k, 'v) gomap \<Rightarrow> bool" where
  "gm_wf m \<equiv> distinct (map fst m)"

definition range_order :: "('k, 'v) range_ord \<Rightarrow> bool" where
  "range_order ord \<longleftrightarrow> (\<forall>m. mset (ord m) = mset m)"

subsection \<open>64-bit integers\<close>

definition int64 :: "int \<Rightarrow> int" where
  "int64 x = (x + 9223372036854775808) mod 18446744073709551616 - 9223372036854775808"

definition in_int64 :: "int \<Rightarrow> bool" where
  "in_int64 x \<longleftrightarrow> - 9223372036854775808 \<le> x \<and> x < 9223372036854775808"

lemma int64_id: "in_int64 x \<Longrightarrow> int64 x = x"
  by (simp add: int64_def in_int64_def)

lemma int64_range: "in_int64 (int64 x)"
  by (simp add: int64_def in_int64_def)

lemma int64_small [simp]: "\<lbrakk>- 9223372036854775808 \<le> x; x < 9223372036854775808\<rbrakk> \<Longrightarrow> int64 x = x"
  by (rule int64_id) (simp add: in_int64_def)

lemma sdiv_nonneg: "\<lbrakk>0 \<le> a; 0 < b\<rbrakk> \<Longrightarrow> a sdiv b = (a::int) div b"
  by (cases "a = 0") (simp_all add: signed_divide_int_def sgn_if)

lemma smod_nonneg: "\<lbrakk>0 \<le> a; 0 < b\<rbrakk> \<Longrightarrow> a smod b = (a::int) mod b"
  by (cases "a = 0") (simp_all add: signed_modulo_int_def sgn_if)

subsection \<open>Go maps\<close>

lemma gm_get_set [map_simps]: "gm_get (gm_set k v m) k' = (if k' = k then Some v else gm_get m k')"
  by (simp add: AList.update_conv')

lemma gm_get_del [map_simps]: "gm_get (gm_del k m) k' = (if k' = k then None else gm_get m k')"
  by (simp add: AList.delete_conv')

lemma gm_wf_set: "gm_wf m \<Longrightarrow> gm_wf (gm_set k v m)"
  by (rule AList.distinct_update)

lemma gm_wf_del: "gm_wf m \<Longrightarrow> gm_wf (gm_del k m)"
  by (rule AList.distinct_delete)

lemma gm_keys_set: "fst ` set (gm_set k v m) = insert k (fst ` set m)"
  by (simp add: AList.dom_update)

lemma gm_keys_del: "fst ` set (gm_del k m) = fst ` set m - {k}"
  by (auto simp: AList.delete_eq)

lemma gm_wf_perm: "\<lbrakk>mset m' = mset m; gm_wf m\<rbrakk> \<Longrightarrow> gm_wf m'"
  by (metis mset_eq_imp_distinct_iff mset_map)

lemma gm_get_perm: "\<lbrakk>mset m' = mset m; gm_wf m\<rbrakk> \<Longrightarrow> gm_get m' = gm_get m"
  by (metis gm_wf_perm map_of_inject_set set_mset_mset)

lemma range_order_mset: "range_order ord \<Longrightarrow> mset (ord m) = mset m"
  by (simp add: range_order_def)

lemma range_order_set: "range_order ord \<Longrightarrow> set (ord m) = set m"
  by (metis range_order_mset set_mset_mset)

lemma range_order_get: "\<lbrakk>range_order ord; gm_wf m\<rbrakk> \<Longrightarrow> gm_get (ord m) = gm_get m"
  by (rule gm_get_perm) (simp_all add: range_order_mset)

lemma range_order_id [intro, simp]: "range_order (\<lambda>m. m)"
  by (simp add: range_order_def)

lemma range_order_rev [intro, simp]: "range_order rev"
  by (simp add: range_order_def)

subsection \<open>Sorting by a key\<close>

text \<open>
  \<open>sort.Slice\<close> of a list by an integer field. Go does not promise where entries with
  equal keys end up; a list that comes from a \<open>for range\<close> over a map already has an open
  order, so every outcome of Go's sort is \<open>sort_key\<close> of some visiting order.
\<close>

lemma mset_map_inv: "mset ys = image_mset f M \<Longrightarrow> \<exists>xs. ys = map f xs \<and> mset xs = M"
proof (induction ys arbitrary: M)
  case (Cons y ys)
  then obtain x M' where "M = add_mset x M'" "f x = y" "mset ys = image_mset f M'"
    by (metis mset.simps(2) msed_map_invR)
  with Cons.IH [of M'] obtain xs where "ys = map f xs" "mset xs = M'" by blast
  with \<open>M = add_mset x M'\<close> \<open>f x = y\<close> show ?case by (intro exI [of _ "x # xs"]) simp
qed simp

lemma sort_key_perm_unique:
  assumes "mset xs = mset ys" and "inj_on f (set xs)"
  shows "sort_key f xs = sort_key f ys"
  using assms by (intro sort_key_inj_key_eq) auto

lemma insort_key_map: "insort_key f (e x) (map e xs) = map e (insort_key (\<lambda>y. f (e y)) x xs)"
  by (induction xs) simp_all

lemma sort_key_map: "sort_key f (map e xs) = map e (sort_key (\<lambda>y. f (e y)) xs)"
  by (induction xs) (simp_all add: insort_key_map)

end
