(* ===== verification/Go_Strings.thy ===== *)
theory Go_Strings
  imports Prelude
begin

text \<open>
  The functions of Go's \<open>strings\<close>, \<open>strconv\<close> and \<open>fmt\<close> that the service uses, on byte
  strings: prefix and substring tests, splitting, trimming, lower case, and decimal
  integers (\<open>strconv.Atoi\<close>, \<open>strconv.ParseUint\<close>, \<open>strconv.Itoa\<close> and the verb \<open>%d\<close>).
  Lower case acts on the ASCII letters; the source compares its result with ASCII
  words only.
\<close>

subsection \<open>Prefixes and substrings\<close>

fun has_prefix :: "string \<Rightarrow> string \<Rightarrow> bool" where
  "has_prefix s [] = True"
| "has_prefix [] (d # p) = False"
| "has_prefix (c # s) (d # p) = (c = d \<and> has_prefix s p)"

lemma has_prefix_iff: "has_prefix s p \<longleftrightarrow> (\<exists>r. s = p @ r)"
  by (induction s p rule: has_prefix.induct) auto

lemma has_prefix_append [simp]: "has_prefix (p @ r) p"
  by (auto simp: has_prefix_iff)

definition has_suffix :: "string \<Rightarrow> string \<Rightarrow> bool" where
  "has_suffix s p = has_prefix (rev s) (rev p)"

lemma has_suffix_iff: "has_suffix s p \<longleftrightarrow> (\<exists>r. s = r @ p)"
  by (auto simp: has_suffix_def has_prefix_iff) (metis rev_append rev_rev_ident)

fun contains :: "string \<Rightarrow> string \<Rightarrow> bool" where
  "contains [] sub = (sub = [])"
| "contains (c # s) sub = (has_prefix (c # s) sub \<or> contains s sub)"

lemma contains_iff: "contains s sub \<longleftrightarrow> (\<exists>a b. s = a @ sub @ b)"
proof (induction s)
  case (Cons c s)
  have "(\<exists>a b. c # s = a @ sub @ b) \<longleftrightarrow> (\<exists>b. c # s = sub @ b) \<or> (\<exists>a b. s = a @ sub @ b)"
    by (metis append_Cons append_Nil list.inject neq_Nil_conv)
  then show ?case using Cons by (auto simp: has_prefix_iff)
qed auto

definition trim_prefix :: "string \<Rightarrow> string \<Rightarrow> string" where
  "trim_prefix s p = (if has_prefix s p then drop (length p) s else s)"

definition trim_suffix :: "string \<Rightarrow> string \<Rightarrow> string" where
  "trim_suffix s p = (if has_suffix s p then take (length s - length p) s else s)"

lemma trim_prefix_append [simp]: "trim_prefix (p @ s) p = s"
  by (simp add: trim_prefix_def)

subsection \<open>Splitting at a separator byte\<close>

fun split_on :: "char \<Rightarrow> string \<Rightarrow> string list" where
  "split_on c [] = [[]]"
| "split_on c (x # xs) =
     (if x = c then [] # split_on c xs
      else (case split_on c xs of [] \<Rightarrow> [[x]] | y # ys \<Rightarrow> (x # y) # ys))"

lemma split_on_nonempty [simp]: "split_on c s \<noteq> []"
  by (induction s) (auto split: list.splits)

lemma split_on_no_sep: "c \<notin> set s \<Longrightarrow> split_on c s = [s]"
  by (induction s) auto

lemma split_on_append: "c \<notin> set s \<Longrightarrow> split_on c (s @ c # t) = s # split_on c t"
  by (induction s) auto

lemma split_on_append_sep: "split_on c (s @ c # t) = split_on c s @ split_on c t"
  by (induction s) (auto split: list.splits)

lemma last_split_on_append: "c \<notin> set t \<Longrightarrow> last (split_on c (s @ c # t)) = t"
  by (simp add: split_on_append_sep split_on_no_sep)

lemma split_on_parts: "p \<in> set (split_on c s) \<Longrightarrow> c \<notin> set p"
  by (induction s arbitrary: p) (auto split: if_splits list.splits)

text \<open>\<open>strings.Cut\<close> at a separator byte: before, after, found.\<close>

definition cut :: "char \<Rightarrow> string \<Rightarrow> string \<times> string \<times> bool" where
  "cut c s = (case dropWhile (\<lambda>x. x \<noteq> c) s of
     [] \<Rightarrow> (s, [], False)
   | _ # after \<Rightarrow> (takeWhile (\<lambda>x. x \<noteq> c) s, after, True))"

lemma cut_append: "c \<notin> set a \<Longrightarrow> cut c (a @ c # b) = (a, b, True)"
proof -
  assume "c \<notin> set a"
  then have "dropWhile (\<lambda>x. x \<noteq> c) (a @ c # b) = c # b"
    and "takeWhile (\<lambda>x. x \<noteq> c) (a @ c # b) = a"
    by (induction a) auto
  then show ?thesis by (simp add: cut_def)
qed

text \<open>\<open>strings.Index\<close> of a byte.\<close>

definition index_byte :: "char \<Rightarrow> string \<Rightarrow> nat option" where
  "index_byte c s = (if c \<in> set s then Some (length (takeWhile (\<lambda>x. x \<noteq> c) s)) else None)"

fun join :: "string \<Rightarrow> string list \<Rightarrow> string" where
  "join sep [] = []"
| "join sep [s] = s"
| "join sep (s # t # ss) = s @ sep @ join sep (t # ss)"

lemma join_Cons: "ss \<noteq> [] \<Longrightarrow> join sep (s # ss) = s @ sep @ join sep ss"
  by (cases ss) auto

lemma split_on_join:
  "\<lbrakk>ss \<noteq> []; \<forall>s \<in> set ss. c \<notin> set s\<rbrakk> \<Longrightarrow> split_on c (join [c] ss) = ss"
proof (induction ss)
  case (Cons s ss)
  then show ?case
    by (cases "ss = []") (simp_all add: split_on_no_sep join_Cons split_on_append)
qed simp

subsection \<open>Trimming white space\<close>

text \<open>
  The UTF-8 sequences of the runes for which \<open>unicode.IsSpace\<close> holds. No sequence is
  a prefix of another, so dropping a leading (or trailing) sequence is what decoding the
  first (or last) rune does.
\<close>

definition space_seqs :: "string list" where
  "space_seqs = map (map char_of)
     ([[9], [10], [11], [12], [13], [32], [0xC2, 0x85], [0xC2, 0xA0], [0xE1, 0x9A, 0x80],
       [0xE2, 0x80, 0x80], [0xE2, 0x80, 0x81], [0xE2, 0x80, 0x82], [0xE2, 0x80, 0x83],
       [0xE2, 0x80, 0x84], [0xE2, 0x80, 0x85], [0xE2, 0x80, 0x86], [0xE2, 0x80, 0x87],
       [0xE2, 0x80, 0x88], [0xE2, 0x80, 0x89], [0xE2, 0x80, 0x8A], [0xE2, 0x80, 0xA8],
       [0xE2, 0x80, 0xA9], [0xE2, 0x80, 0xAF], [0xE2, 0x81, 0x9F], [0xE3, 0x80, 0x80]] :: int list list)"

fun drop_seqs :: "string list \<Rightarrow> nat \<Rightarrow> string \<Rightarrow> string" where
  "drop_seqs seqs 0 s = s"
| "drop_seqs seqs (Suc n) s =
     (case find (has_prefix s) seqs of
        None \<Rightarrow> s
      | Some p \<Rightarrow> drop_seqs seqs n (drop (length p) s))"

definition trim_left :: "string \<Rightarrow> string" where
  "trim_left s = drop_seqs space_seqs (length s) s"

definition trim_right :: "string \<Rightarrow> string" where
  "trim_right s = rev (drop_seqs (map rev space_seqs) (length s) (rev s))"

definition trim_space :: "string \<Rightarrow> string" where
  "trim_space s = trim_right (trim_left s)"

text \<open>\<open>strings.TrimRight\<close> with a cut set of ASCII bytes.\<close>

definition trim_right_chars :: "string \<Rightarrow> string \<Rightarrow> string" where
  "trim_right_chars cutset s = rev (dropWhile (\<lambda>c. c \<in> set cutset) (rev s))"

subsection \<open>Lower case\<close>

definition lower_char :: "char \<Rightarrow> char" where
  "lower_char c = (let n = of_char c :: int in if 65 \<le> n \<and> n \<le> 90 then char_of (n + 32) else c)"

definition to_lower :: "string \<Rightarrow> string" where
  "to_lower s = map lower_char s"

subsection \<open>Decimal integers\<close>

definition is_digit :: "char \<Rightarrow> bool" where
  "is_digit c \<longleftrightarrow> 48 \<le> (of_char c :: int) \<and> (of_char c :: int) \<le> 57"

definition digit_val :: "char \<Rightarrow> int" where
  "digit_val c = of_char c - 48"

definition digit_char :: "int \<Rightarrow> char" where
  "digit_char n = char_of (48 + n)"

lemma of_char_digit_char [simp]: "\<lbrakk>0 \<le> n; n < 10\<rbrakk> \<Longrightarrow> of_char (digit_char n) = 48 + n"
  by (simp add: digit_char_def)

lemma is_digit_digit_char [simp]: "\<lbrakk>0 \<le> n; n < 10\<rbrakk> \<Longrightarrow> is_digit (digit_char n)"
  by (simp add: is_digit_def)

lemma digit_val_digit_char [simp]: "\<lbrakk>0 \<le> n; n < 10\<rbrakk> \<Longrightarrow> digit_val (digit_char n) = n"
  by (simp add: digit_val_def)

lemma digit_val_nonneg: "is_digit c \<Longrightarrow> 0 \<le> digit_val c"
  by (simp add: is_digit_def digit_val_def)

function dec_str :: "int \<Rightarrow> string" where
  "dec_str n = (if n < 10 then [digit_char n] else dec_str (n div 10) @ [digit_char (n mod 10)])"
  by pat_completeness auto
termination
  by (relation "measure nat") auto

declare dec_str.simps [simp del]

fun digits_int :: "int \<Rightarrow> string \<Rightarrow> int option" where
  "digits_int acc [] = Some acc"
| "digits_int acc (c # s) = (if is_digit c then digits_int (10 * acc + digit_val c) s else None)"

text \<open>\<open>strconv.ParseUint(s, 10, bits)\<close>; \<open>None\<close> stands for a non-nil error.\<close>

definition parse_uint :: "nat \<Rightarrow> string \<Rightarrow> int option" where
  "parse_uint bits s =
     (if s = [] then None
      else case digits_int 0 s of
        None \<Rightarrow> None
      | Some n \<Rightarrow> if n < 2 ^ bits then Some n else None)"

text \<open>\<open>strconv.Atoi\<close>: an optional sign, decimal digits, a value that fits an \<open>int\<close>.\<close>

definition atoi :: "string \<Rightarrow> int option" where
  "atoi s =
     (let neg = (case s of c # _ \<Rightarrow> c = CHR ''-'' | [] \<Rightarrow> False);
          ds = (case s of c # r \<Rightarrow> if c = CHR ''-'' \<or> c = CHR ''+'' then r else s | [] \<Rightarrow> [])
      in if ds = [] then None
         else case digits_int 0 ds of
           None \<Rightarrow> None
         | Some n \<Rightarrow>
             let v = (if neg then - n else n)
             in if in_int64 v then Some v else None)"

definition itoa :: "int \<Rightarrow> string" where
  "itoa n = (if n < 0 then CHR ''-'' # dec_str (- n) else dec_str n)"

lemma dec_str_nonempty [simp]: "dec_str n \<noteq> []"
  by (subst dec_str.simps) simp

lemma dec_str_digits: "\<lbrakk>0 \<le> n; c \<in> set (dec_str n)\<rbrakk> \<Longrightarrow> is_digit c"
proof (induction n rule: dec_str.induct)
  case (1 n)
  then show ?case
    by (cases "n < 10") (auto simp: dec_str.simps [of n] pos_imp_zdiv_nonneg_iff)
qed

lemma digits_int_append:
  "digits_int acc (s @ t) = (case digits_int acc s of None \<Rightarrow> None | Some n \<Rightarrow> digits_int n t)"
  by (induction acc s rule: digits_int.induct) auto

lemma digits_int_dec_str: "0 \<le> n \<Longrightarrow> digits_int 0 (dec_str n) = Some n"
proof (induction n rule: dec_str.induct)
  case (1 n)
  show ?case
  proof (cases "n < 10")
    case True
    with 1 show ?thesis by (simp add: dec_str.simps [of n])
  next
    case False
    with 1 have "digits_int 0 (dec_str (n div 10)) = Some (n div 10)" by simp
    with False show ?thesis by (simp add: dec_str.simps [of n] digits_int_append)
  qed
qed

lemma is_digit_not_sign: "is_digit c \<Longrightarrow> c \<noteq> CHR ''-'' \<and> c \<noteq> CHR ''+''"
  by (auto simp: is_digit_def)

lemma hd_dec_str: "\<lbrakk>dec_str n = c # r; 0 \<le> n\<rbrakk> \<Longrightarrow> c \<noteq> CHR ''-'' \<and> c \<noteq> CHR ''+''"
  using dec_str_digits [of n c] is_digit_not_sign [of c] by simp

lemma atoi_itoa [simp]: "in_int64 n \<Longrightarrow> atoi (itoa n) = Some n"
proof (cases "n < 0")
  case True
  assume "in_int64 n"
  with True show ?thesis
    by (simp add: itoa_def atoi_def Let_def digits_int_dec_str)
next
  case False
  assume "in_int64 n"
  obtain c r where cr: "dec_str n = c # r" by (cases "dec_str n") auto
  with False \<open>in_int64 n\<close> show ?thesis
    using hd_dec_str [OF cr] digits_int_dec_str [of n]
    by (simp add: itoa_def atoi_def Let_def)
qed

lemma dec_str_inj: "\<lbrakk>dec_str m = dec_str n; 0 \<le> m; 0 \<le> n\<rbrakk> \<Longrightarrow> m = n"
  by (metis digits_int_dec_str option.inject)

lemma itoa_inj [simp]: "itoa m = itoa n \<longleftrightarrow> m = n"
proof
  assume eq: "itoa m = itoa n"
  obtain c r where "dec_str m = c # r" by (cases "dec_str m") auto
  moreover obtain d q where "dec_str n = d # q" by (cases "dec_str n") auto
  ultimately show "m = n"
    using eq hd_dec_str [of m] hd_dec_str [of n]
      dec_str_inj [of m n] dec_str_inj [of "- m" "- n"]
    by (auto simp: itoa_def split: if_splits)
qed simp

lemma itoa_chars: "c \<in> set (itoa n) \<Longrightarrow> is_digit c \<or> c = CHR ''-''"
  using dec_str_digits [of "- n" c] dec_str_digits [of n c]
  by (auto simp: itoa_def split: if_splits)

lemma itoa_nonempty [simp]: "itoa n \<noteq> []"
  by (simp add: itoa_def)

lemma itoa_nonneg_digits: "\<lbrakk>0 \<le> n; c \<in> set (itoa n)\<rbrakk> \<Longrightarrow> is_digit c"
  using dec_str_digits [of n c] by (auto simp: itoa_def)

lemma itoa_no_dot [simp]: "CHR ''.'' \<notin> set (itoa n)"
  using itoa_chars [of "CHR ''.''" n] by (auto simp: is_digit_def)

lemma itoa_no_underscore [simp]: "CHR ''_'' \<notin> set (itoa n)"
  using itoa_chars [of "CHR ''_''" n] by (auto simp: is_digit_def)

lemma atoi_range: "atoi s = Some v \<Longrightarrow> in_int64 v"
  by (auto simp: atoi_def Let_def split: option.splits if_splits)

subsection \<open>Quoting\<close>

text \<open>The verb \<open>%q\<close> on ASCII text: quotes, with escapes for quotes, backslashes and controls.\<close>

definition hex_digit :: "int \<Rightarrow> char" where
  "hex_digit n = char_of (if n < 10 then 48 + n else 87 + n)"

definition quote_char :: "char \<Rightarrow> string" where
  "quote_char c =
     (let n = of_char c :: int in
      if n = 34 \<or> n = 92 then [CHR 0x5C, c]
      else if n = 7 then [CHR 0x5C, CHR ''a''] else if n = 8 then [CHR 0x5C, CHR ''b'']
      else if n = 12 then [CHR 0x5C, CHR ''f''] else if n = 10 then [CHR 0x5C, CHR ''n'']
      else if n = 13 then [CHR 0x5C, CHR ''r''] else if n = 9 then [CHR 0x5C, CHR ''t'']
      else if n = 11 then [CHR 0x5C, CHR ''v'']
      else if n < 32 \<or> n = 127 then [CHR 0x5C, CHR ''x'', hex_digit (n div 16), hex_digit (n mod 16)]
      else [c])"

definition go_quote :: "string \<Rightarrow> string" where
  "go_quote s = [CHR 0x22] @ concat (map quote_char s) @ [CHR 0x22]"

end
