(* ===== verification/Go_Json.thy ===== *)
theory Go_Json
  imports Go_Strings "HOL-Library.List_Lexorder" "HOL-Library.Char_ord"
begin

text \<open>
  JSON values as \<open>encoding/json\<close> reads and writes them. A number keeps its literal
  text, as Go keeps it until it is stored in a typed field; an object is the list of its
  members in the order of the text.
\<close>

datatype json =
    JNull
  | JBool bool
  | JNum bytes
  | JStr bytes
  | JArr "json list"
  | JObj "(bytes \<times> json) list"

definition jint :: "int \<Rightarrow> json" where
  "jint n = JNum (itoa n)"

text \<open>A Go \<open>map[string]any\<close> is written with its keys in byte order.\<close>

definition json_of_map :: "(bytes, json) gomap \<Rightarrow> json" where
  "json_of_map m = JObj (sort_key fst m)"

subsection \<open>UTF-8\<close>

abbreviation (input) byte :: "char \<Rightarrow> int" where
  "byte c \<equiv> of_char c"

definition cont_byte :: "int \<Rightarrow> int \<Rightarrow> char \<Rightarrow> bool" where
  "cont_byte lo hi c \<longleftrightarrow> lo \<le> byte c \<and> byte c \<le> hi"

text \<open>The length of the multi-byte rune at the head of a string, 0 if it is not well-formed.\<close>

fun rune_len :: "bytes \<Rightarrow> nat" where
  "rune_len (a # b # s) =
     (let x = byte a in
      if 0xC2 \<le> x \<and> x \<le> 0xDF then (if cont_byte 0x80 0xBF b then 2 else 0)
      else if 0xE0 \<le> x \<and> x \<le> 0xEF
      then (if cont_byte (if x = 0xE0 then 0xA0 else 0x80) (if x = 0xED then 0x9F else 0xBF) b
            then (case s of c # _ \<Rightarrow> if cont_byte 0x80 0xBF c then 3 else 0 | [] \<Rightarrow> 0) else 0)
      else if 0xF0 \<le> x \<and> x \<le> 0xF4
      then (if cont_byte (if x = 0xF0 then 0x90 else 0x80) (if x = 0xF4 then 0x8F else 0xBF) b
            then (case s of c # d # _ \<Rightarrow> if cont_byte 0x80 0xBF c \<and> cont_byte 0x80 0xBF d then 4 else 0
                  | _ \<Rightarrow> 0) else 0)
      else 0)"
| "rune_len _ = 0"

definition is_ascii :: "char \<Rightarrow> bool" where
  "is_ascii c \<longleftrightarrow> byte c < 128"

function valid_utf8 :: "bytes \<Rightarrow> bool" where
  "valid_utf8 [] = True"
| "valid_utf8 (c # s) =
     (if is_ascii c then valid_utf8 s
      else if rune_len (c # s) = 0 then False
      else valid_utf8 (drop (rune_len (c # s)) (c # s)))"
  by pat_completeness auto
termination
  by (relation "measure length") (auto simp del: rune_len.simps)

definition utf8_encode :: "int \<Rightarrow> bytes" where
  "utf8_encode r =
     (if r < 0x80 then [char_of r]
      else if r < 0x800 then [char_of (0xC0 + r div 64), char_of (0x80 + r mod 64)]
      else if r < 0x10000
      then [char_of (0xE0 + r div 4096), char_of (0x80 + r div 64 mod 64), char_of (0x80 + r mod 64)]
      else [char_of (0xF0 + r div 262144), char_of (0x80 + r div 4096 mod 64),
            char_of (0x80 + r div 64 mod 64), char_of (0x80 + r mod 64)])"

definition replacement :: bytes where
  "replacement = utf8_encode 0xFFFD"

subsection \<open>Writing\<close>

definition esc_u :: "int \<Rightarrow> bytes" where
  "esc_u n = [CHR 0x5C, CHR ''u'', hex_digit (n div 4096), hex_digit (n div 256 mod 16),
              hex_digit (n div 16 mod 16), hex_digit (n mod 16)]"

definition esc_ascii :: "char \<Rightarrow> bytes" where
  "esc_ascii c =
     (let n = byte c in
      if n = 0x22 \<or> n = 0x5C then [CHR 0x5C, c]
      else if n = 8 then [CHR 0x5C, CHR ''b''] else if n = 12 then [CHR 0x5C, CHR ''f'']
      else if n = 10 then [CHR 0x5C, CHR ''n''] else if n = 13 then [CHR 0x5C, CHR ''r'']
      else if n = 9 then [CHR 0x5C, CHR ''t'']
      else if n < 32 \<or> n = 0x3C \<or> n = 0x3E \<or> n = 0x26 then esc_u n
      else [c])"

function enc_str :: "bytes \<Rightarrow> bytes" where
  "enc_str [] = []"
| "enc_str (c # s) =
     (if is_ascii c then esc_ascii c @ enc_str s
      else if rune_len (c # s) = 0 then esc_u 0xFFFD @ enc_str s
      else (if take 3 (c # s) = utf8_encode 0x2028 then esc_u 0x2028
            else if take 3 (c # s) = utf8_encode 0x2029 then esc_u 0x2029
            else take (rune_len (c # s)) (c # s))
           @ enc_str (drop (rune_len (c # s)) (c # s)))"
  by pat_completeness auto
termination
  by (relation "measure length") (auto simp del: rune_len.simps)

definition quoted :: "bytes \<Rightarrow> bytes" where
  "quoted s = CHR 0x22 # enc_str s @ [CHR 0x22]"

fun json_print :: "json \<Rightarrow> bytes" and print_elems :: "json list \<Rightarrow> bytes"
  and print_members :: "(bytes \<times> json) list \<Rightarrow> bytes" where
  "json_print JNull = ''null''"
| "json_print (JBool b) = (if b then ''true'' else ''false'')"
| "json_print (JNum l) = l"
| "json_print (JStr s) = quoted s"
| "json_print (JArr js) = ''['' @ print_elems js @ '']''"
| "json_print (JObj ms) = ''{'' @ print_members ms @ ''}''"
| "print_elems [] = []"
| "print_elems [j] = json_print j"
| "print_elems (j # js) = json_print j @ '','' @ print_elems js"
| "print_members [] = []"
| "print_members [(k, j)] = quoted k @ '':'' @ json_print j"
| "print_members ((k, j) # ms) = quoted k @ '':'' @ json_print j @ '','' @ print_members ms"

subsection \<open>Reading\<close>

definition hex_val :: "char \<Rightarrow> int option" where
  "hex_val c =
     (let n = byte c in
      if 48 \<le> n \<and> n \<le> 57 then Some (n - 48) else if 97 \<le> n \<and> n \<le> 102 then Some (n - 87)
      else if 65 \<le> n \<and> n \<le> 70 then Some (n - 55) else None)"

fun getu4 :: "bytes \<Rightarrow> (int \<times> bytes) option" where
  "getu4 (a # b # c # d # s) =
     (case (hex_val a, hex_val b, hex_val c, hex_val d) of
        (Some w, Some x, Some y, Some z) \<Rightarrow> Some (((w * 16 + x) * 16 + y) * 16 + z, s)
      | _ \<Rightarrow> None)"
| "getu4 _ = None"

text \<open>
  The rune after \<open>\u\<close>: a surrogate pair makes one rune, a lone surrogate
  becomes U+FFFD.
\<close>

definition read_u :: "bytes \<Rightarrow> (bytes \<times> bytes) option" where
  "read_u s = (case getu4 s of
     None \<Rightarrow> None
   | Some (r, s1) \<Rightarrow>
       if 0xD800 \<le> r \<and> r \<le> 0xDFFF
       then (case s1 of
               b # u # s2 \<Rightarrow>
                 if b = CHR 0x5C \<and> u = CHR ''u''
                 then (case getu4 s2 of
                         Some (q, s3) \<Rightarrow>
                           if r \<le> 0xDBFF \<and> 0xDC00 \<le> q \<and> q \<le> 0xDFFF
                           then Some (utf8_encode (0x10000 + (r - 0xD800) * 0x400 + (q - 0xDC00)), s3)
                           else Some (replacement, s1)
                       | None \<Rightarrow> Some (replacement, s1))
                 else Some (replacement, s1)
             | _ \<Rightarrow> Some (replacement, s1))
       else Some (utf8_encode r, s1))"

definition read_escape :: "bytes \<Rightarrow> (bytes \<times> bytes) option" where
  "read_escape s = (case s of
     [] \<Rightarrow> None
   | e # r \<Rightarrow>
       if e = CHR 0x22 \<or> e = CHR 0x5C \<or> e = CHR ''/'' then Some ([e], r)
       else if e = CHR ''b'' then Some ([char_of (8 :: int)], r)
       else if e = CHR ''f'' then Some ([char_of (12 :: int)], r)
       else if e = CHR ''n'' then Some ([char_of (10 :: int)], r)
       else if e = CHR ''r'' then Some ([char_of (13 :: int)], r)
       else if e = CHR ''t'' then Some ([char_of (9 :: int)], r)
       else if e = CHR ''u'' then read_u r
       else None)"

text \<open>One unit of a string: an escape, a byte or a rune; \<open>None\<close> for a control byte.\<close>

definition read_unit :: "bytes \<Rightarrow> (bytes \<times> bytes) option" where
  "read_unit s = (case s of
     [] \<Rightarrow> None
   | c # r \<Rightarrow>
       if c = CHR 0x5C then read_escape r
       else if byte c < 32 then None
       else if is_ascii c then Some ([c], r)
       else if rune_len s = 0 then Some (replacement, r)
       else Some (take (rune_len s) s, drop (rune_len s) s))"

fun read_str :: "nat \<Rightarrow> bytes \<Rightarrow> (bytes \<times> bytes) option" where
  "read_str 0 s = None"
| "read_str (Suc n) s =
     (case s of
        [] \<Rightarrow> None
      | c # r \<Rightarrow>
          if c = CHR 0x22 then Some ([], r)
          else case read_unit s of
            None \<Rightarrow> None
          | Some (u, s') \<Rightarrow> (case read_str n s' of None \<Rightarrow> None | Some (t, s'') \<Rightarrow> Some (u @ t, s'')))"

definition is_ws :: "char \<Rightarrow> bool" where
  "is_ws c \<longleftrightarrow> byte c = 32 \<or> byte c = 9 \<or> byte c = 10 \<or> byte c = 13"

definition skip_ws :: "bytes \<Rightarrow> bytes" where
  "skip_ws s = dropWhile is_ws s"

text \<open>A number literal: sign, integer part without leading zeros, fraction, exponent.\<close>

definition read_digits :: "bytes \<Rightarrow> (bytes \<times> bytes) option" where
  "read_digits s = (if takeWhile is_digit s = [] then None else Some (takeWhile is_digit s, dropWhile is_digit s))"

definition read_int :: "bytes \<Rightarrow> (bytes \<times> bytes) option" where
  "read_int s = (case s of
     [] \<Rightarrow> None
   | c # r \<Rightarrow> if c = CHR ''0'' then Some ([c], r) else read_digits s)"

definition read_frac :: "bytes \<Rightarrow> (bytes \<times> bytes) option" where
  "read_frac s = (case s of
     c # r \<Rightarrow> if c = CHR ''.'' then map_option (apfst ((#) c)) (read_digits r) else Some ([], s)
   | [] \<Rightarrow> Some ([], []))"

definition read_exp :: "bytes \<Rightarrow> (bytes \<times> bytes) option" where
  "read_exp s = (case s of
     c # r \<Rightarrow>
       if c = CHR ''e'' \<or> c = CHR ''E''
       then (case r of
               d # q \<Rightarrow>
                 if d = CHR ''+'' \<or> d = CHR ''-''
                 then map_option (apfst (\<lambda>t. c # d # t)) (read_digits q)
                 else map_option (apfst ((#) c)) (read_digits r)
             | [] \<Rightarrow> None)
       else Some ([], s)
   | [] \<Rightarrow> Some ([], []))"

definition read_num :: "bytes \<Rightarrow> (bytes \<times> bytes) option" where
  "read_num s =
     (let (sg, s0) = (case s of c # r \<Rightarrow> if c = CHR ''-'' then ([c], r) else ([], s) | [] \<Rightarrow> ([], [])) in
      Option.bind (read_int s0) (\<lambda>(i, s1).
      Option.bind (read_frac s1) (\<lambda>(f, s2).
      Option.bind (read_exp s2) (\<lambda>(e, s3). Some (sg @ i @ f @ e, s3)))))"

definition MaxNestingDepth :: int where "MaxNestingDepth = 10000"

text \<open>
  Values, array elements and object members; the fuel bounds the number of nested calls and
  is the length of the text at the start, \<open>depth\<close> is the nesting limit of the scanner.
\<close>

fun read_value :: "nat \<Rightarrow> int \<Rightarrow> bytes \<Rightarrow> (json \<times> bytes) option"
  and read_elems :: "nat \<Rightarrow> int \<Rightarrow> bytes \<Rightarrow> (json list \<times> bytes) option"
  and read_members :: "nat \<Rightarrow> int \<Rightarrow> bytes \<Rightarrow> ((bytes \<times> json) list \<times> bytes) option" where
  "read_value 0 depth s = None"
| "read_value (Suc n) depth s =
     (case skip_ws s of
        [] \<Rightarrow> None
      | c # r \<Rightarrow>
          if c = CHR 0x22 then map_option (apfst JStr) (read_str (Suc (length r)) r)
          else if c = CHR ''['' then
            (if depth \<ge> MaxNestingDepth then None
             else case skip_ws r of
               d # r' \<Rightarrow> if d = CHR '']'' then Some (JArr [], r')
                         else map_option (apfst JArr) (read_elems n (depth + 1) r)
             | [] \<Rightarrow> None)
          else if c = CHR ''{'' then
            (if depth \<ge> MaxNestingDepth then None
             else case skip_ws r of
               d # r' \<Rightarrow> if d = CHR ''}'' then Some (JObj [], r')
                         else map_option (apfst JObj) (read_members n (depth + 1) r)
             | [] \<Rightarrow> None)
          else if has_prefix (c # r) ''null'' then Some (JNull, drop 4 (c # r))
          else if has_prefix (c # r) ''true'' then Some (JBool True, drop 4 (c # r))
          else if has_prefix (c # r) ''false'' then Some (JBool False, drop 5 (c # r))
          else map_option (apfst JNum) (read_num (c # r)))"
| "read_elems 0 depth s = None"
| "read_elems (Suc n) depth s =
     (case read_value n depth s of
        None \<Rightarrow> None
      | Some (j, s1) \<Rightarrow>
          (case skip_ws s1 of
             c # r \<Rightarrow> if c = CHR '']'' then Some ([j], r)
                      else if c = CHR '','' then map_option (apfst ((#) j)) (read_elems n depth r)
                      else None
           | [] \<Rightarrow> None))"
| "read_members 0 depth s = None"
| "read_members (Suc n) depth s =
     (case skip_ws s of
        q # s0 \<Rightarrow>
          if q \<noteq> CHR 0x22 then None
          else (case read_str (Suc (length s0)) s0 of
             None \<Rightarrow> None
           | Some (k, s1) \<Rightarrow>
               (case skip_ws s1 of
                  c # s2 \<Rightarrow>
                    if c \<noteq> CHR '':'' then None
                    else (case read_value n depth s2 of
                       None \<Rightarrow> None
                     | Some (j, s3) \<Rightarrow>
                         (case skip_ws s3 of
                            d # r \<Rightarrow> if d = CHR ''}'' then Some ([(k, j)], r)
                                     else if d = CHR '','' then map_option (apfst ((#) (k, j))) (read_members n depth r)
                                     else None
                          | [] \<Rightarrow> None))
                | [] \<Rightarrow> None))
      | [] \<Rightarrow> None)"

definition json_parse :: "bytes \<Rightarrow> json option" where
  "json_parse s = (case read_value (2 * length s + 2) 0 s of
     None \<Rightarrow> None
   | Some (j, r) \<Rightarrow> if skip_ws r = [] then Some j else None)"

text \<open>A \<open>json.Decoder\<close> reads the first value of a stream and leaves the rest.\<close>

definition json_decode_first :: "bytes \<Rightarrow> json option" where
  "json_decode_first s = map_option fst (read_value (2 * length s + 2) 0 s)"

subsection \<open>Reading back what was written\<close>

lemma is_ascii_esc:
  "is_ascii c \<Longrightarrow> \<exists>d r. esc_ascii c = d # r \<and> d \<noteq> CHR 0x22 \<and> (d = CHR 0x5C \<or> (r = [] \<and> d = c \<and> 32 \<le> byte c))"
  by (auto simp: esc_ascii_def Let_def esc_u_def is_ascii_def)

lemma getu4_esc_u:
  "list_all (\<lambda>n. getu4 (drop 2 (esc_u n)) = Some (n, [])) [0..127]"
  by code_simp

lemma getu4_append: "getu4 s = Some (n, []) \<Longrightarrow> getu4 (s @ t) = Some (n, t)"
  by (cases s rule: getu4.cases) (auto split: option.splits)

lemma read_u_small:
  assumes "0 \<le> n" "n < 128"
  shows "read_u (drop 2 (esc_u n) @ t) = Some ([char_of n], t)"
proof -
  have "getu4 (drop 2 (esc_u n)) = Some (n, [])"
    using getu4_esc_u assms by (simp add: list_all_iff)
  from getu4_append [OF this] assms show ?thesis by (simp add: read_u_def utf8_encode_def)
qed

lemma read_escape_u: "read_escape (CHR ''u'' # s) = read_u s"
  by (simp add: read_escape_def)

lemma read_unit_esc_u: "read_unit (esc_u n @ t) = read_u (drop 2 (esc_u n) @ t)"
  by (simp add: esc_u_def read_unit_def read_escape_u)

lemma char_of_byte: "char_of (byte c) = c"
  by simp

lemma char_codes:
  "char_of (0x22 :: int) = CHR 0x22" "char_of (0x5C :: int) = CHR 0x5C" "char_of (8 :: int) = CHR 0x08"
  "char_of (9 :: int) = CHR 0x09" "char_of (10 :: int) = CHR 0x0A" "char_of (12 :: int) = CHR 0x0C"
  "char_of (13 :: int) = CHR 0x0D"
  by code_simp+

lemma byte_eqD: "byte c = k \<Longrightarrow> c = char_of (k :: int)"
  by auto

lemma read_unit_esc_short:
  assumes "byte c = (k :: int)" "k \<in> {0x22, 0x5C, 8, 9, 10, 12, 13}"
  shows "read_unit (esc_ascii c @ t) = Some ([c], t)"
  using assms(2) byte_eqD [OF assms(1)] unfolding insert_iff empty_iff
  by (elim disjE) (simp_all add: char_codes esc_ascii_def read_unit_def read_escape_def)

lemma byte_range: "(0 :: int) \<le> byte c \<and> byte c < (256 :: int)"
  by (metis of_char_mod_256 pos_mod_bound pos_mod_sign zero_less_numeral)

lemma read_unit_plain:
  assumes "is_ascii c" "32 \<le> (byte c :: int)" "byte c \<noteq> (0x5C :: int)"
  shows "read_unit (c # t) = Some ([c], t)"
  using assms by (auto simp: read_unit_def)

lemma read_unit_esc_ascii:
  assumes "is_ascii c"
  shows "read_unit (esc_ascii c @ t) = Some ([c], t)"
proof -
  let ?n = "byte c :: int"
  consider "?n \<in> {0x22, 0x5C, 8, 9, 10, 12, 13}"
    | "?n \<notin> {0x22, 0x5C, 8, 9, 10, 12, 13}" "?n < 32 \<or> ?n = 0x3C \<or> ?n = 0x3E \<or> ?n = 0x26"
    | "?n \<notin> {0x22, 0x5C, 8, 9, 10, 12, 13}" "\<not> (?n < 32 \<or> ?n = 0x3C \<or> ?n = 0x3E \<or> ?n = 0x26)"
    by blast
  then show ?thesis
  proof cases
    case 1
    then show ?thesis by (intro read_unit_esc_short [OF refl])
  next
    case 2
    then have "esc_ascii c = esc_u ?n" by (simp add: esc_ascii_def)
    moreover have "?n < 128" using assms by (simp add: is_ascii_def)
    ultimately show ?thesis
      using read_u_small [of ?n t] byte_range [of c] by (simp add: read_unit_esc_u)
  next
    case 3
    then have "esc_ascii c = [c]" by (simp add: esc_ascii_def)
    with 3 assms show ?thesis using read_unit_plain [of c t] by simp
  qed
qed

lemma esc_ascii_no_quote: "hd (esc_ascii c) \<noteq> CHR 0x22 \<and> esc_ascii c \<noteq> []"
  using byte_eqD [of c 34] by (auto simp: esc_ascii_def Let_def esc_u_def)

lemma rune_len_cases:
  assumes "rune_len s \<noteq> 0"
  shows "\<exists>u t. s = u @ t \<and> length u = rune_len s \<and> (\<forall>t'. rune_len (u @ t') = rune_len s) \<and> \<not> is_ascii (hd u) \<and> u \<noteq> []"
proof -
  obtain a b r where s: "s = a # b # r" using assms by (cases s rule: rune_len.cases) auto
  have a: "\<not> is_ascii a" using assms by (auto simp: s is_ascii_def Let_def split: if_splits)
  consider "rune_len s = 2" | "rune_len s = 3" | "rune_len s = 4"
    using assms by (auto simp: s Let_def split: if_splits list.splits)
  then show ?thesis
  proof cases
    case 1
    then show ?thesis
      using a by (intro exI [of _ "[a, b]"] exI [of _ r]) (auto simp: s Let_def split: if_splits list.splits)
  next
    case 2
    then obtain c q where "r = c # q" by (cases r) (auto simp: s Let_def split: if_splits)
    with 2 a show ?thesis
      by (intro exI [of _ "[a, b, c]"] exI [of _ q]) (auto simp: s Let_def split: if_splits list.splits)
  next
    case 3
    then obtain c d q where "r = c # d # q"
      by (cases r rule: list.exhaust; cases "tl r") (auto simp: s Let_def split: if_splits list.splits)
    with 3 a show ?thesis
      by (intro exI [of _ "[a, b, c, d]"] exI [of _ q]) (auto simp: s Let_def split: if_splits)
  qed
qed

lemma read_unit_rune:
  assumes "rune_len (c # s) \<noteq> 0"
  shows "read_unit (take (rune_len (c # s)) (c # s) @ t) = Some (take (rune_len (c # s)) (c # s), t)"
    and "take (rune_len (c # s)) (c # s) \<noteq> []" and "hd (take (rune_len (c # s)) (c # s)) \<noteq> CHR 0x22"
proof -
  obtain u r where u: "c # s = u @ r" "length u = rune_len (c # s)" "\<And>t'. rune_len (u @ t') = rune_len (c # s)"
    "\<not> is_ascii (hd u)" "u \<noteq> []"
    using rune_len_cases [OF assms] by blast
  have tk: "take (rune_len (c # s)) (c # s) = u" by (metis u(1) u(2) append_eq_conv_conj)
  obtain d u' where d: "u = d # u'" using u(5) by (cases u) auto
  have nd: "d \<noteq> CHR 0x5C" "\<not> byte d < (32 :: int)" "d \<noteq> CHR 0x22"
    using u(4) d by (auto simp: is_ascii_def)
  have len: "rune_len (d # u' @ t) = length u" using u(3) [of t] u(2) d by simp
  have "rune_len (u @ t) \<noteq> 0" using u(3) [of t] assms by simp
  then show "read_unit (take (rune_len (c # s)) (c # s) @ t) = Some (take (rune_len (c # s)) (c # s), t)"
    unfolding tk using nd u(4) len by (simp add: read_unit_def d del: rune_len.simps)
  show "take (rune_len (c # s)) (c # s) \<noteq> []" "hd (take (rune_len (c # s)) (c # s)) \<noteq> CHR 0x22"
    unfolding tk using nd d by auto
qed

lemma read_unit_line_sep:
  "read_unit (esc_u 0x2028 @ t) = Some (utf8_encode 0x2028, t)"
  "read_unit (esc_u 0x2029 @ t) = Some (utf8_encode 0x2029, t)"
proof -
  have "getu4 (drop 2 (esc_u 0x2028)) = Some (0x2028, [])" "getu4 (drop 2 (esc_u 0x2029)) = Some (0x2029, [])"
    by code_simp+
  from this [THEN getu4_append]
  show "read_unit (esc_u 0x2028 @ t) = Some (utf8_encode 0x2028, t)"
    "read_unit (esc_u 0x2029 @ t) = Some (utf8_encode 0x2029, t)"
    unfolding read_unit_esc_u by (simp_all add: read_u_def)
qed

text \<open>One unit of the source string and what it is written as.\<close>

definition unit_of :: "bytes \<Rightarrow> nat" where
  "unit_of s = (if is_ascii (hd s) then 1 else rune_len s)"

definition enc_unit :: "bytes \<Rightarrow> bytes" where
  "enc_unit s =
     (if is_ascii (hd s) then esc_ascii (hd s)
      else if take 3 s = utf8_encode 0x2028 then esc_u 0x2028
      else if take 3 s = utf8_encode 0x2029 then esc_u 0x2029
      else take (rune_len s) s)"

lemma enc_str_unit:
  assumes "valid_utf8 (c # s)"
  shows "enc_str (c # s) = enc_unit (c # s) @ enc_str (drop (unit_of (c # s)) (c # s))"
    and "valid_utf8 (drop (unit_of (c # s)) (c # s))" and "0 < unit_of (c # s)"
  using assms by (auto simp: enc_unit_def unit_of_def simp del: rune_len.simps split: if_splits)

lemma line_sep_len:
  "take 3 s = utf8_encode 0x2028 \<Longrightarrow> rune_len s \<noteq> 0 \<Longrightarrow> take (rune_len s) s = utf8_encode 0x2028"
  "take 3 s = utf8_encode 0x2029 \<Longrightarrow> rune_len s \<noteq> 0 \<Longrightarrow> take (rune_len s) s = utf8_encode 0x2029"
proof -
  have e: "utf8_encode 0x2028 = map char_of [0xE2, 0x80, 0xA8 :: int]"
    "utf8_encode 0x2029 = map char_of [0xE2, 0x80, 0xA9 :: int]" by code_simp+
  {
    fix x :: int
    assume t: "take 3 s = map char_of [0xE2, 0x80, x]" and r: "rune_len s \<noteq> 0"
    obtain a s1 where s1: "s = a # s1" using t by (cases s) auto
    obtain b s2 where s2: "s1 = b # s2" using t s1 by (cases s1) auto
    obtain c q where s3: "s2 = c # q" using t s1 s2 by (cases s2) auto
    have "s = char_of (0xE2 :: int) # char_of (0x80 :: int) # char_of x # q"
      using t s1 s2 s3 by simp
    with r have "rune_len s = 3" by (auto simp: Let_def split: if_splits)
    with t have "take (rune_len s) s = map char_of [0xE2, 0x80, x]" by simp
  }
  note * = this
  show "take 3 s = utf8_encode 0x2028 \<Longrightarrow> rune_len s \<noteq> 0 \<Longrightarrow> take (rune_len s) s = utf8_encode 0x2028"
    "take 3 s = utf8_encode 0x2029 \<Longrightarrow> rune_len s \<noteq> 0 \<Longrightarrow> take (rune_len s) s = utf8_encode 0x2029"
    unfolding e by (rule *; assumption)+
qed

lemma read_enc_unit:
  assumes "valid_utf8 (c # s)"
  shows "read_unit (enc_unit (c # s) @ t) = Some (take (unit_of (c # s)) (c # s), t)"
    and "enc_unit (c # s) \<noteq> []" and "hd (enc_unit (c # s)) \<noteq> CHR 0x22"
proof -
  have r: "is_ascii c \<or> rune_len (c # s) \<noteq> 0" using assms by (auto simp del: rune_len.simps split: if_splits)
  have q: "hd (esc_u n) \<noteq> CHR 0x22 \<and> esc_u n \<noteq> []" for n by (simp add: esc_u_def)
  show "read_unit (enc_unit (c # s) @ t) = Some (take (unit_of (c # s)) (c # s), t)"
    using r read_unit_esc_ascii [of c t] read_unit_rune(1) [of c s t] line_sep_len [of "c # s"] read_unit_line_sep [of t]
    by (auto simp: enc_unit_def unit_of_def simp del: rune_len.simps)
  show "enc_unit (c # s) \<noteq> []" "hd (enc_unit (c # s)) \<noteq> CHR 0x22"
    using r read_unit_rune [of c s] esc_ascii_no_quote [of c] q
    by (auto simp: enc_unit_def simp del: rune_len.simps)
qed

lemma read_str_enc:
  "\<lbrakk>valid_utf8 s; length (enc_str s) < n\<rbrakk> \<Longrightarrow> read_str n (enc_str s @ CHR 0x22 # rest) = Some (s, rest)"
proof (induction "length s" arbitrary: s n rule: less_induct)
  case less
  obtain m where n: "n = Suc m" using less.prems by (cases n) auto
  show ?case
  proof (cases s)
    case Nil
    then show ?thesis by (simp add: n)
  next
    case (Cons c s')
    let ?u = "unit_of s"
    have v: "valid_utf8 (c # s')" using less.prems Cons by simp
    note e = enc_str_unit [OF v, folded Cons] and r = read_enc_unit [OF v, folded Cons]
    obtain d q where d: "enc_unit s = d # q" "d \<noteq> CHR 0x22" using r(2, 3) by (cases "enc_unit s") auto
    have "length (drop ?u s) < length s" using e(3) Cons by simp
    moreover have "length (enc_str (drop ?u s)) < m" using less.prems(2) e(1) d n by simp
    ultimately have ih: "read_str m (enc_str (drop ?u s) @ CHR 0x22 # rest) = Some (drop ?u s, rest)"
      using less.hyps e(2) by blast
    show ?thesis
      using r(1) [of "enc_str (drop ?u s) @ CHR 0x22 # rest"] d ih by (simp add: n e(1))
  qed
qed

text \<open>What may follow a value inside a document written by \<open>json.Marshal\<close>.\<close>

definition delim :: "bytes \<Rightarrow> bool" where
  "delim t \<longleftrightarrow> t = [] \<or> hd t \<in> {CHR '','', CHR '']'', CHR ''}''}"

lemma delim_head:
  "delim (c # t) \<Longrightarrow> \<not> is_digit c \<and> c \<noteq> CHR ''.'' \<and> c \<noteq> CHR ''e'' \<and> c \<noteq> CHR ''E'' \<and> c \<noteq> CHR ''+''
     \<and> c \<noteq> CHR ''-'' \<and> c \<noteq> CHR ''0''"
  by (auto simp: delim_def is_digit_def)

lemma delim_simps [simp]: "delim []" "delim (CHR '','' # t)" "delim (CHR '']'' # t)" "delim (CHR ''}'' # t)"
  by (simp_all add: delim_def)

lemma takeWhile_delim: "delim t \<Longrightarrow> takeWhile is_digit (s @ t) = takeWhile is_digit s"
  by (induction s) (cases t; auto dest: delim_head)+

lemma dropWhile_delim: "delim t \<Longrightarrow> dropWhile is_digit (s @ t) = dropWhile is_digit s @ t"
  by (induction s) (cases t; auto dest: delim_head)+

lemma read_digits_delim: "delim t \<Longrightarrow> read_digits (s @ t) = map_option (apsnd (\<lambda>r. r @ t)) (read_digits s)"
  by (simp add: read_digits_def takeWhile_delim dropWhile_delim)

lemma read_digits_nil: "delim t \<Longrightarrow> read_digits t = None"
  using read_digits_delim [of t "[]"] by (simp add: read_digits_def)

lemma read_int_delim: "delim t \<Longrightarrow> read_int (s @ t) = map_option (apsnd (\<lambda>r. r @ t)) (read_int s)"
  using read_digits_delim [of t s]
  by (cases s) (auto simp: read_int_def read_digits_nil split: list.splits dest: delim_head)

lemma read_frac_delim: "delim t \<Longrightarrow> read_frac (s @ t) = map_option (apsnd (\<lambda>r. r @ t)) (read_frac s)"
  using read_digits_delim [of t "tl s"]
  by (cases s) (auto simp: read_frac_def option.map_comp comp_def split: list.splits dest: delim_head)

lemma read_exp_delim: "delim t \<Longrightarrow> read_exp (s @ t) = map_option (apsnd (\<lambda>r. r @ t)) (read_exp s)"
  using read_digits_delim [of t "tl s"] read_digits_delim [of t "tl (tl s)"]
  by (cases s; cases "tl s")
    (auto simp: read_exp_def option.map_comp comp_def read_digits_nil split: list.splits dest: delim_head)

definition num_literal :: "bytes \<Rightarrow> bool" where
  "num_literal l \<longleftrightarrow> read_num l = Some (l, [])"

lemma read_num_delim:
  "\<lbrakk>delim t; l \<noteq> []\<rbrakk> \<Longrightarrow> read_num (l @ t) = map_option (apsnd (\<lambda>r. r @ t)) (read_num l)"
  by (cases l)
    (auto simp: read_num_def Let_def read_int_delim read_frac_delim read_exp_delim
      read_int_delim [where s = "_ # _", simplified] split: prod.splits option.splits bind_splits)

lemma read_num_literal: "\<lbrakk>num_literal l; delim t\<rbrakk> \<Longrightarrow> read_num (l @ t) = Some (l, t)"
  using read_num_delim [of t l] by (cases "l = []") (auto simp: num_literal_def read_num_def read_int_def)

lemma read_int_head: "read_int s = Some x \<Longrightarrow> s \<noteq> [] \<and> is_digit (hd s)"
  by (cases s) (auto simp: read_int_def read_digits_def is_digit_def split: if_splits)

lemma num_literal_head: "num_literal l \<Longrightarrow> l \<noteq> [] \<and> (is_digit (hd l) \<or> hd l = CHR ''-'')"
  by (cases l) (auto simp: num_literal_def read_num_def Let_def split: if_splits bind_splits
      dest!: read_int_head)

fun wf_json :: "json \<Rightarrow> bool" where
  "wf_json JNull = True"
| "wf_json (JBool b) = True"
| "wf_json (JNum l) = num_literal l"
| "wf_json (JStr s) = valid_utf8 s"
| "wf_json (JArr js) = (\<forall>j \<in> set js. wf_json j)"
| "wf_json (JObj ms) = (\<forall>m \<in> set ms. valid_utf8 (fst m) \<and> wf_json (snd m))"

fun jdepth :: "json \<Rightarrow> int" and elems_depth :: "json list \<Rightarrow> int"
  and members_depth :: "(bytes \<times> json) list \<Rightarrow> int" where
  "jdepth (JArr js) = 1 + elems_depth js"
| "jdepth (JObj ms) = 1 + members_depth ms"
| "jdepth _ = 0"
| "elems_depth [] = 0"
| "elems_depth (j # js) = max (jdepth j) (elems_depth js)"
| "members_depth [] = 0"
| "members_depth ((k, j) # ms) = max (jdepth j) (members_depth ms)"

lemma depth_nonneg: "0 \<le> jdepth j" "0 \<le> elems_depth js" "0 \<le> members_depth ms"
  by (induction j and js and ms rule: jdepth_elems_depth_members_depth.induct) auto

definition value_head :: "char \<Rightarrow> bool" where
  "value_head c \<longleftrightarrow> \<not> is_ws c \<and> c \<noteq> CHR '']'' \<and> c \<noteq> CHR ''}''"

lemma json_print_head:
  "wf_json j \<Longrightarrow> \<exists>c r. json_print j = c # r \<and> value_head c"
proof (cases j)
  case (JNum l)
  assume "wf_json j"
  then have "l \<noteq> [] \<and> (is_digit (hd l) \<or> hd l = CHR ''-'')"
    using JNum num_literal_head [of l] by simp
  then show ?thesis using JNum by (cases l) (auto simp: value_head_def is_ws_def is_digit_def)
qed (auto simp: value_head_def is_ws_def quoted_def)

lemma skip_ws_head: "\<not> is_ws c \<Longrightarrow> skip_ws (c # r) = c # r"
  by (simp add: skip_ws_def)

lemma num_no_keyword:
  assumes "is_digit c \<or> c = CHR ''-''"
  shows "c \<noteq> CHR 0x22" "c \<noteq> CHR ''[''" "c \<noteq> CHR ''{''" "c \<noteq> CHR ''n''" "c \<noteq> CHR ''t''" "c \<noteq> CHR ''f''" "\<not> is_ws c"
  using assms by (auto simp: is_digit_def is_ws_def)

lemma read_value_num:
  assumes "num_literal l" "delim t"
  shows "read_value (Suc n) depth (l @ t) = Some (JNum l, t)"
proof -
  obtain c r where l: "l = c # r" "is_digit c \<or> c = CHR ''-''"
    using num_literal_head [OF assms(1)] by (cases l) auto
  note k = num_no_keyword [OF l(2)]
  show ?thesis
    using read_num_literal [OF assms] k by (simp add: l(1) skip_ws_head)
qed

lemma read_value_str:
  assumes "valid_utf8 s"
  shows "read_value (Suc n) depth (quoted s @ t) = Some (JStr s, t)"
  using read_str_enc [OF assms, of "Suc (length (enc_str s @ CHR 0x22 # t))" t]
  by (simp add: quoted_def skip_ws_head is_ws_def del: read_str.simps)

lemma read_elems_step:
  assumes "read_value n depth s = Some (j, c # r)" "\<not> is_ws c"
  shows "read_elems (Suc n) depth s =
    (if c = CHR '']'' then Some ([j], r)
     else if c = CHR '','' then map_option (apfst ((#) j)) (read_elems n depth r) else None)"
  using assms by (simp add: skip_ws_head)

lemma read_members_step:
  assumes "valid_utf8 k" "read_value n depth s = Some (j, c # r)" "\<not> is_ws c"
  shows "read_members (Suc n) depth (quoted k @ CHR '':'' # s) =
    (if c = CHR ''}'' then Some ([(k, j)], r)
     else if c = CHR '','' then map_option (apfst ((#) (k, j))) (read_members n depth r) else None)"
  using assms read_str_enc [OF assms(1), of "Suc (length (enc_str k @ CHR 0x22 # CHR '':'' # s))" "CHR '':'' # s"]
  by (simp add: quoted_def skip_ws_head is_ws_def del: read_str.simps)

lemma delim_not_ws: "\<not> is_ws CHR '']''" "\<not> is_ws CHR '',''" "\<not> is_ws CHR ''}''"
  by (simp_all add: is_ws_def)

lemma read_array:
  assumes "read_elems n (depth + 1) (c # r) = Some (js, t)" "value_head c" "depth < MaxNestingDepth"
  shows "read_value (Suc n) depth (CHR ''['' # c # r) = Some (JArr js, t)"
  using assms by (simp add: skip_ws_head is_ws_def value_head_def)

lemma read_object:
  assumes "read_members n (depth + 1) (c # r) = Some (ms, t)" "value_head c" "depth < MaxNestingDepth"
  shows "read_value (Suc n) depth (CHR ''{'' # c # r) = Some (JObj ms, t)"
  using assms by (simp add: skip_ws_head is_ws_def value_head_def)

lemma quoted_head: "value_head CHR 0x22"
  by (simp add: value_head_def is_ws_def)

lemma read_print_all:
  "wf_json j \<longrightarrow> depth + jdepth j \<le> MaxNestingDepth \<longrightarrow> delim t \<longrightarrow> 2 * length (json_print j) \<le> n
     \<longrightarrow> read_value n depth (json_print j @ t) = Some (j, t)"
  "(\<forall>j \<in> set js. wf_json j) \<longrightarrow> js \<noteq> [] \<longrightarrow> depth + elems_depth js \<le> MaxNestingDepth
     \<longrightarrow> 2 * length (print_elems js) < n
     \<longrightarrow> read_elems n depth (print_elems js @ CHR '']'' # t) = Some (js, t)"
  "(\<forall>m \<in> set ms. valid_utf8 (fst m) \<and> wf_json (snd m)) \<longrightarrow> ms \<noteq> []
     \<longrightarrow> depth + members_depth ms \<le> MaxNestingDepth \<longrightarrow> 2 * length (print_members ms) < n
     \<longrightarrow> read_members n depth (print_members ms @ CHR ''}'' # t) = Some (ms, t)"
proof (induction j and js and ms arbitrary: depth t n and depth t n and depth t n
       rule: json_print_print_elems_print_members.induct)
  case 1
  then show ?case by (cases n) (auto simp: skip_ws_head is_ws_def)
next
  case (2 b)
  then show ?case by (cases n) (auto simp: skip_ws_head is_ws_def)
next
  case (3 l)
  then show ?case using read_value_num [of l t] num_literal_head [of l] by (cases n) auto
next
  case (4 s)
  then show ?case using read_value_str [of s] by (cases n) (auto simp: quoted_def)
next
  case (5 js)
  show ?case
  proof (intro impI)
    assume p: "wf_json (JArr js)" "depth + jdepth (JArr js) \<le> MaxNestingDepth" "delim t"
      "2 * length (json_print (JArr js)) \<le> n"
    then obtain m where n: "n = Suc m" by (cases n) auto
    have d: "depth < MaxNestingDepth" using p(2) depth_nonneg(2) [of js] by simp
    show "read_value n depth (json_print (JArr js) @ t) = Some (JArr js, t)"
    proof (cases "js = []")
      case True
      then show ?thesis using d by (simp add: n skip_ws_head is_ws_def)
    next
      case False
      then have e: "read_elems m (depth + 1) (print_elems js @ CHR '']'' # t) = Some (js, t)"
        using 5 p n by auto
      have "wf_json (hd js)" using p(1) False by (cases js) auto
      then obtain c r where "json_print (hd js) = c # r" "value_head c" using json_print_head by blast
      then obtain r' where "print_elems js = c # r'" "value_head c" using False by (cases js rule: list.exhaust; cases "tl js") auto
      then show ?thesis using read_array [of m depth c "r' @ CHR '']'' # t" js t] e d by (simp add: n)
    qed
  qed
next
  case (6 ms)
  show ?case
  proof (intro impI)
    assume p: "wf_json (JObj ms)" "depth + jdepth (JObj ms) \<le> MaxNestingDepth" "delim t"
      "2 * length (json_print (JObj ms)) \<le> n"
    then obtain m where n: "n = Suc m" by (cases n) auto
    have d: "depth < MaxNestingDepth" using p(2) depth_nonneg(3) [of ms] by simp
    show "read_value n depth (json_print (JObj ms) @ t) = Some (JObj ms, t)"
    proof (cases "ms = []")
      case True
      then show ?thesis using d by (simp add: n skip_ws_head is_ws_def)
    next
      case False
      then have e: "read_members m (depth + 1) (print_members ms @ CHR ''}'' # t) = Some (ms, t)"
        using 6 p n by auto
      obtain r' where "print_members ms = CHR 0x22 # r'"
        using False by (cases ms rule: print_members.cases) (auto simp: quoted_def)
      then show ?thesis using read_object [of m depth "CHR 0x22" "r' @ CHR ''}'' # t" ms t] e d quoted_head
        by (simp add: n)
    qed
  qed
next
  case 7
  then show ?case by simp
next
  case (8 j)
  then show ?case using read_elems_step [of _ depth "json_print j @ CHR '']'' # t" j "CHR '']''" t] delim_not_ws
    by (cases n) auto
next
  case (9 j j' js)
  show ?case
  proof (intro impI)
    assume p: "\<forall>j \<in> set (j # j' # js). wf_json j" "depth + elems_depth (j # j' # js) \<le> MaxNestingDepth"
      "2 * length (print_elems (j # j' # js)) < n"
    then obtain m where n: "n = Suc m" by (cases n) auto
    let ?r = "print_elems (j' # js) @ CHR '']'' # t"
    have "read_value m depth (json_print j @ CHR '','' # ?r) = Some (j, CHR '','' # ?r)"
      using 9(1) p n by auto
    moreover have "read_elems m depth ?r = Some (j' # js, t)" using 9(2) p n by auto
    ultimately show "read_elems n depth (print_elems (j # j' # js) @ CHR '']'' # t) = Some (j # j' # js, t)"
      using read_elems_step [of m depth "json_print j @ CHR '','' # ?r" j "CHR '',''" ?r] delim_not_ws by (simp add: n)
  qed
next
  case 10
  then show ?case by simp
next
  case (11 k j)
  then show ?case using read_members_step [of k _ depth "json_print j @ CHR ''}'' # t" j "CHR ''}''" t] delim_not_ws
    by (cases n) auto
next
  case (12 k j m' ms)
  show ?case
  proof (intro impI)
    assume p: "\<forall>m \<in> set ((k, j) # m' # ms). valid_utf8 (fst m) \<and> wf_json (snd m)"
      "depth + members_depth ((k, j) # m' # ms) \<le> MaxNestingDepth"
      "2 * length (print_members ((k, j) # m' # ms)) < n"
    then obtain m where n: "n = Suc m" by (cases n) auto
    let ?r = "print_members (m' # ms) @ CHR ''}'' # t"
    have "members_depth ((k, j) # m' # ms) = max (jdepth j) (members_depth (m' # ms))" by simp
    then have d: "depth + jdepth j \<le> MaxNestingDepth" "depth + members_depth (m' # ms) \<le> MaxNestingDepth"
      using p(2) by auto
    have "read_value m depth (json_print j @ CHR '','' # ?r) = Some (j, CHR '','' # ?r)"
      using 12(1) p(1, 3) d n by auto
    moreover have "read_members m depth ?r = Some (m' # ms, t)" using 12(2) p(1, 3) d n by auto
    ultimately show "read_members n depth (print_members ((k, j) # m' # ms) @ CHR ''}'' # t) = Some ((k, j) # m' # ms, t)"
      using read_members_step [of k m depth "json_print j @ CHR '','' # ?r" j "CHR '',''" ?r] delim_not_ws p(1)
      by (simp add: n)
  qed
qed

lemma json_parse_print: "\<lbrakk>wf_json j; jdepth j \<le> MaxNestingDepth\<rbrakk> \<Longrightarrow> json_parse (json_print j) = Some j"
  using read_print_all(1) [of j 0 "[]" "2 * length (json_print j) + 2"]
  by (simp add: json_parse_def skip_ws_def)

subsection \<open>Decoding into Go values\<close>

text \<open>
  \<open>json.Unmarshal\<close> into a struct: each member is stored in the field whose name is
  the key, or else equals it up to letter case (the long s and the Kelvin sign count as
  letters s and k); unknown keys are skipped, \<open>null\<close> leaves a field as it is, and a value
  of the wrong type makes the whole call fail. A field is a name with a function that stores
  a value in the struct; \<open>None\<close> stands for a non-nil error.
\<close>

fun fold_name :: "bytes \<Rightarrow> bytes" where
  "fold_name (a # b # c # s) =
     (if byte a = 0xE2 \<and> byte b = 0x84 \<and> byte c = 0xAA then CHR ''k'' # fold_name s
      else if byte a = 0xC5 \<and> byte b = 0xBF then CHR ''s'' # fold_name (c # s)
      else lower_char a # fold_name (b # c # s))"
| "fold_name [a, b] =
     (if byte a = 0xC5 \<and> byte b = 0xBF then ''s'' else [lower_char a, lower_char b])"
| "fold_name [a] = [lower_char a]"
| "fold_name [] = []"

type_synonym 'r field = "bytes \<times> (json \<Rightarrow> 'r \<Rightarrow> 'r option)"

definition find_field :: "'r field list \<Rightarrow> bytes \<Rightarrow> (json \<Rightarrow> 'r \<Rightarrow> 'r option) option" where
  "find_field fs k = (case map_of fs k of
     Some f \<Rightarrow> Some f
   | None \<Rightarrow> map_option snd (find (\<lambda>f. fold_name (fst f) = fold_name k) fs))"

fun decode_members :: "'r field list \<Rightarrow> (bytes \<times> json) list \<Rightarrow> 'r \<Rightarrow> 'r option" where
  "decode_members fs [] r = Some r"
| "decode_members fs ((k, j) # ms) r =
     (case find_field fs k of
        None \<Rightarrow> decode_members fs ms r
      | Some f \<Rightarrow> Option.bind (f j r) (decode_members fs ms))"

fun decode_struct :: "'r field list \<Rightarrow> json \<Rightarrow> 'r \<Rightarrow> 'r option" where
  "decode_struct fs JNull r = Some r"
| "decode_struct fs (JObj ms) r = decode_members fs ms r"
| "decode_struct fs _ r = None"

fun those_all :: "('a \<Rightarrow> 'b option) \<Rightarrow> 'a list \<Rightarrow> 'b list option" where
  "those_all f [] = Some []"
| "those_all f (x # xs) = Option.bind (f x) (\<lambda>y. map_option ((#) y) (those_all f xs))"

text \<open>Into a slice that was nil: \<open>null\<close> leaves it nil.\<close>

fun decode_slice :: "(json \<Rightarrow> 'a option) \<Rightarrow> json \<Rightarrow> 'a list option option" where
  "decode_slice f JNull = Some None"
| "decode_slice f (JArr js) = map_option Some (those_all f js)"
| "decode_slice f _ = None"

fun get_int :: "json \<Rightarrow> int \<Rightarrow> int option" where
  "get_int JNull old = Some old"
| "get_int (JNum l) old = atoi l"
| "get_int _ old = None"

fun get_str :: "json \<Rightarrow> bytes \<Rightarrow> bytes option" where
  "get_str JNull old = Some old"
| "get_str (JStr s) old = Some s"
| "get_str _ old = None"

fun get_bool :: "json \<Rightarrow> bool \<Rightarrow> bool option" where
  "get_bool JNull old = Some old"
| "get_bool (JBool b) old = Some b"
| "get_bool _ old = None"

text \<open>A slice is written as \<open>null\<close> when it is nil.\<close>

fun json_slice :: "('a \<Rightarrow> json) \<Rightarrow> 'a list option \<Rightarrow> json" where
  "json_slice f None = JNull"
| "json_slice f (Some xs) = JArr (map f xs)"

lemma get_int_jint [simp]: "in_int64 n \<Longrightarrow> get_int (jint n) old = Some n"
  by (simp add: jint_def)

lemma those_all_map: "\<forall>x \<in> set xs. f (g x) = Some x \<Longrightarrow> those_all f (map g xs) = Some xs"
  by (induction xs) auto

lemma decode_json_slice:
  assumes "\<And>xs x. sl = Some xs \<Longrightarrow> x \<in> set xs \<Longrightarrow> f (g x) = Some x"
  shows "decode_slice f (json_slice g sl) = Some sl"
  using assms by (cases sl) (auto intro!: those_all_map)

lemma those_all_length: "those_all f xs = Some ys \<Longrightarrow> length ys = length xs"
  by (induction xs arbitrary: ys) (auto split: bind_splits)

text \<open>The text of an error of \<open>encoding/json\<close> is not modelled further.\<close>

definition json_error :: "bytes" where
  "json_error = ''json''"

lemma char_code_0: "char_of (48 :: int) = CHR ''0''"
  by code_simp

lemma hd_dec_str_zero:
  "0 \<le> n \<Longrightarrow> (hd (dec_str n) = CHR ''0'' \<longleftrightarrow> n = 0) \<and> is_digit (hd (dec_str n))"
proof (induction n rule: dec_str.induct)
  case (1 n)
  show ?case
  proof (cases "n < 10")
    case True
    have "digit_char n = CHR ''0'' \<longleftrightarrow> n = 0"
    proof
      assume "digit_char n = CHR ''0''"
      then have "of_char (digit_char n) = (of_char CHR ''0'' :: int)" by simp
      then show "n = 0" using True 1 by simp
    qed (simp add: char_codes digit_char_def char_code_0)
    with True 1 show ?thesis by (simp add: dec_str.simps [of n])
  next
    case False
    then have "n div 10 \<noteq> 0" "0 \<le> n div 10" using 1 by auto
    with False 1 show ?thesis by (auto simp: dec_str.simps [of n])
  qed
qed

lemma read_digits_all: "\<lbrakk>\<forall>c \<in> set s. is_digit c; s \<noteq> []\<rbrakk> \<Longrightarrow> read_digits s = Some (s, [])"
proof -
  assume s: "\<forall>c \<in> set s. is_digit c" "s \<noteq> []"
  then have "takeWhile is_digit s = s" "dropWhile is_digit s = []"
    by (simp_all add: takeWhile_eq_all_conv dropWhile_eq_Nil_conv)
  then show ?thesis using s by (simp only: read_digits_def) simp
qed

lemma read_int_dec_str: "0 \<le> n \<Longrightarrow> read_int (dec_str n) = Some (dec_str n, [])"
proof -
  assume n: "0 \<le> n"
  obtain c r where d: "dec_str n = c # r" by (cases "dec_str n") auto
  show ?thesis
  proof (cases "n = 0")
    case True
    then show ?thesis by (simp add: dec_str.simps [of 0] read_int_def digit_char_def char_code_0)
  next
    case False
    then have "c \<noteq> CHR ''0''" using hd_dec_str_zero [OF n] d by simp
    then show ?thesis using read_digits_all [of "dec_str n"] dec_str_digits [OF n] d by (simp add: read_int_def)
  qed
qed

lemma num_literal_itoa [simp]: "num_literal (itoa n)"
proof -
  obtain c r where d: "dec_str n = c # r" by (cases "dec_str n") auto
  show ?thesis
    using hd_dec_str [OF d] read_int_dec_str [of n] read_int_dec_str [of "- n"] d
    by (auto simp: num_literal_def read_num_def itoa_def read_frac_def read_exp_def)
qed

lemma wf_jint [simp]: "wf_json (jint n)" and jdepth_jint [simp]: "jdepth (jint n) = 0"
  by (simp_all add: jint_def)

subsection \<open>UTF-8 of texts that are put together\<close>

lemma rune_len_append: "rune_len s \<noteq> 0 \<Longrightarrow> rune_len (s @ t) = rune_len s \<and> rune_len s \<le> length s"
  using rune_len_cases [of s] by fastforce

lemma valid_utf8_append [simp]: "valid_utf8 s \<Longrightarrow> valid_utf8 (s @ t) = valid_utf8 t"
proof (induction s rule: valid_utf8.induct)
  case (2 c s)
  show ?case
  proof (cases "is_ascii c")
    case True
    then show ?thesis using 2 by simp
  next
    case False
    then have r: "rune_len (c # s) \<noteq> 0" and v: "valid_utf8 (drop (rune_len (c # s)) (c # s))"
      using "2.prems" by (auto split: if_splits)
    have a: "rune_len (c # s @ t) = rune_len (c # s)" "rune_len (c # s) \<le> length (c # s)"
      using rune_len_append [OF r, of t] by simp_all
    have "valid_utf8 ((c # s) @ t) = valid_utf8 (drop (rune_len (c # s)) (c # s @ t))"
      using False r a(1) by (simp del: rune_len.simps drop_Cons')
    also have "drop (rune_len (c # s)) (c # s @ t) = drop (rune_len (c # s)) (c # s) @ t"
      using a(2) drop_append [of "rune_len (c # s)" "c # s" t] by simp
    finally show ?thesis using "2.IH"(2) [OF False r v] by simp
  qed
qed simp

lemma is_ascii_Char [simp]: "is_ascii (Char b0 b1 b2 b3 b4 b5 b6 b7) \<longleftrightarrow> \<not> b7"
  by (cases b0; cases b1; cases b2; cases b3; cases b4; cases b5; cases b6; cases b7; simp add: is_ascii_def)

lemma valid_utf8_ascii [simp]: "is_ascii c \<Longrightarrow> valid_utf8 (c # s) = valid_utf8 s"
  by simp

declare valid_utf8.simps(2) [simp del]

lemma ascii_utf8: "\<forall>c \<in> set s. is_ascii c \<Longrightarrow> valid_utf8 s"
  by (induction s) simp_all

lemma is_ascii_digit: "is_digit c \<Longrightarrow> is_ascii c"
  by (auto simp: is_digit_def is_ascii_def)

lemma valid_utf8_itoa [simp]: "valid_utf8 (itoa n)"
proof (rule ascii_utf8, rule ballI)
  fix c assume "c \<in> set (itoa n)"
  from itoa_chars [OF this] show "is_ascii c" by (auto simp: is_ascii_digit)
qed

lemma valid_utf8_dec_str: "0 \<le> n \<Longrightarrow> valid_utf8 (dec_str n)"
  by (rule ascii_utf8) (simp add: dec_str_digits is_ascii_digit)

end
