(* ===== verification/App_Errors.thy ===== *)
theory App_Errors
  imports Go_Json
begin

text \<open>
  The application errors of \<open>internal/errors/errors.go\<close> and their translation to HTTP
  answers in \<open>internal/utils/error.go\<close>.

  A Go \<open>error\<close> is a value of \<open>gerror\<close>: a plain text (\<open>errors.New\<close>,
  \<open>fmt.Errorf\<close> without \<open>%w\<close>), a text in front of a wrapped error (\<open>fmt.Errorf\<close>
  ending in \<open>%w\<close>), an \<open>AppError\<close>, a \<open>syscall.Errno\<close>, an error of the
  packages \<open>net\<close> and \<open>context\<close> that implements \<open>net.Error\<close>, or
  \<open>os.ErrDeadlineExceeded\<close>. Log output is not modelled.
\<close>

subsection \<open>Error values\<close>

datatype ErrorType =
    ErrorTypeValidation
  | ErrorTypeNotFound
  | ErrorTypeUnauthorized
  | ErrorTypeSNMP
  | ErrorTypeRedis
  | ErrorTypeConfig
  | ErrorTypeInternal
  | ErrorTypeServiceUnavailable
  | ErrorTypeOther bytes

fun type_string :: "ErrorType \<Rightarrow> bytes" where
  "type_string ErrorTypeValidation = ''VALIDATION_ERROR''"
| "type_string ErrorTypeNotFound = ''NOT_FOUND''"
| "type_string ErrorTypeUnauthorized = ''UNAUTHORIZED''"
| "type_string ErrorTypeSNMP = ''SNMP_ERROR''"
| "type_string ErrorTypeRedis = ''REDIS_ERROR''"
| "type_string ErrorTypeConfig = ''CONFIG_ERROR''"
| "type_string ErrorTypeInternal = ''INTERNAL_ERROR''"
| "type_string ErrorTypeServiceUnavailable = ''SERVICE_UNAVAILABLE''"
| "type_string (ErrorTypeOther s) = s"

datatype errno =
    ECONNREFUSED | ECONNRESET | EHOSTUNREACH | ENETUNREACH | ETIMEDOUT | EPIPE
  | EOther bytes bool

fun errno_text :: "errno \<Rightarrow> bytes" where
  "errno_text ECONNREFUSED = ''connection refused''"
| "errno_text ECONNRESET = ''connection reset by peer''"
| "errno_text EHOSTUNREACH = ''no route to host''"
| "errno_text ENETUNREACH = ''network is unreachable''"
| "errno_text ETIMEDOUT = ''connection timed out''"
| "errno_text EPIPE = ''broken pipe''"
| "errno_text (EOther t _) = t"

fun errno_timeout :: "errno \<Rightarrow> bool" where
  "errno_timeout ETIMEDOUT = True"
| "errno_timeout (EOther _ b) = b"
| "errno_timeout _ = False"

datatype gerror =
    Plain bytes
  | Wrap bytes gerror
  | App ErrorType bytes "gerror option" "(bytes \<times> json) list"
  | Errno errno
  | NetErr bytes bool "gerror option"
  | DeadlineExceeded

text \<open>The \<open>Error()\<close> method; for an \<open>AppError\<close> it is \<open>AppError.Error\<close>.\<close>

fun err_text :: "gerror \<Rightarrow> bytes" where
  "err_text (Plain t) = t"
| "err_text (Wrap t e) = t @ err_text e"
| "err_text (App ty msg None det) = type_string ty @ '': '' @ msg"
| "err_text (App ty msg (Some e) det) =
     type_string ty @ '': '' @ msg @ '' (caused by: '' @ err_text e @ '')''"
| "err_text (Errno n) = errno_text n"
| "err_text (NetErr t _ _) = t"
| "err_text DeadlineExceeded = ''i/o timeout''"

text \<open>The chain of errors that \<open>errors.Is\<close> and \<open>errors.As\<close> visit by \<open>Unwrap\<close>.\<close>

fun chain :: "gerror \<Rightarrow> gerror list" where
  "chain (Wrap t e) = Wrap t e # chain e"
| "chain (App ty msg (Some e) det) = App ty msg (Some e) det # chain e"
| "chain (NetErr t b (Some e)) = NetErr t b (Some e) # chain e"
| "chain e = [e]"

fun is_app :: "gerror \<Rightarrow> bool" where
  "is_app (App _ _ _ _) = True"
| "is_app _ = False"

definition as_app :: "gerror \<Rightarrow> gerror option" where
  "as_app e = find is_app (chain e)"

text \<open>\<open>net.Error\<close>: the timeout flag of an error that has one.\<close>

fun net_timeout :: "gerror \<Rightarrow> bool option" where
  "net_timeout (Errno n) = Some (errno_timeout n)"
| "net_timeout (NetErr _ b _) = Some b"
| "net_timeout DeadlineExceeded = Some True"
| "net_timeout _ = None"

fun first_some :: "('a \<Rightarrow> 'b option) \<Rightarrow> 'a list \<Rightarrow> 'b option" where
  "first_some f [] = None"
| "first_some f (x # xs) = (case f x of Some y \<Rightarrow> Some y | None \<Rightarrow> first_some f xs)"

subsection \<open>Constructors\<close>

definition NewValidationError :: "bytes \<Rightarrow> (bytes \<times> json) list \<Rightarrow> gerror" where
  "NewValidationError message details = App ErrorTypeValidation message None details"

definition NewNotFoundError :: "bytes \<Rightarrow> json \<Rightarrow> gerror" where
  "NewNotFoundError resource identifier =
     App ErrorTypeNotFound (resource @ '' not found'') None [(''identifier'', identifier)]"

definition NewUnauthorizedError :: "bytes \<Rightarrow> gerror" where
  "NewUnauthorizedError message = App ErrorTypeUnauthorized message None []"

definition NewSNMPError :: "bytes \<Rightarrow> gerror \<Rightarrow> gerror" where
  "NewSNMPError operation err = App ErrorTypeSNMP (''SNMP '' @ operation @ '' failed'') (Some err) []"

definition NewRedisError :: "bytes \<Rightarrow> gerror \<Rightarrow> gerror" where
  "NewRedisError operation err = App ErrorTypeRedis (''Redis '' @ operation @ '' failed'') (Some err) []"

definition NewConfigError :: "bytes \<Rightarrow> gerror \<Rightarrow> gerror" where
  "NewConfigError message err = App ErrorTypeConfig message (Some err) []"

definition NewInternalError :: "bytes \<Rightarrow> gerror \<Rightarrow> gerror" where
  "NewInternalError message err = App ErrorTypeInternal message (Some err) []"

subsection \<open>Reachability of the device\<close>

definition deviceUnreachableSubstrings :: "bytes list" where
  "deviceUnreachableSubstrings =
     [''connection refused'', ''connection reset'', ''connection timed out'', ''i/o timeout'',
      ''request timeout'', ''timeout'', ''no response'', ''read udp'', ''write udp'', ''recvfrom'',
      ''sendto'', ''reading from socket'', ''writing to socket'', ''network is unreachable'',
      ''host is unreachable'', ''no route to host'', ''broken pipe'']"

definition unreachable_errnos :: "errno list" where
  "unreachable_errnos = [ECONNREFUSED, ECONNRESET, EHOSTUNREACH, ENETUNREACH, ETIMEDOUT, EPIPE]"

definition IsDeviceUnreachable :: "gerror option \<Rightarrow> bool" where
  "IsDeviceUnreachable err = (case err of
     None \<Rightarrow> False
   | Some e \<Rightarrow>
       if first_some net_timeout (chain e) = Some True then True
       else if DeadlineExceeded \<in> set (chain e) then True
       else if list_ex (\<lambda>n. Errno n \<in> set (chain e)) unreachable_errnos then True
       else list_ex (contains (to_lower (err_text e))) deviceUnreachableSubstrings)"

subsection \<open>HTTP answers\<close>

record ErrorResponse =
  Code :: int
  Status :: bytes
  ErrorCode :: bytes
  Data :: json
  RequestID :: bytes

text \<open>An HTTP answer: status code and the JSON value of its body.\<close>

record reply =
  rp_status :: int
  rp_body :: json

definition SendJSONResponse :: "int \<Rightarrow> json \<Rightarrow> reply" where
  "SendJSONResponse statusCode response = \<lparr>rp_status = statusCode, rp_body = response\<rparr>"

definition json_ErrorResponse :: "ErrorResponse \<Rightarrow> json" where
  "json_ErrorResponse r = JObj
     ([(''code'', jint (Code r)), (''status'', JStr (Status r)), (''error_code'', JStr (ErrorCode r)),
       (''data'', Data r)]
      @ (if RequestID r = [] then [] else [(''request_id'', JStr (RequestID r))]))"

definition buildErrorResponse :: "int \<Rightarrow> bytes \<Rightarrow> bytes \<Rightarrow> gerror option \<Rightarrow> ErrorResponse" where
  "buildErrorResponse code status requestID err =
     (let resp = \<lparr>Code = code, Status = status, ErrorCode = type_string ErrorTypeInternal,
                  Data = JNull, RequestID = requestID\<rparr>
      in case Option.bind err as_app of
        Some (App ty message cause details) \<Rightarrow>
          resp\<lparr>ErrorCode := type_string ty,
               Data := (if details \<noteq> []
                        then json_of_map [(''message'', JStr message), (''details'', json_of_map details)]
                        else JStr message)\<rparr>
      | _ \<Rightarrow> (case err of None \<Rightarrow> resp | Some e \<Rightarrow> resp\<lparr>Data := JStr (err_text e)\<rparr>))"

definition writeError :: "int \<Rightarrow> bytes \<Rightarrow> bytes \<Rightarrow> gerror option \<Rightarrow> reply" where
  "writeError code status requestID err =
     SendJSONResponse code (json_ErrorResponse (buildErrorResponse code status requestID err))"

definition writeErrorWithCode :: "int \<Rightarrow> bytes \<Rightarrow> bytes \<Rightarrow> bytes \<Rightarrow> gerror option \<Rightarrow> reply" where
  "writeErrorWithCode code status errorCode requestID err =
     (let resp = buildErrorResponse code status requestID err;
          resp = (if errorCode \<noteq> [] then resp\<lparr>ErrorCode := errorCode\<rparr> else resp)
      in SendJSONResponse code (json_ErrorResponse resp))"

definition HandleError :: "bytes \<Rightarrow> gerror option \<Rightarrow> reply" where
  "HandleError requestID err = (case Option.bind err as_app of
     Some (App ty message cause details) \<Rightarrow>
       (let appErr = Some (App ty message cause details) in
        case ty of
          ErrorTypeValidation \<Rightarrow> writeError 400 ''Bad Request'' requestID appErr
        | ErrorTypeNotFound \<Rightarrow> writeError 404 ''Not Found'' requestID appErr
        | ErrorTypeUnauthorized \<Rightarrow> writeError 401 ''Unauthorized'' requestID appErr
        | ErrorTypeSNMP \<Rightarrow>
            (if IsDeviceUnreachable cause
             then writeErrorWithCode 503 ''Service Unavailable''
                    (type_string ErrorTypeServiceUnavailable) requestID appErr
             else writeError 500 ''Internal Server Error'' requestID appErr)
        | ErrorTypeServiceUnavailable \<Rightarrow> writeError 503 ''Service Unavailable'' requestID appErr
        | _ \<Rightarrow> writeError 500 ''Internal Server Error'' requestID appErr)
   | _ \<Rightarrow> writeError 500 ''Internal Server Error'' requestID err)"

definition ErrorBadRequest :: "bytes \<Rightarrow> gerror option \<Rightarrow> reply" where
  "ErrorBadRequest requestID err = writeError 400 ''Bad Request'' requestID err"

definition ErrorInternalServerError :: "bytes \<Rightarrow> gerror option \<Rightarrow> reply" where
  "ErrorInternalServerError requestID err = writeError 500 ''Internal Server Error'' requestID err"

definition ErrorNotFound :: "bytes \<Rightarrow> gerror option \<Rightarrow> reply" where
  "ErrorNotFound requestID err = writeError 404 ''Not Found'' requestID err"

definition ErrorUnauthorized :: "bytes \<Rightarrow> gerror option \<Rightarrow> reply" where
  "ErrorUnauthorized requestID err = writeError 401 ''Unauthorized'' requestID err"

text \<open>The value of a member of a JSON object, for reading an answer's body.\<close>

fun jfield :: "bytes \<Rightarrow> json \<Rightarrow> json option" where
  "jfield k (JObj ms) = map_of ms k"
| "jfield k _ = None"

subsection \<open>Lemmas\<close>

lemma chain_hd: "\<exists>es. chain e = e # es"
  by (cases e rule: chain.cases) auto

lemma chain_self [simp, intro]: "e \<in> set (chain e)"
  using chain_hd [of e] by auto

lemma as_app_App [simp]: "as_app (App ty msg cause det) = Some (App ty msg cause det)"
  using chain_hd [of "App ty msg cause det"] by (auto simp: as_app_def)

lemma as_app_Wrap [simp]: "as_app (Wrap t e) = as_app e"
  by (simp add: as_app_def)

lemma as_app_is_app: "as_app e = Some a \<Longrightarrow> is_app a"
  by (auto simp: as_app_def find_Some_iff)

lemma as_app_cases:
  assumes "as_app e = Some a"
  obtains ty msg cause det where "a = App ty msg cause det"
  using as_app_is_app [OF assms] by (cases a) auto

lemma status_writeError [simp]: "rp_status (writeError c s r e) = c"
  by (simp add: writeError_def SendJSONResponse_def)

lemma status_writeErrorWithCode [simp]: "rp_status (writeErrorWithCode c s ec r e) = c"
  by (simp add: writeErrorWithCode_def SendJSONResponse_def Let_def)

lemma code_writeError_App [simp]:
  "jfield ''error_code'' (rp_body (writeError c s r (Some (App ty msg cause det)))) = Some (JStr (type_string ty))"
  by (simp add: writeError_def SendJSONResponse_def json_ErrorResponse_def buildErrorResponse_def Let_def)

lemma code_writeErrorWithCode [simp]:
  "ec \<noteq> [] \<Longrightarrow> jfield ''error_code'' (rp_body (writeErrorWithCode c s ec r e)) = Some (JStr ec)"
  by (simp add: writeErrorWithCode_def SendJSONResponse_def json_ErrorResponse_def Let_def)

lemma code_field_body: "jfield ''code'' (rp_body (writeError c s r e)) = Some (jint c)"
  by (simp add: writeError_def SendJSONResponse_def json_ErrorResponse_def buildErrorResponse_def Let_def
      split: option.splits gerror.splits)

lemma unreachable_errno:
  "\<lbrakk>Errno n \<in> set (chain e); n \<in> set unreachable_errnos\<rbrakk> \<Longrightarrow> IsDeviceUnreachable (Some e)"
  by (auto simp: IsDeviceUnreachable_def list_ex_iff)

lemma unreachable_deadline: "DeadlineExceeded \<in> set (chain e) \<Longrightarrow> IsDeviceUnreachable (Some e)"
  by (simp add: IsDeviceUnreachable_def)

lemma unreachable_text:
  "\<lbrakk>m \<in> set deviceUnreachableSubstrings; contains (to_lower (err_text e)) m\<rbrakk> \<Longrightarrow> IsDeviceUnreachable (Some e)"
  by (auto simp: IsDeviceUnreachable_def list_ex_iff)

lemma contains_append_right: "contains t m \<Longrightarrow> contains (s @ t) m"
  by (auto simp: contains_iff) (metis append.assoc)

text \<open>An unreachable cause stays one below any number of \<open>fmt.Errorf("...: %w")\<close>.\<close>

fun wrap_all :: "bytes list \<Rightarrow> gerror \<Rightarrow> gerror" where
  "wrap_all [] e = e"
| "wrap_all (t # ts) e = Wrap t (wrap_all ts e)"

lemma unreachable_Wrap: "IsDeviceUnreachable (Some e) \<Longrightarrow> IsDeviceUnreachable (Some (Wrap t e))"
  by (auto simp: IsDeviceUnreachable_def list_ex_iff to_lower_def split: if_splits)
    (blast intro: contains_append_right)

lemma unreachable_wrap_all: "IsDeviceUnreachable (Some e) \<Longrightarrow> IsDeviceUnreachable (Some (wrap_all ts e))"
  by (induction ts) (auto intro: unreachable_Wrap)

lemma as_app_wrap_all [simp]: "as_app (wrap_all ts e) = as_app e"
  by (induction ts) auto

subsection \<open>What a client sees\<close>



end
