(* ===== verification/Oid_Generator.thy ===== *)
theory Oid_Generator
  imports App_Errors
begin

text \<open>
  \<open>config/oid_generator.go\<close>: the object identifiers of a ZTE C320/C300 for one physical
  slot and PON port, the map of all of them for a device, and the lookup and the check of
  that map in \<open>config/config.go\<close>.
\<close>

subsection \<open>Constants\<close>

definition BaseOID1 :: bytes where "BaseOID1 = ''.1.3.6.1.4.1.3902.1082''"
definition BaseOID2 :: bytes where "BaseOID2 = ''.1.3.6.1.4.1.3902.1012''"
definition OnuIDNamePrefix :: bytes where "OnuIDNamePrefix = ''.500.10.2.3.3.1.2''"
definition OnuTypePrefix :: bytes where "OnuTypePrefix = ''.3.50.11.2.1.17''"
definition OnuSerialNumberPrefix :: bytes where "OnuSerialNumberPrefix = ''.500.10.2.3.3.1.18''"
definition OnuRxPowerPrefix :: bytes where "OnuRxPowerPrefix = ''.500.20.2.2.2.1.10''"
definition OnuTxPowerPrefix :: bytes where "OnuTxPowerPrefix = ''.3.50.12.1.1.14''"
definition OnuStatusIDPrefix :: bytes where "OnuStatusIDPrefix = ''.500.10.2.3.8.1.4''"
definition OnuIPAddressPrefix :: bytes where "OnuIPAddressPrefix = ''.3.50.16.1.1.10''"
definition OnuDescriptionPrefix :: bytes where "OnuDescriptionPrefix = ''.500.10.2.3.3.1.3''"
definition OnuLastOnlineTimePrefix :: bytes where "OnuLastOnlineTimePrefix = ''.500.10.2.3.8.1.5''"
definition OnuLastOfflineTimePrefix :: bytes where "OnuLastOfflineTimePrefix = ''.500.10.2.3.8.1.6''"
definition OnuLastOfflineReasonPrefix :: bytes where "OnuLastOfflineReasonPrefix = ''.500.10.2.3.8.1.7''"
definition OnuGponOpticalDistancePrefix :: bytes where "OnuGponOpticalDistancePrefix = ''.500.10.2.3.10.1.2''"

definition OnuIDIfIndexBase :: int where "OnuIDIfIndexBase = 285278208"
definition OnuIDSlotStride :: int where "OnuIDSlotStride = 256"
definition OnuTypeIfIndexBase :: int where "OnuTypeIfIndexBase = 268435456"
definition OnuTypeSlotStride :: int where "OnuTypeSlotStride = 65536"
definition OnuIDIncrement :: int where "OnuIDIncrement = 1"
definition OnuTypeIncrement :: int where "OnuTypeIncrement = 256"
definition MaxBoardID :: int where "MaxBoardID = 30"
definition MaxPonID :: int where "MaxPonID = 16"

definition OidIfName :: bytes where "OidIfName = ''1.3.6.1.2.1.31.1.1.1.1''"
definition OidIfAdminStatus :: bytes where "OidIfAdminStatus = ''1.3.6.1.2.1.2.2.1.7''"
definition OidIfOperStatus :: bytes where "OidIfOperStatus = ''1.3.6.1.2.1.2.2.1.8''"
definition OidIfHighSpeed :: bytes where "OidIfHighSpeed = ''1.3.6.1.2.1.31.1.1.1.15''"
definition OidEntPhysicalDescr :: bytes where "OidEntPhysicalDescr = ''1.3.6.1.2.1.47.1.1.1.1.2''"
definition OidEntPhysicalClass :: bytes where "OidEntPhysicalClass = ''1.3.6.1.2.1.47.1.1.1.1.5''"

definition DefaultBoards :: "int list" where "DefaultBoards = [1, 2]"

named_theorems oid_consts "the numbers of the ifIndex encoding"

lemmas [oid_consts] = OnuIDIfIndexBase_def OnuIDSlotStride_def OnuTypeIfIndexBase_def
  OnuTypeSlotStride_def OnuIDIncrement_def OnuTypeIncrement_def MaxBoardID_def MaxPonID_def

subsection \<open>One slot and port\<close>

record BoardPonConfig =
  OnuIDNameOID :: bytes
  OnuTypeOID :: bytes
  OnuSerialNumberOID :: bytes
  OnuRxPowerOID :: bytes
  OnuTxPowerOID :: bytes
  OnuStatusOID :: bytes
  OnuIPAddressOID :: bytes
  OnuDescriptionOID :: bytes
  OnuLastOnlineOID :: bytes
  OnuLastOfflineOID :: bytes
  OnuLastOfflineReasonOID :: bytes
  OnuGponOpticalDistanceOID :: bytes

text \<open>A \<open>BoardPonKey\<close>: slot and PON port.\<close>

type_synonym BoardPonKey = "int \<times> int"

definition oid_join :: "bytes \<Rightarrow> int \<Rightarrow> bytes" where
  "oid_join prefix n = prefix @ ''.'' @ itoa n"

definition onu_id_suffix :: "int \<Rightarrow> int \<Rightarrow> int" where
  "onu_id_suffix boardID ponID = OnuIDIfIndexBase + boardID * OnuIDSlotStride + ponID * OnuIDIncrement"

definition onu_type_suffix :: "int \<Rightarrow> int \<Rightarrow> int" where
  "onu_type_suffix boardID ponID = OnuTypeIfIndexBase + boardID * OnuTypeSlotStride + ponID * OnuTypeIncrement"

definition GenerateBoardPonOID :: "int \<Rightarrow> int \<Rightarrow> gerror + BoardPonConfig" where
  "GenerateBoardPonOID boardID ponID =
     (if boardID < 1 \<or> boardID > MaxBoardID
      then Inl (Plain (''invalid boardID: '' @ itoa boardID @ '' (must be 1-'' @ itoa MaxBoardID @ '')''))
      else if ponID < 1 \<or> ponID > MaxPonID
      then Inl (Plain (''invalid ponID: '' @ itoa ponID @ '' (must be 1-'' @ itoa MaxPonID @ '')''))
      else
        (let onuIDSuffix = onu_id_suffix boardID ponID;
             onuTypeSuffix = onu_type_suffix boardID ponID
         in Inr \<lparr>OnuIDNameOID = oid_join OnuIDNamePrefix onuIDSuffix,
                 OnuTypeOID = oid_join OnuTypePrefix onuTypeSuffix,
                 OnuSerialNumberOID = oid_join OnuSerialNumberPrefix onuIDSuffix,
                 OnuRxPowerOID = oid_join OnuRxPowerPrefix onuIDSuffix,
                 OnuTxPowerOID = oid_join OnuTxPowerPrefix onuTypeSuffix,
                 OnuStatusOID = oid_join OnuStatusIDPrefix onuIDSuffix,
                 OnuIPAddressOID = oid_join OnuIPAddressPrefix onuTypeSuffix,
                 OnuDescriptionOID = oid_join OnuDescriptionPrefix onuIDSuffix,
                 OnuLastOnlineOID = oid_join OnuLastOnlineTimePrefix onuIDSuffix,
                 OnuLastOfflineOID = oid_join OnuLastOfflineTimePrefix onuIDSuffix,
                 OnuLastOfflineReasonOID = oid_join OnuLastOfflineReasonPrefix onuIDSuffix,
                 OnuGponOpticalDistanceOID = oid_join OnuGponOpticalDistancePrefix onuIDSuffix\<rparr>))"

definition valid_slot :: "int \<Rightarrow> bool" where
  "valid_slot b \<longleftrightarrow> 1 \<le> b \<and> b \<le> MaxBoardID"

definition valid_pon :: "int \<Rightarrow> bool" where
  "valid_pon p \<longleftrightarrow> 1 \<le> p \<and> p \<le> MaxPonID"

subsection \<open>The map of a device\<close>

text \<open>
  The inner loop over the ports \<open>pon, pon + 1, \<dots>, pons\<close> of a slot, and the outer
  \<open>for slot, pons := range boardPons\<close>, which visits the slots in the order \<open>ord\<close>.
  A slot with an impossible port count takes the count of a full card.
\<close>

definition clamp_pons :: "int \<Rightarrow> int" where
  "clamp_pons pons = (if pons < 1 \<or> pons > MaxPonID then MaxPonID else pons)"

fun fill_pons :: "int \<Rightarrow> int list \<Rightarrow> (BoardPonKey, BoardPonConfig) gomap
                  \<Rightarrow> gerror + (BoardPonKey, BoardPonConfig) gomap" where
  "fill_pons slot [] m = Inr m"
| "fill_pons slot (pon # ps) m =
     (case GenerateBoardPonOID slot pon of
        Inl e \<Rightarrow> Inl (Wrap (''board '' @ itoa slot @ '' pon '' @ itoa pon @ '': '') e)
      | Inr cfg \<Rightarrow> fill_pons slot ps (gm_set (slot, pon) cfg m))"

fun fill_slots :: "(int \<times> int) list \<Rightarrow> (BoardPonKey, BoardPonConfig) gomap
                   \<Rightarrow> gerror + (BoardPonKey, BoardPonConfig) gomap" where
  "fill_slots [] m = Inr m"
| "fill_slots ((slot, pons) # rest) m =
     (case fill_pons slot [1..clamp_pons pons] m of
        Inl e \<Rightarrow> Inl e
      | Inr m' \<Rightarrow> fill_slots rest m')"

definition default_board_pons :: "(int, int) gomap" where
  "default_board_pons = [(1, MaxPonID), (2, MaxPonID)]"

definition InitializeBoardPonMapFromSpecs ::
    "(int, int) range_ord \<Rightarrow> (int, int) gomap \<Rightarrow> gerror + (BoardPonKey, BoardPonConfig) gomap" where
  "InitializeBoardPonMapFromSpecs ord boardPons =
     (let boardPons = (if boardPons = [] then default_board_pons else boardPons)
      in fill_slots (ord boardPons) [])"

definition InitializeBoardPonMap ::
    "(int, int) range_ord \<Rightarrow> int list \<Rightarrow> int \<Rightarrow> gerror + (BoardPonKey, BoardPonConfig) gomap" where
  "InitializeBoardPonMap ord boards ponsPerBoard =
     (let boards = (if boards = [] then DefaultBoards else boards);
          ponsPerBoard = clamp_pons ponsPerBoard;
          specs = fold (\<lambda>slot m. gm_set slot ponsPerBoard m) boards []
      in InitializeBoardPonMapFromSpecs ord specs)"

text \<open>\<open>Config.GetBoardPonConfig\<close> and \<open>Config.ValidateConfig\<close> on the map and the topology.\<close>

definition GetBoardPonConfig :: "(BoardPonKey, BoardPonConfig) gomap \<Rightarrow> int \<Rightarrow> int \<Rightarrow> gerror + BoardPonConfig" where
  "GetBoardPonConfig m boardID ponID = (case gm_get m (boardID, ponID) of
     None \<Rightarrow> Inl (Plain (''config not found for board '' @ itoa boardID @ '', pon '' @ itoa ponID))
   | Some cfg \<Rightarrow> Inr cfg)"

fun check_pons :: "(BoardPonKey, BoardPonConfig) gomap \<Rightarrow> int \<Rightarrow> int list \<Rightarrow> gerror option" where
  "check_pons m slot [] = None"
| "check_pons m slot (ponID # ps) =
     (case gm_get m (slot, ponID) of
        None \<Rightarrow> Some (Plain (''missing configuration for Board'' @ itoa slot @ ''Pon'' @ itoa ponID))
      | Some _ \<Rightarrow> check_pons m slot ps)"

fun check_slots :: "(BoardPonKey, BoardPonConfig) gomap \<Rightarrow> (int \<times> int) list \<Rightarrow> gerror option" where
  "check_slots m [] = None"
| "check_slots m ((slot, pons) # rest) =
     (case check_pons m slot [1..clamp_pons pons] of
        Some e \<Rightarrow> Some e
      | None \<Rightarrow> check_slots m rest)"

definition ValidateConfig ::
    "(int, int) range_ord \<Rightarrow> (int, int) gomap \<Rightarrow> (BoardPonKey, BoardPonConfig) gomap \<Rightarrow> gerror option" where
  "ValidateConfig ord boardPons m =
     (let boardPons = (if boardPons = [] then default_board_pons else boardPons)
      in check_slots m (ord boardPons))"

subsection \<open>Identifiers of one slot and port\<close>

lemma GenerateBoardPonOID_Inr_iff:
  "(\<exists>cfg. GenerateBoardPonOID b p = Inr cfg) \<longleftrightarrow> valid_slot b \<and> valid_pon p"
  by (auto simp: GenerateBoardPonOID_def valid_slot_def valid_pon_def Let_def)

definition bp_cfg :: "BoardPonKey \<Rightarrow> BoardPonConfig" where
  "bp_cfg k = projr (GenerateBoardPonOID (fst k) (snd k))"

lemma GenerateBoardPonOID_valid:
  "\<lbrakk>valid_slot b; valid_pon p\<rbrakk> \<Longrightarrow> GenerateBoardPonOID b p = Inr (bp_cfg (b, p))"
  by (auto simp: GenerateBoardPonOID_def valid_slot_def valid_pon_def bp_cfg_def Let_def)

lemma GenerateBoardPonOID_bad_slot: "\<not> valid_slot b \<Longrightarrow> \<exists>e. GenerateBoardPonOID b p = Inl e"
  by (auto simp: GenerateBoardPonOID_def valid_slot_def)

lemma bp_cfg_fields:
  assumes "valid_slot b" "valid_pon p"
  shows "OnuIDNameOID (bp_cfg (b, p)) = oid_join OnuIDNamePrefix (onu_id_suffix b p)"
    and "OnuTypeOID (bp_cfg (b, p)) = oid_join OnuTypePrefix (onu_type_suffix b p)"
    and "OnuSerialNumberOID (bp_cfg (b, p)) = oid_join OnuSerialNumberPrefix (onu_id_suffix b p)"
  using assms by (auto simp: GenerateBoardPonOID_def valid_slot_def valid_pon_def bp_cfg_def Let_def)

lemma onu_id_suffix_inj:
  "\<lbrakk>onu_id_suffix b p = onu_id_suffix b' p'; valid_pon p; valid_pon p'\<rbrakk> \<Longrightarrow> b = b' \<and> p = p'"
  by (cases b b' rule: linorder_cases) (auto simp: onu_id_suffix_def valid_pon_def oid_consts)

lemma onu_type_suffix_inj:
  "\<lbrakk>onu_type_suffix b p = onu_type_suffix b' p'; valid_pon p; valid_pon p'\<rbrakk> \<Longrightarrow> b = b' \<and> p = p'"
  by (cases b b' rule: linorder_cases) (auto simp: onu_type_suffix_def valid_pon_def oid_consts)

lemma oid_component_unique:
  assumes "itoa m @ ''.'' @ r = itoa n @ ''.'' @ q"
  shows "m = n"
proof -
  have "split_on CHR ''.'' (itoa m @ CHR ''.'' # r) = split_on CHR ''.'' (itoa n @ CHR ''.'' # q)"
    using assms by simp
  then show ?thesis by (simp add: split_on_append)
qed

lemma oid_join_subtree_unique:
  assumes "has_prefix oid (oid_join prefix m @ ''.'')" and "has_prefix oid (oid_join prefix n @ ''.'')"
  shows "m = n"
proof -
  obtain r where "oid = (oid_join prefix m @ ''.'') @ r" using assms(1) unfolding has_prefix_iff ..
  moreover obtain q where "oid = (oid_join prefix n @ ''.'') @ q" using assms(2) unfolding has_prefix_iff ..
  ultimately have "itoa m @ ''.'' @ r = itoa n @ ''.'' @ q"
    by (simp add: oid_join_def)
  then show ?thesis by (rule oid_component_unique)
qed

subsection \<open>The map of all slots and ports\<close>

lemma clamp_pons_range: "1 \<le> clamp_pons n \<and> clamp_pons n \<le> MaxPonID"
  by (simp add: clamp_pons_def MaxPonID_def)

lemma fill_pons_valid:
  "\<lbrakk>valid_slot slot; \<forall>p \<in> set ps. valid_pon p\<rbrakk> \<Longrightarrow>
   \<exists>m'. fill_pons slot ps m = Inr m' \<and> (gm_wf m \<longrightarrow> gm_wf m') \<and>
     (\<forall>k. gm_get m' k = (if fst k = slot \<and> snd k \<in> set ps then Some (bp_cfg k) else gm_get m k))"
proof (induction ps arbitrary: m)
  case (Cons p ps)
  then obtain m' where "fill_pons slot ps (gm_set (slot, p) (bp_cfg (slot, p)) m) = Inr m'"
    and "gm_wf m \<longrightarrow> gm_wf m'"
    and "\<forall>k. gm_get m' k = (if fst k = slot \<and> snd k \<in> set ps then Some (bp_cfg k)
                             else gm_get (gm_set (slot, p) (bp_cfg (slot, p)) m) k)"
    using gm_wf_set [of m "(slot, p)" "bp_cfg (slot, p)"] by fastforce
  with Cons.prems show ?case
    by (auto simp: GenerateBoardPonOID_valid map_simps)
qed simp

lemma clamp_valid: "p \<in> set [1..clamp_pons n] \<Longrightarrow> valid_pon p"
  using clamp_pons_range [of n] by (auto simp: valid_pon_def)

lemma fill_slots_valid:
  "\<lbrakk>\<forall>s \<in> fst ` set bp. valid_slot s; gm_wf bp\<rbrakk> \<Longrightarrow>
   \<exists>m'. fill_slots bp m = Inr m' \<and> (gm_wf m \<longrightarrow> gm_wf m') \<and>
     (\<forall>k. gm_get m' k = (case gm_get bp (fst k) of
                            None \<Rightarrow> gm_get m k
                          | Some n \<Rightarrow> if 1 \<le> snd k \<and> snd k \<le> clamp_pons n then Some (bp_cfg k) else gm_get m k))"
proof (induction bp arbitrary: m)
  case (Cons e bp)
  obtain s n where e: "e = (s, n)" by (cases e)
  from Cons.prems e obtain m1 where m1: "fill_pons s [1..clamp_pons n] m = Inr m1" "gm_wf m \<longrightarrow> gm_wf m1"
    "\<forall>k. gm_get m1 k = (if fst k = s \<and> snd k \<in> set [1..clamp_pons n] then Some (bp_cfg k) else gm_get m k)"
    using fill_pons_valid [of s "[1..clamp_pons n]" m] clamp_valid [of _ n] by auto
  obtain m2 where m2: "fill_slots bp m1 = Inr m2" "gm_wf m1 \<longrightarrow> gm_wf m2"
    "\<forall>k. gm_get m2 k = (case gm_get bp (fst k) of None \<Rightarrow> gm_get m1 k
        | Some n \<Rightarrow> if 1 \<le> snd k \<and> snd k \<le> clamp_pons n then Some (bp_cfg k) else gm_get m1 k)"
    using Cons.IH [of m1] Cons.prems by auto
  have fresh: "gm_get bp s = None" using Cons.prems e by (simp add: map_of_eq_None_iff)
  show ?case
    using m1 m2 fresh by (auto simp: e split: option.splits)
qed simp

lemma fill_pons_invalid: "\<lbrakk>\<not> valid_slot slot; ps \<noteq> []\<rbrakk> \<Longrightarrow> \<exists>e. fill_pons slot ps m = Inl e"
  using GenerateBoardPonOID_bad_slot [of slot "hd ps"] by (cases ps) auto

lemma upto_clamp_nonempty: "[1..clamp_pons n] \<noteq> []"
  using clamp_pons_range [of n] by simp

lemma fill_slots_invalid:
  "\<exists>s \<in> fst ` set bp. \<not> valid_slot s \<Longrightarrow> \<exists>e. fill_slots bp m = Inl e"
proof (induction bp arbitrary: m)
  case (Cons e bp)
  then show ?case
    using fill_pons_invalid [OF _ upto_clamp_nonempty, of "fst e" "snd e" m]
    by (cases e) (auto split: sum.splits)
qed simp

lemma default_board_pons_valid:
  "gm_wf default_board_pons" "s \<in> fst ` set default_board_pons \<Longrightarrow> valid_slot s"
  by (auto simp: default_board_pons_def valid_slot_def oid_consts)

text \<open>The topology that a device with the configured \<open>boardPons\<close> has.\<close>

definition topology :: "(int, int) gomap \<Rightarrow> (int, int) gomap" where
  "topology boardPons = (if boardPons = [] then default_board_pons else boardPons)"

definition in_topology :: "(int, int) gomap \<Rightarrow> int \<Rightarrow> int \<Rightarrow> bool" where
  "in_topology boardPons s p =
     (case gm_get (topology boardPons) s of None \<Rightarrow> False | Some n \<Rightarrow> 1 \<le> p \<and> p \<le> clamp_pons n)"

lemma topology_wf: "gm_wf bp \<Longrightarrow> gm_wf (topology bp)"
  by (simp add: topology_def default_board_pons_valid)

lemma InitializeBoardPonMapFromSpecs_Inr:
  assumes ord: "range_order ord" and wf: "gm_wf boardPons"
    and valid: "\<forall>s \<in> fst ` set (topology boardPons). valid_slot s"
  shows "\<exists>m. InitializeBoardPonMapFromSpecs ord boardPons = Inr m \<and> gm_wf m \<and>
    (\<forall>s p. gm_get m (s, p) = (if in_topology boardPons s p then Some (bp_cfg (s, p)) else None))"
proof -
  let ?bp = "ord (topology boardPons)"
  have wf': "gm_wf ?bp"
    using gm_wf_perm [OF range_order_mset [OF ord] topology_wf [OF wf]] by simp
  have get: "gm_get ?bp = gm_get (topology boardPons)"
    using range_order_get [OF ord topology_wf [OF wf]] by simp
  have "\<forall>s \<in> fst ` set ?bp. valid_slot s"
    using valid range_order_set [OF ord] by simp
  then obtain m where "fill_slots ?bp [] = Inr m" "gm_wf m"
    "\<forall>k. gm_get m k = (case gm_get ?bp (fst k) of None \<Rightarrow> gm_get [] k
        | Some n \<Rightarrow> if 1 \<le> snd k \<and> snd k \<le> clamp_pons n then Some (bp_cfg k) else gm_get [] k)"
    using fill_slots_valid [OF _ wf', of "[]"] by auto
  then show ?thesis
    by (auto simp: InitializeBoardPonMapFromSpecs_def topology_def [symmetric] in_topology_def get
        split: option.splits)
qed

lemma InitializeBoardPonMapFromSpecs_Inl:
  assumes ord: "range_order ord" and bad: "\<exists>s \<in> fst ` set (topology boardPons). \<not> valid_slot s"
  shows "\<exists>e. InitializeBoardPonMapFromSpecs ord boardPons = Inl e"
  using fill_slots_invalid [of "ord (topology boardPons)" "[]"] bad range_order_set [OF ord]
  by (auto simp: InitializeBoardPonMapFromSpecs_def topology_def [symmetric])

lemma in_topology_valid:
  "\<lbrakk>in_topology bp s p; \<forall>s \<in> fst ` set (topology bp). valid_slot s\<rbrakk> \<Longrightarrow> valid_slot s \<and> valid_pon p"
  using clamp_pons_range
  by (auto simp: in_topology_def valid_pon_def image_iff split: option.splits dest!: map_of_SomeD)
     (metis order.trans fst_conv)+

lemma check_pons_None: "check_pons m s ps = None \<longleftrightarrow> (\<forall>p \<in> set ps. gm_get m (s, p) \<noteq> None)"
  by (induction ps) (auto split: option.splits)

lemma check_slots_None:
  "check_slots m bp = None \<longleftrightarrow>
   (\<forall>e \<in> set bp. \<forall>p. 1 \<le> p \<and> p \<le> clamp_pons (snd e) \<longrightarrow> gm_get m (fst e, p) \<noteq> None)"
proof (induction bp)
  case (Cons e bp)
  obtain s n where e: "e = (s, n)" by (cases e)
  have "check_slots m (e # bp) = None \<longleftrightarrow> check_pons m s [1..clamp_pons n] = None \<and> check_slots m bp = None"
    by (simp add: e split: option.splits)
  then show ?case
    unfolding Cons.IH check_pons_None by (auto simp: e)
qed simp

lemma ValidateConfig_iff:
  assumes "range_order ord" "gm_wf boardPons"
  shows "ValidateConfig ord boardPons m = None \<longleftrightarrow>
    (\<forall>s p. in_topology boardPons s p \<longrightarrow> gm_get m (s, p) \<noteq> None)"
proof -
  have "(\<forall>e \<in> set (topology boardPons). \<forall>p. 1 \<le> p \<and> p \<le> clamp_pons (snd e) \<longrightarrow> gm_get m (fst e, p) \<noteq> None)
    \<longleftrightarrow> (\<forall>s n p. gm_get (topology boardPons) s = Some n \<and> 1 \<le> p \<and> p \<le> clamp_pons n \<longrightarrow> gm_get m (s, p) \<noteq> None)"
    using map_of_eq_Some_iff [OF topology_wf [OF assms(2)]] by auto
  then show ?thesis
    using assms(1)
    by (auto simp: ValidateConfig_def topology_def [symmetric] check_slots_None range_order_set
        in_topology_def split: option.splits)
qed

subsection \<open>No two ports share a subtree\<close>



end
