(* ===== verification/Go_Float.thy ===== *)
theory Go_Float
  imports Complex_Main Go_Strings
begin

text \<open>
  Go's \<open>float64\<close>: a finite value is the rational number it stands for (the two zeros are
  one value: the source never tells them apart), and every operation rounds its exact
  result to the nearest value with 53 bits, ties to even.
\<close>

datatype f64 = NaN | Inf bool | Fin rat

subsection \<open>Rounding\<close>

function ilog2 :: "int \<Rightarrow> int" where
  "ilog2 n = (if n < 2 then 0 else 1 + ilog2 (n div 2))"
  by pat_completeness auto
termination
  by (relation "measure nat") auto

declare ilog2.simps [simp del]

definition flog2 :: "rat \<Rightarrow> int" where
  "flog2 x = (case quotient_of x of (a, b) \<Rightarrow>
     let k = ilog2 a - ilog2 b in if 2 powi k \<le> x then k else k - 1)"

definition round_even :: "rat \<Rightarrow> int" where
  "round_even x =
     (let f = \<lfloor>x\<rfloor>; d = x - of_int f in
      if d < 1 / 2 then f else if d > 1 / 2 then f + 1 else if even f then f else f + 1)"

definition ulp_exp :: "rat \<Rightarrow> int" where
  "ulp_exp x = max (flog2 \<bar>x\<bar> - 52) (- 1074)"

definition fl_pack :: "rat \<Rightarrow> f64" where
  "fl_pack y = (if \<bar>y\<bar> \<ge> 2 powi 1024 then Inf (y < 0) else Fin y)"

definition round_at :: "int \<Rightarrow> rat \<Rightarrow> rat" where
  "round_at e x = of_int (round_even (x / 2 powi e)) * 2 powi e"

definition fl :: "rat \<Rightarrow> f64" where
  "fl x = (if x = 0 then Fin 0 else fl_pack (round_at (ulp_exp x) x))"

subsection \<open>Operations\<close>

fun f64_mul :: "f64 \<Rightarrow> f64 \<Rightarrow> f64" where
  "f64_mul (Fin x) (Fin y) = fl (x * y)"
| "f64_mul NaN _ = NaN"
| "f64_mul _ NaN = NaN"
| "f64_mul (Inf s) (Inf t) = Inf (s \<noteq> t)"
| "f64_mul (Inf s) (Fin y) = (if y = 0 then NaN else Inf (s \<noteq> (y < 0)))"
| "f64_mul (Fin x) (Inf t) = (if x = 0 then NaN else Inf (t \<noteq> (x < 0)))"

fun f64_neg :: "f64 \<Rightarrow> f64" where
  "f64_neg NaN = NaN"
| "f64_neg (Inf s) = Inf (\<not> s)"
| "f64_neg (Fin x) = Fin (- x)"

fun f64_add :: "f64 \<Rightarrow> f64 \<Rightarrow> f64" where
  "f64_add (Fin x) (Fin y) = fl (x + y)"
| "f64_add NaN _ = NaN"
| "f64_add _ NaN = NaN"
| "f64_add (Inf s) (Inf t) = (if s = t then Inf s else NaN)"
| "f64_add (Inf s) (Fin _) = Inf s"
| "f64_add (Fin _) (Inf t) = Inf t"

definition f64_sub :: "f64 \<Rightarrow> f64 \<Rightarrow> f64" where
  "f64_sub x y = f64_add x (f64_neg y)"

text \<open>The comparison \<open><\<close>; it is false when an operand is NaN.\<close>

fun f64_less :: "f64 \<Rightarrow> f64 \<Rightarrow> bool" where
  "f64_less NaN _ = False"
| "f64_less _ NaN = False"
| "f64_less (Fin x) (Fin y) = (x < y)"
| "f64_less (Inf s) (Inf t) = (s \<and> \<not> t)"
| "f64_less (Inf s) (Fin _) = s"
| "f64_less (Fin _) (Inf t) = (\<not> t)"

text \<open>\<open>float64(i)\<close> for an \<open>int\<close>.\<close>

definition f64_of_int :: "int \<Rightarrow> f64" where
  "f64_of_int i = fl (of_int i)"

text \<open>
  \<open>strconv.FormatFloat(x, 'f', prec, 64)\<close> and the verbs \<open>%.2f\<close>, \<open>%.1f\<close>:
  the exact value rounded to \<open>prec\<close> digits, ties to even.
\<close>

fun pad_zeros :: "nat \<Rightarrow> string \<Rightarrow> string" where
  "pad_zeros k s = replicate (k - length s) CHR ''0'' @ s"

definition dec_fixed :: "nat \<Rightarrow> int \<Rightarrow> string" where
  "dec_fixed prec n =
     dec_str (n div 10 ^ prec)
     @ (if prec = 0 then [] else CHR ''.'' # pad_zeros prec (dec_str (n mod 10 ^ prec)))"

fun format_fixed :: "nat \<Rightarrow> f64 \<Rightarrow> string" where
  "format_fixed prec NaN = ''NaN''"
| "format_fixed prec (Inf neg) = (if neg then ''-Inf'' else ''+Inf'')"
| "format_fixed prec (Fin x) =
     (if x < 0 then ''-'' else []) @ dec_fixed prec (round_even (\<bar>x\<bar> * 10 ^ prec))"

subsection \<open>The error of one rounding\<close>

lemma ilog2_bounds: "1 \<le> n \<Longrightarrow> 0 \<le> ilog2 n \<and> 2 ^ nat (ilog2 n) \<le> n \<and> n < 2 * 2 ^ nat (ilog2 n)"
proof (induction n rule: ilog2.induct)
  case (1 n)
  show ?case
  proof (cases "n < 2")
    case True
    with 1 show ?thesis by (simp add: ilog2.simps [of n])
  next
    case False
    with 1 have ih: "0 \<le> ilog2 (n div 2)" "2 ^ nat (ilog2 (n div 2)) \<le> n div 2"
      "n div 2 < 2 * 2 ^ nat (ilog2 (n div 2))" by auto
    moreover have "ilog2 n = 1 + ilog2 (n div 2)" using False by (simp add: ilog2.simps [of n])
    ultimately show ?thesis by (simp add: nat_add_distrib) linarith
  qed
qed

lemma powi_nat: "0 \<le> k \<Longrightarrow> (2::rat) powi k = of_int (2 ^ nat k)"
  by (simp add: power_int_def)

lemma ilog2_bounds_rat:
  assumes "1 \<le> n"
  shows "2 powi (ilog2 n) \<le> (of_int n :: rat)" and "(of_int n :: rat) < 2 powi (ilog2 n + 1)"
proof -
  have b: "0 \<le> ilog2 n" "2 ^ nat (ilog2 n) \<le> n" "n < 2 * 2 ^ nat (ilog2 n)"
    using ilog2_bounds [OF assms] by auto
  then show "2 powi (ilog2 n) \<le> (of_int n :: rat)"
    by (simp add: powi_nat del: of_int_power)
  have "2 powi (ilog2 n + 1) = (of_int (2 * 2 ^ nat (ilog2 n)) :: rat)"
    using b(1) by (simp add: power_int_add powi_nat)
  then show "(of_int n :: rat) < 2 powi (ilog2 n + 1)"
    using b(3) by (simp del: of_int_power of_int_mult)
qed

lemma flog2_bounds:
  assumes "0 < x"
  shows "2 powi (flog2 x) \<le> x \<and> x < 2 powi (flog2 x + 1)"
proof -
  obtain a b where q: "quotient_of x = (a, b)" by (cases "quotient_of x")
  have b: "0 < b" and x: "x = of_int a / of_int b"
    using quotient_of_denom_pos [OF q] quotient_of_div [OF q] by auto
  with assms have a: "0 < a" by (simp add: zero_less_divide_iff)
  let ?k = "ilog2 a - ilog2 b"
  have A: "2 powi (ilog2 a) \<le> (of_int a :: rat)" "(of_int a :: rat) < 2 powi (ilog2 a + 1)"
    using ilog2_bounds_rat [of a] a by auto
  have B: "2 powi (ilog2 b) \<le> (of_int b :: rat)" "(of_int b :: rat) < 2 powi (ilog2 b + 1)"
    using ilog2_bounds_rat [of b] b by auto
  have "x < 2 powi (ilog2 a + 1) / 2 powi (ilog2 b)"
    unfolding x using A B a b by (intro frac_less) auto
  then have up: "x < 2 powi (?k + 1)"
    by (simp add: power_int_diff [symmetric] algebra_simps)
  have "2 powi (ilog2 a) / 2 powi (ilog2 b + 1) < x"
    unfolding x using A B a b by (intro frac_less2) auto
  then have low: "2 powi (?k - 1) < x"
    by (simp add: power_int_diff [symmetric] algebra_simps)
  show ?thesis
    using up low by (auto simp: flog2_def q Let_def)
qed

lemma round_even_error: "\<bar>of_int (round_even x) - x\<bar> \<le> 1 / 2"
proof -
  have "of_int \<lfloor>x\<rfloor> \<le> x" "x < of_int \<lfloor>x\<rfloor> + 1" by linarith+
  then show ?thesis by (auto simp: round_even_def Let_def)
qed

lemma fl_error:
  assumes "fl x = Fin y"
  shows "\<bar>y - x\<bar> \<le> 2 powi (ulp_exp x) / 2"
proof (cases "x = 0")
  case True
  with assms show ?thesis by (simp add: fl_def)
next
  case False
  let ?u = "(2::rat) powi (ulp_exp x)"
  have y: "y = of_int (round_even (x / ?u)) * ?u"
    using assms False by (auto simp: fl_def fl_pack_def round_at_def split: if_splits)
  have u: "0 < ?u" by simp
  have "y - x = (of_int (round_even (x / ?u)) - x / ?u) * ?u"
    using u unfolding y by (simp add: left_diff_distrib)
  then have "\<bar>y - x\<bar> = \<bar>of_int (round_even (x / ?u)) - x / ?u\<bar> * ?u"
    using u by (simp add: abs_mult)
  also have "\<dots> \<le> 1 / 2 * ?u"
    using round_even_error u by (intro mult_right_mono) auto
  finally show ?thesis by simp
qed

lemma powi_mono: "m \<le> n \<Longrightarrow> (2::rat) powi m \<le> 2 powi n"
  by (rule power_int_increasing) auto

text \<open>Below \<open>2 powi n\<close> the unit in the last place is at most \<open>2 powi (n - 53)\<close>.\<close>

lemma flog2_less: "\<lbrakk>0 < x; x < 2 powi n\<rbrakk> \<Longrightarrow> flog2 x < n"
  using flog2_bounds [of x] powi_mono [of n "flog2 x"] by linarith

lemma fl_error_below:
  assumes "fl x = Fin y" and "\<bar>x\<bar> < 2 powi n" and "- 1021 \<le> n"
  shows "\<bar>y - x\<bar> \<le> 2 powi (n - 54)"
proof (cases "x = 0")
  case True
  with assms show ?thesis by (simp add: fl_def)
next
  case False
  then have "ulp_exp x \<le> n - 53"
    using flog2_less [of "\<bar>x\<bar>" n] assms(2, 3) by (simp add: ulp_exp_def)
  then have "2 powi (ulp_exp x) \<le> (2::rat) powi (n - 53)" by (rule powi_mono)
  moreover have "(2::rat) powi (n - 53) = 2 * 2 powi (n - 54)"
    using power_int_add [of "2::rat" 1 "n - 54"] by simp
  ultimately show ?thesis using fl_error [OF assms(1)] by linarith
qed

lemma fl_finite:
  assumes "\<bar>x\<bar> < 2 powi n" and "- 1021 \<le> n" and "n \<le> 1000"
  shows "\<exists>y. fl x = Fin y"
proof (cases "x = 0")
  case True
  then show ?thesis by (simp add: fl_def)
next
  case False
  let ?e = "ulp_exp x"
  let ?y = "of_int (round_even (x / 2 powi ?e)) * 2 powi ?e"
  have u: "(0::rat) < 2 powi ?e" by simp
  have e: "?e \<le> n - 53"
    using False flog2_less [of "\<bar>x\<bar>" n] assms by (simp add: ulp_exp_def)
  have "?y - x = (of_int (round_even (x / 2 powi ?e)) - x / 2 powi ?e) * 2 powi ?e"
    using u by (simp add: left_diff_distrib)
  then have "\<bar>?y - x\<bar> \<le> 1 / 2 * 2 powi ?e"
    using round_even_error [of "x / 2 powi ?e"] u by (simp add: abs_mult mult_right_mono)
  moreover have "(2::rat) powi ?e \<le> 2 powi n" using e by (intro powi_mono) simp
  ultimately have "\<bar>?y\<bar> < 2 * (2::rat) powi n" using assms(1) by linarith
  also have "2 * (2::rat) powi n = 2 powi (n + 1)" by (simp add: power_int_add)
  also have "\<dots> \<le> 2 powi 1024" using assms by (intro powi_mono) simp
  finally have "\<not> (2::rat) powi 1024 \<le> \<bar>?y\<bar>" by simp
  then show ?thesis using False by (simp add: fl_def fl_pack_def round_at_def)
qed

text \<open>A rational strictly closer than one half to an integer rounds to it.\<close>

lemma round_even_unique: "\<bar>x - of_int n\<bar> < 1 / 2 \<Longrightarrow> round_even x = n"
proof -
  assume "\<bar>x - of_int n\<bar> < 1 / 2"
  moreover have "\<bar>of_int (round_even x) - x\<bar> \<le> 1 / 2" by (rule round_even_error)
  ultimately have "\<bar>of_int (round_even x) - of_int n :: rat\<bar> < 1" by linarith
  then have "\<bar>of_int (round_even x - n) :: rat\<bar> < 1" by simp
  then show ?thesis by linarith
qed

lemma round_even_int [simp]: "round_even (of_int n) = n"
  by (rule round_even_unique) simp

text \<open>Representable values are not changed by rounding.\<close>

lemma flog2_unique: "\<lbrakk>2 powi k \<le> x; x < 2 powi (k + 1)\<rbrakk> \<Longrightarrow> flog2 x = k"
proof (rule ccontr)
  assume k: "2 powi k \<le> x" "x < 2 powi (k + 1)" and "flog2 x \<noteq> k"
  have "(0::rat) < 2 powi k" by simp
  with k have x: "0 < x" by linarith
  from \<open>flog2 x \<noteq> k\<close> consider "flog2 x < k" | "k < flog2 x" by linarith
  then show False
  proof cases
    case 1
    then have "(2::rat) powi (flog2 x + 1) \<le> 2 powi k" by (intro powi_mono) simp
    then show False using flog2_bounds [OF x] k(1) by linarith
  next
    case 2
    then have "(2::rat) powi (k + 1) \<le> 2 powi (flog2 x)" by (intro powi_mono) simp
    then show False using flog2_bounds [OF x] k(2) by linarith
  qed
qed

lemma fl_round:
  assumes "x \<noteq> 0" "2 powi k \<le> \<bar>x\<bar>" "\<bar>x\<bar> < 2 powi (k + 1)" "- 1022 \<le> k" "k \<le> 999"
    and "\<bar>x / 2 powi (k - 52) - of_int n\<bar> < 1 / 2"
  shows "fl x = Fin (of_int n * 2 powi (k - 52))"
proof -
  have "ulp_exp x = k - 52"
    using flog2_unique [OF assms(2, 3)] assms(4) by (simp add: ulp_exp_def)
  moreover have "round_even (x / 2 powi (k - 52)) = n" using assms(6) by (rule round_even_unique)
  ultimately have "fl x = fl_pack (of_int n * 2 powi (k - 52))"
    using assms(1) by (simp add: fl_def round_at_def)
  moreover obtain y where "fl x = Fin y"
    using fl_finite [of x "k + 1"] assms(3-5) by auto
  ultimately show ?thesis by (auto simp: fl_pack_def split: if_splits)
qed

subsection \<open>Reading\<close>

text \<open>
  \<open>strconv.ParseFloat(s, 64)\<close>: decimal and hexadecimal literals with optional
  underscores between digits, infinities and NaN; \<open>None\<close> stands for a non-nil error
  (syntax, or a value out of range).
\<close>

fun underscores_ok :: "bool \<Rightarrow> char \<Rightarrow> string \<Rightarrow> bool" where
  "underscores_ok hex i [] = (i \<noteq> CHR ''_'')"
| "underscores_ok hex i (c # s) =
     (if is_digit c \<or> (hex \<and> lower_char c \<in> set ''abcdef'') then underscores_ok hex CHR ''0'' s
      else if c = CHR ''_'' then (i = CHR ''0'' \<and> underscores_ok hex CHR ''_'' s)
      else (i \<noteq> CHR ''_'' \<and> underscores_ok hex CHR ''!'' s))"

definition mantissa_digit :: "int \<Rightarrow> char \<Rightarrow> int option" where
  "mantissa_digit base c =
     (if is_digit c then Some (digit_val c)
      else if base = 16 \<and> lower_char c \<in> set ''abcdef'' then Some (of_char (lower_char c) - 87)
      else None)"

text \<open>The mantissa: digits seen, a dot seen, value, number of digits after the dot, rest.\<close>

fun read_mantissa :: "int \<Rightarrow> bool \<Rightarrow> bool \<Rightarrow> int \<Rightarrow> int \<Rightarrow> string \<Rightarrow> bool \<times> int \<times> int \<times> string" where
  "read_mantissa base digits dot m k [] = (digits, m, k, [])"
| "read_mantissa base digits dot m k (c # s) =
     (if c = CHR ''_'' then read_mantissa base digits dot m k s
      else if c = CHR ''.'' then (if dot then (digits, m, k, c # s) else read_mantissa base digits True m k s)
      else case mantissa_digit base c of
        Some d \<Rightarrow> read_mantissa base True dot (m * base + d) (if dot then k + 1 else k) s
      | None \<Rightarrow> (digits, m, k, c # s))"

fun exp_digits :: "int \<Rightarrow> string \<Rightarrow> int option" where
  "exp_digits e [] = Some e"
| "exp_digits e (c # s) =
     (if c = CHR ''_'' then exp_digits e s
      else if is_digit c then exp_digits (if e < 10000 then e * 10 + digit_val c else e) s
      else None)"

definition read_exponent :: "int \<Rightarrow> string \<Rightarrow> int option" where
  "read_exponent base s = (case s of
     [] \<Rightarrow> if base = 16 then None else Some 0
   | c # r \<Rightarrow>
       if lower_char c = (if base = 16 then CHR ''p'' else CHR ''e'')
       then (let neg = (case r of d # _ \<Rightarrow> d = CHR ''-'' | [] \<Rightarrow> False);
                 q = (case r of d # q \<Rightarrow> if d = CHR ''-'' \<or> d = CHR ''+'' then q else r | [] \<Rightarrow> [])
             in (case q of
                   [] \<Rightarrow> None
                 | d # _ \<Rightarrow> if is_digit d
                            then map_option (\<lambda>e. if neg then - e else e) (exp_digits 0 q) else None))
       else None)"

definition parse_float :: "string \<Rightarrow> f64 option" where
  "parse_float s =
     (let sg = (case s of c # _ \<Rightarrow> c = CHR ''-'' \<or> c = CHR ''+'' | [] \<Rightarrow> False);
          neg = (case s of c # _ \<Rightarrow> c = CHR ''-'' | [] \<Rightarrow> False);
          u = (if sg then tl s else s)
      in if to_lower u = ''inf'' \<or> to_lower u = ''infinity'' then Some (Inf neg)
         else if to_lower s = ''nan'' then Some NaN
         else
           (let hex = (length u > 2 \<and> to_lower (take 2 u) = ''0x'');
                base = (if hex then 16 else 10)
            in case read_mantissa base False False 0 0 (if hex then drop 2 u else u) of
                 (digits, m, k, r) \<Rightarrow>
                   if \<not> digits then None
                   else (case read_exponent base r of
                     None \<Rightarrow> None
                   | Some e \<Rightarrow>
                       if CHR ''_'' \<in> set u
                          \<and> \<not> underscores_ok hex (if hex then CHR ''0'' else CHR ''^'') (if hex then drop 2 u else u)
                       then None
                       else (case fl ((if neg then - 1 else 1) * of_int m
                                      * (if hex then 2 powi (e - 4 * k) else 10 powi (e - k))) of
                               Inf _ \<Rightarrow> None
                             | x \<Rightarrow> Some x))))"

end
