(* ===== verification/Board_Config.thy ===== *)
theory Board_Config
  imports Oid_Generator Go_Float
begin

text \<open>
  The parts of \<open>config/config.go\<close> that read one setting: the \<open>getEnv*\<close> functions,
  the parser of \<open>OLT_BOARDS\<close>, and the set of configured slots. The environment is a
  function from names to values; an unset variable has the empty value, as
  \<open>os.Getenv\<close> reports it.
\<close>

type_synonym env = "bytes \<Rightarrow> bytes"

definition getEnv :: "env \<Rightarrow> bytes \<Rightarrow> bytes \<Rightarrow> bytes" where
  "getEnv env key defaultValue = (let value = env key in if value \<noteq> [] then value else defaultValue)"

definition getEnvAsInt :: "env \<Rightarrow> bytes \<Rightarrow> int \<Rightarrow> int" where
  "getEnvAsInt env key defaultValue =
     (let value = env key in
      if value \<noteq> [] then (case atoi value of Some intVal \<Rightarrow> intVal | None \<Rightarrow> defaultValue) else defaultValue)"

definition getEnvAsUint16 :: "env \<Rightarrow> bytes \<Rightarrow> int \<Rightarrow> int" where
  "getEnvAsUint16 env key defaultValue =
     (let value = env key in
      if value \<noteq> [] then (case parse_uint 16 value of Some intVal \<Rightarrow> intVal | None \<Rightarrow> defaultValue)
      else defaultValue)"

definition getEnvAsFloat64 :: "env \<Rightarrow> bytes \<Rightarrow> f64 \<Rightarrow> f64" where
  "getEnvAsFloat64 env key defaultValue =
     (let value = env key in
      if value \<noteq> [] then (case parse_float value of Some floatVal \<Rightarrow> floatVal | None \<Rightarrow> defaultValue)
      else defaultValue)"

subsection \<open>\<open>OLT_BOARDS\<close>\<close>

text \<open>One entry of the list: the slot and its port count, or nothing when it is skipped.\<close>

definition parse_board_part :: "int \<Rightarrow> bytes \<Rightarrow> (int \<times> int) option" where
  "parse_board_part defaultPons part =
     (let part = trim_space part in
      if part = [] then None
      else
        (case cut CHR '':'' part of (slotStr, ponStr, hasPon) \<Rightarrow>
           (case atoi (trim_space slotStr) of
              None \<Rightarrow> None
            | Some slot \<Rightarrow>
                if slot < 1 \<or> slot > MaxBoardID then None
                else
                  (let pons =
                     (if hasPon
                      then (case atoi (trim_space ponStr) of
                              Some p \<Rightarrow> if p \<ge> 1 \<and> p \<le> MaxPonID then p else defaultPons
                            | None \<Rightarrow> defaultPons)
                      else defaultPons)
                   in Some (slot, pons)))))"

fun parse_board_parts :: "int \<Rightarrow> bytes list \<Rightarrow> (int, int) gomap \<Rightarrow> (int, int) gomap" where
  "parse_board_parts defaultPons [] specs = specs"
| "parse_board_parts defaultPons (part # parts) specs =
     (case parse_board_part defaultPons part of
        None \<Rightarrow> parse_board_parts defaultPons parts specs
      | Some (slot, pons) \<Rightarrow> parse_board_parts defaultPons parts (gm_set slot pons specs))"

definition parseBoardSpecs :: "bytes \<Rightarrow> int \<Rightarrow> int list \<times> (int, int) gomap" where
  "parseBoardSpecs raw defaultPons =
     (let defaultPons = clamp_pons defaultPons;
          specs = parse_board_parts defaultPons (split_on CHR '','' raw) [];
          specs = (if specs = [] then fold (\<lambda>s m. gm_set s defaultPons m) DefaultBoards specs else specs);
          boards = sort (map fst specs)
      in (boards, specs))"

definition parseBoards :: "bytes \<Rightarrow> int list" where
  "parseBoards raw = fst (parseBoardSpecs raw MaxPonID)"

text \<open>\<open>Config.BoardSet\<close>, on the list of configured slots.\<close>

definition BoardSet :: "int list \<Rightarrow> (int, bool) gomap" where
  "BoardSet boards =
     (let boards = (if boards = [] then DefaultBoards else boards)
      in fold (\<lambda>b m. gm_set b True m) boards [])"

subsection \<open>The topology invariant\<close>

text \<open>
  What \<open>parseBoardSpecs\<close> guarantees to the rest of the program: at least one slot, each
  slot and each port count possible, no slot twice, the list of slots sorted and equal to
  the keys of the map.
\<close>

definition good_specs :: "(int, int) gomap \<Rightarrow> bool" where
  "good_specs specs \<longleftrightarrow>
     gm_wf specs \<and> (\<forall>(s, n) \<in> set specs. valid_slot s \<and> valid_pon n)"

definition good_topology :: "int list \<Rightarrow> (int, int) gomap \<Rightarrow> bool" where
  "good_topology boards specs \<longleftrightarrow>
     good_specs specs \<and> specs \<noteq> [] \<and> sorted boards \<and> distinct boards \<and> set boards = fst ` set specs"

lemma set_gm_set_subset: "set (gm_set k v m) \<subseteq> insert (k, v) (set m)"
  by (induction m) auto

lemma good_specs_set: "\<lbrakk>good_specs m; valid_slot s; valid_pon n\<rbrakk> \<Longrightarrow> good_specs (gm_set s n m)"
  using set_gm_set_subset [of s n m] gm_wf_set [of m s n] by (auto simp: good_specs_def)

lemma clamp_valid_pon: "valid_pon (clamp_pons n)"
  using clamp_pons_range [of n] by (simp add: valid_pon_def)

lemma parse_board_part_valid:
  "\<lbrakk>parse_board_part d part = Some (s, n); valid_pon d\<rbrakk> \<Longrightarrow> valid_slot s \<and> valid_pon n"
  by (auto simp: parse_board_part_def Let_def valid_slot_def valid_pon_def split: if_splits option.splits prod.splits)

lemma parse_board_parts_good: "\<lbrakk>good_specs m; valid_pon d\<rbrakk> \<Longrightarrow> good_specs (parse_board_parts d parts m)"
  by (induction parts arbitrary: m)
    (auto split: option.splits dest: parse_board_part_valid intro: good_specs_set)

lemma default_specs_good:
  assumes "valid_pon d"
  shows "good_specs (fold (\<lambda>s m. gm_set s d m) DefaultBoards []) \<and> fold (\<lambda>s m. gm_set s d m) DefaultBoards [] \<noteq> []"
  using assms by (simp add: DefaultBoards_def good_specs_def valid_slot_def oid_consts)

lemma parseBoardSpecs_good: "good_topology (fst (parseBoardSpecs raw d)) (snd (parseBoardSpecs raw d))"
proof -
  have "good_specs (parse_board_parts (clamp_pons d) (split_on CHR '','' raw) [])"
    by (rule parse_board_parts_good) (simp_all add: good_specs_def clamp_valid_pon)
  then have "good_specs (snd (parseBoardSpecs raw d)) \<and> snd (parseBoardSpecs raw d) \<noteq> []"
    using default_specs_good [OF clamp_valid_pon [of d]] by (simp add: parseBoardSpecs_def Let_def)
  then show ?thesis
    by (simp add: good_topology_def good_specs_def parseBoardSpecs_def Let_def)
qed

text \<open>
  C26. Whatever \<open>OLT_BOARDS\<close> and the default port count say, the topology has at least
  one slot, only slots 1..30 with 1..16 ports, no slot twice and a sorted slot list; the map
  of object identifiers can be built from it, in every order in which Go may visit the slots;
  the validation accepts it; and a lookup succeeds for exactly the ports of the topology, with
  the identifiers generated for that port.
\<close>

theorem configured_topology:
  assumes "range_order ord" "range_order ord'" and p: "parseBoardSpecs raw d = (boards, specs)"
  shows "good_topology boards specs \<and>
    (\<exists>m. InitializeBoardPonMapFromSpecs ord specs = Inr m \<and> ValidateConfig ord' specs m = None \<and>
       (\<forall>s p. (case gm_get specs s of
                 Some n \<Rightarrow> if 1 \<le> p \<and> p \<le> n
                            then GetBoardPonConfig m s p = GenerateBoardPonOID s p
                            else \<exists>e. GetBoardPonConfig m s p = Inl e
               | None \<Rightarrow> \<exists>e. GetBoardPonConfig m s p = Inl e)))"
proof -
  have good: "good_topology boards specs"
    using parseBoardSpecs_good [of raw d] by (simp add: p)
  then have wf: "gm_wf specs" and ne: "specs \<noteq> []"
    and valid: "\<And>s n. (s, n) \<in> set specs \<Longrightarrow> valid_slot s \<and> valid_pon n"
    by (auto simp: good_topology_def good_specs_def)
  have top: "topology specs = specs" using ne by (simp add: topology_def)
  obtain m where m: "InitializeBoardPonMapFromSpecs ord specs = Inr m"
    "\<And>s p. gm_get m (s, p) = (if in_topology specs s p then Some (bp_cfg (s, p)) else None)"
    using InitializeBoardPonMapFromSpecs_Inr [OF assms(1) wf] valid unfolding top by fastforce
  have "ValidateConfig ord' specs m = None"
    using m(2) by (simp add: ValidateConfig_iff [OF assms(2) wf])
  moreover have "in_topology specs s p \<longleftrightarrow> (\<exists>n. gm_get specs s = Some n \<and> 1 \<le> p \<and> p \<le> n)" for s p
  proof (cases "gm_get specs s")
    case (Some n)
    then have "clamp_pons n = n" using valid [of s n] by (auto simp: clamp_pons_def valid_pon_def dest: map_of_SomeD)
    with Some show ?thesis by (simp add: in_topology_def top)
  qed (simp add: in_topology_def top)
  moreover have "\<lbrakk>gm_get specs s = Some n; 1 \<le> p; p \<le> n\<rbrakk> \<Longrightarrow> GenerateBoardPonOID s p = Inr (bp_cfg (s, p))" for s n p
    using valid [of s n] by (intro GenerateBoardPonOID_valid) (auto simp: valid_pon_def dest!: map_of_SomeD)
  ultimately show ?thesis
    using good m by (auto simp: GetBoardPonConfig_def split: option.splits intro!: exI [of _ m])
qed

theorem configured_topology_witness:
  "good_topology [3, 5] [(3, 16), (5, 8)]"
proof -
  have p: "parseBoardSpecs ''3:16,5'' 8 = ([3, 5], [(3, 16), (5, 8)])" by code_simp
  show ?thesis
    using configured_topology [OF _ _ p, of "\<lambda>m. m" rev] by simp
qed

subsection \<open>Reading back a printed topology\<close>

lemma space_seqs_no_digit:
  "list_all (\<lambda>q. q \<noteq> [] \<and> \<not> is_digit (hd q) \<and> \<not> is_digit (last q)) space_seqs"
  by code_simp

lemma drop_seqs_none: "\<forall>q \<in> set seqs. \<not> has_prefix s q \<Longrightarrow> drop_seqs seqs n s = s"
  using find_None_iff [of "has_prefix s" seqs] by (cases n) auto

lemma trim_left_digit: "is_digit (hd s) \<Longrightarrow> s \<noteq> [] \<Longrightarrow> trim_left s = s"
proof -
  assume s: "is_digit (hd s)" "s \<noteq> []"
  have "\<not> has_prefix s q" if "q \<in> set space_seqs" for q
    using space_seqs_no_digit that s by (auto simp: list_all_iff has_prefix_iff)
  then show ?thesis by (simp add: trim_left_def drop_seqs_none)
qed

lemma trim_right_digit: "is_digit (last s) \<Longrightarrow> s \<noteq> [] \<Longrightarrow> trim_right s = s"
proof -
  assume s: "is_digit (last s)" "s \<noteq> []"
  have "\<forall>q \<in> set (map rev space_seqs). \<not> has_prefix (rev s) q"
    using space_seqs_no_digit s
    by (auto simp: list_all_iff has_prefix_iff) (metis hd_append2 hd_rev rev_is_Nil_conv rev_rev_ident)
  then show ?thesis by (simp add: trim_right_def drop_seqs_none)
qed

lemma trim_space_digits: "\<lbrakk>is_digit (hd s); is_digit (last s); s \<noteq> []\<rbrakk> \<Longrightarrow> trim_space s = s"
  by (simp add: trim_space_def trim_left_digit trim_right_digit)

lemma itoa_ends: "0 \<le> n \<Longrightarrow> is_digit (hd (itoa n)) \<and> is_digit (last (itoa n))"
  by (simp add: itoa_nonneg_digits)

lemma trim_space_itoa: "0 \<le> n \<Longrightarrow> trim_space (itoa n) = itoa n"
  by (simp add: trim_space_digits itoa_ends)

definition print_spec :: "int \<times> int \<Rightarrow> bytes" where
  "print_spec e = itoa (fst e) @ '':'' @ itoa (snd e)"

lemma parse_print_spec:
  assumes "valid_slot s" "valid_pon n"
  shows "parse_board_part d (print_spec (s, n)) = Some (s, n)"
proof -
  have r: "1 \<le> s" "s \<le> 30" "1 \<le> n" "n \<le> 16" using assms by (auto simp: valid_slot_def valid_pon_def oid_consts)
  have t: "trim_space (print_spec (s, n)) = print_spec (s, n)"
    using itoa_ends [of s] itoa_ends [of n] r by (intro trim_space_digits) (auto simp: print_spec_def)
  have c: "cut CHR '':'' (print_spec (s, n)) = (itoa s, itoa n, True)"
    using itoa_nonneg_digits [of s "CHR '':''"] r by (auto simp: print_spec_def is_digit_def intro!: cut_append)
  show ?thesis
    unfolding parse_board_part_def Let_def t c
    using r by (simp add: trim_space_itoa in_int64_def oid_consts print_spec_def)
qed

lemma parse_print_specs:
  assumes "\<forall>(s, n) \<in> set es. valid_slot s \<and> valid_pon n"
  shows "parse_board_parts d (map print_spec es) m = fold (\<lambda>(s, n) m. gm_set s n m) es m"
  using assms by (induction es arbitrary: m) (auto simp: parse_print_spec)

lemma gm_set_fresh: "k \<notin> fst ` set m \<Longrightarrow> gm_set k v m = m @ [(k, v)]"
  by (induction m) auto

lemma fold_gm_set_distinct:
  "gm_wf (m @ es) \<Longrightarrow> fold (\<lambda>(s, n) m. gm_set s n m) es m = m @ es"
proof (induction es arbitrary: m)
  case (Cons e es)
  then have "gm_set (fst e) (snd e) m = m @ [e]" using gm_set_fresh [of "fst e" m "snd e"] by auto
  then show ?case using Cons by (cases e) auto
qed simp

text \<open>
  A topology written as \<open>slot:pons,slot:pons,\<dots>\<close> is read back as it was, whatever the
  default port count is.
\<close>

theorem parseBoardSpecs_roundtrip:
  assumes "good_specs specs" "specs \<noteq> []"
  shows "parseBoardSpecs (join '','' (map print_spec specs)) d = (sort (map fst specs), specs)"
proof -
  have v: "\<forall>(s, n) \<in> set specs. valid_slot s \<and> valid_pon n" and wf: "gm_wf specs"
    using assms(1) by (auto simp: good_specs_def)
  have "\<forall>t \<in> set (map print_spec specs). CHR '','' \<notin> set t"
    using v itoa_nonneg_digits [of _ "CHR '',''"]
    by (fastforce simp: print_spec_def valid_slot_def valid_pon_def is_digit_def)
  then have "split_on CHR '','' (join '','' (map print_spec specs)) = map print_spec specs"
    using assms(2) by (intro split_on_join) auto
  then show ?thesis
    using fold_gm_set_distinct [of "[]" specs] wf assms(2)
    by (simp add: parseBoardSpecs_def parse_print_specs [OF v])
qed

theorem parseBoardSpecs_roundtrip_witness:
  "parseBoardSpecs ''5:8,3:16'' 16 = ([3, 5], [(5, 8), (3, 16)])"
proof -
  have p: "join '','' (map print_spec [(5, 8), (3, 16)]) = ''5:8,3:16''" by code_simp
  have g: "good_specs [(5, 8), (3, 16)]" by (simp add: good_specs_def valid_slot_def valid_pon_def oid_consts)
  show ?thesis
    using parseBoardSpecs_roundtrip [OF g, of 16] unfolding p by simp
qed

end
