(* ===== verification/Olt_Config.thy ===== *)
theory Olt_Config
  imports Board_Config
begin

text \<open>
  The configuration records of \<open>config/config.go\<close>, the registry of OLTs of
  \<open>config/olts.go\<close> and the registry of API users of \<open>config/users.go\<close>.

  A loop that builds the object identifier map of a device visits a Go map; its order is the
  argument \<open>ord\<close>.
\<close>

subsection \<open>Records\<close>

record SnmpConfig =
  snmp_IP :: bytes
  snmp_Port :: int
  snmp_Community :: bytes
  snmp_MaxConcurrent :: int

record RedisConfig =
  rc_Host :: bytes
  rc_Port :: bytes
  rc_Password :: bytes
  rc_DB :: int
  rc_DefaultDB :: int
  rc_MinIdleConnections :: int
  rc_PoolSize :: int
  rc_PoolTimeout :: int

record TrapConfig =
  tc_Enabled :: bool
  tc_Port :: int
  tc_Community :: bytes
  tc_WebhookURL :: bytes
  tc_WebhookType :: bytes
  tc_WebhookChatID :: bytes
  tc_CriticalInterval :: int
  tc_HighInterval :: int
  tc_MediumInterval :: int
  tc_LowInterval :: int
  tc_CriticalRepeat :: int
  tc_HighRepeat :: int
  tc_MediumRepeat :: int
  tc_LowRepeat :: int
  tc_ActionCritical :: bytes
  tc_ActionHigh :: bytes
  tc_ActionMedium :: bytes
  tc_ActionLow :: bytes
  tc_WebhookRetries :: int
  tc_WebhookTimeout :: int
  tc_PowerMonitor :: bool
  tc_PowerMonitorInterval :: int
  tc_PowerMonitorCron :: bytes
  tc_PowerMonitorTimezone :: bytes
  tc_RxPowerHighThreshold :: f64
  tc_RxPowerLowThreshold :: f64

record CacheConfig =
  ONUInfoTTL :: int
  ONUDetailTTL :: int
  EmptyOnuIDTTL :: int
  PreWarm :: bool

record OltCfgRec =
  oc_BaseOID1 :: bytes
  oc_BaseOID2 :: bytes
  oc_OnuIDNameAllPon :: bytes
  oc_OnuTypeAllPon :: bytes
  oc_Timezone :: bytes

record OLTRuntimeConfig =
  olt_ID :: bytes
  olt_UserID :: int
  olt_Host :: bytes
  olt_Port :: int
  olt_Community :: bytes
  olt_MaxConcurrent :: int
  olt_Boards :: "int list"
  olt_BoardPons :: "(int, int) gomap"
  olt_PonsPerBoard :: int
  olt_BoardPonMap :: "(BoardPonKey, BoardPonConfig) gomap"
  olt_UseWalk :: bool

record APIUser =
  au_UserID :: int
  au_APIKey :: bytes
  au_Role :: bytes

text \<open>\<open>APIUsers\<close> is \<open>None\<close> when it is nil: per-user authentication is off.\<close>

record Config =
  SnmpCfg :: SnmpConfig
  RedisCfg :: RedisConfig
  OltCfg :: OltCfgRec
  TrapCfg :: TrapConfig
  CacheCfg :: CacheConfig
  Boards :: "int list"
  BoardPons :: "(int, int) gomap"
  PonsPerBoard :: int
  BoardPonMap :: "(BoardPonKey, BoardPonConfig) gomap"
  OLTs :: "OLTRuntimeConfig list"
  DefaultOLT :: bytes
  APIKey :: bytes
  APIUsers :: "(bytes, APIUser) gomap option"
  TrustedProxies :: bytes

definition IsAdmin :: "APIUser \<Rightarrow> bool" where
  "IsAdmin u \<longleftrightarrow> au_Role u = ''admin''"

subsection \<open>The source of the OLT list\<close>

text \<open>\<open>os.ReadFile\<close> is the argument \<open>readFile\<close>.\<close>

definition resolveOLTSJSON :: "(bytes \<Rightarrow> gerror + bytes) \<Rightarrow> bytes \<Rightarrow> bytes \<Rightarrow> gerror + bytes" where
  "resolveOLTSJSON readFile oltsInline oltsFile =
     (if trim_space oltsInline \<noteq> [] then Inr oltsInline
      else if trim_space oltsFile = [] then Inr []
      else
        (case readFile oltsFile of
           Inl err \<Rightarrow> Inl (Wrap (''OLTS_FILE '' @ go_quote oltsFile @ '': '') err)
         | Inr d \<Rightarrow>
             if trim_space d = [] then Inl (Plain (''OLTS_FILE '' @ go_quote oltsFile @ '' is empty''))
             else Inr d))"

subsection \<open>One entry\<close>

record oltJSON =
  oj_ID :: bytes
  oj_UserID :: int
  oj_Host :: bytes
  oj_Port :: int
  oj_Community :: bytes
  oj_MaxConcurrent :: int
  oj_Boards :: bytes
  oj_PonsPerBoard :: int
  oj_Walk :: bool

definition zero_oltJSON :: oltJSON where
  "zero_oltJSON = \<lparr>oj_ID = [], oj_UserID = 0, oj_Host = [], oj_Port = 0, oj_Community = [],
     oj_MaxConcurrent = 0, oj_Boards = [], oj_PonsPerBoard = 0, oj_Walk = False\<rparr>"

definition oltJSON_fields :: "oltJSON field list" where
  "oltJSON_fields =
     [(''id'', \<lambda>j r. map_option (\<lambda>v. r\<lparr>oj_ID := v\<rparr>) (get_str j (oj_ID r))),
      (''user_id'', \<lambda>j r. map_option (\<lambda>v. r\<lparr>oj_UserID := v\<rparr>) (get_int j (oj_UserID r))),
      (''host'', \<lambda>j r. map_option (\<lambda>v. r\<lparr>oj_Host := v\<rparr>) (get_str j (oj_Host r))),
      (''port'', \<lambda>j r. map_option (\<lambda>v. r\<lparr>oj_Port := v\<rparr>) (get_int j (oj_Port r))),
      (''community'', \<lambda>j r. map_option (\<lambda>v. r\<lparr>oj_Community := v\<rparr>) (get_str j (oj_Community r))),
      (''maxConcurrent'', \<lambda>j r. map_option (\<lambda>v. r\<lparr>oj_MaxConcurrent := v\<rparr>) (get_int j (oj_MaxConcurrent r))),
      (''boards'', \<lambda>j r. map_option (\<lambda>v. r\<lparr>oj_Boards := v\<rparr>) (get_str j (oj_Boards r))),
      (''ponsPerBoard'', \<lambda>j r. map_option (\<lambda>v. r\<lparr>oj_PonsPerBoard := v\<rparr>) (get_int j (oj_PonsPerBoard r))),
      (''walk'', \<lambda>j r. map_option (\<lambda>v. r\<lparr>oj_Walk := v\<rparr>) (get_bool j (oj_Walk r)))]"

text \<open>\<open>json.Unmarshal\<close> of a text into a nil slice of structs.\<close>

definition unmarshal_slice :: "'r field list \<Rightarrow> 'r \<Rightarrow> bytes \<Rightarrow> 'r list option option" where
  "unmarshal_slice fs zero s =
     Option.bind (json_parse s) (decode_slice (\<lambda>j. decode_struct fs j zero))"

definition oltFromJSON :: "(int, int) range_ord \<Rightarrow> oltJSON \<Rightarrow> int \<Rightarrow> gerror + OLTRuntimeConfig" where
  "oltFromJSON ord e defaultMaxConcurrent =
     (if oj_ID e = [] then Inl (Plain ''id is required'')
      else if oj_Host e = [] then Inl (Plain (''host is required (id='' @ oj_ID e @ '')''))
      else if oj_Community e = [] then Inl (Plain (''community is required (id='' @ oj_ID e @ '')''))
      else
        (let port = oj_Port e mod 65536;
             port = (if port = 0 then 161 else port);
             maxConc = oj_MaxConcurrent e;
             maxConc = (if maxConc < 1 then defaultMaxConcurrent else maxConc);
             maxConc = (if maxConc < 1 then 5 else maxConc);
             defaultPons = clamp_pons (oj_PonsPerBoard e)
         in case parseBoardSpecs (oj_Boards e) defaultPons of (boards, boardPons) \<Rightarrow>
              (case InitializeBoardPonMapFromSpecs ord boardPons of
                 Inl err \<Rightarrow> Inl (Wrap (''id='' @ oj_ID e @ '': '') err)
               | Inr bpMap \<Rightarrow>
                   Inr \<lparr>olt_ID = oj_ID e, olt_UserID = oj_UserID e, olt_Host = oj_Host e, olt_Port = port,
                        olt_Community = oj_Community e, olt_MaxConcurrent = maxConc, olt_Boards = boards,
                        olt_BoardPons = boardPons, olt_PonsPerBoard = defaultPons, olt_BoardPonMap = bpMap,
                        olt_UseWalk = oj_Walk e\<rparr>)))"

fun olts_from_entries ::
    "(int, int) range_ord \<Rightarrow> int \<Rightarrow> int \<Rightarrow> oltJSON list \<Rightarrow> gerror + OLTRuntimeConfig list" where
  "olts_from_entries ord mc i [] = Inr []"
| "olts_from_entries ord mc i (e # es) =
     (case oltFromJSON ord e mc of
        Inl err \<Rightarrow> Inl (Wrap (''OLTS['' @ itoa i @ '']: '') err)
      | Inr cfg \<Rightarrow>
          (case olts_from_entries ord mc (i + 1) es of
             Inl err \<Rightarrow> Inl err
           | Inr olts \<Rightarrow> Inr (cfg # olts)))"

subsection \<open>The registry\<close>

text \<open>\<open>oltIDPattern\<close>: a non-empty word of letters, digits, underscores and hyphens.\<close>

definition id_char :: "char \<Rightarrow> bool" where
  "id_char c \<longleftrightarrow>
     (let n = of_char c :: int in
      65 \<le> n \<and> n \<le> 90 \<or> 97 \<le> n \<and> n \<le> 122 \<or> 48 \<le> n \<and> n \<le> 57 \<or> n = 95 \<or> n = 45)"

definition oltIDPattern :: "bytes \<Rightarrow> bool" where
  "oltIDPattern s \<longleftrightarrow> s \<noteq> [] \<and> list_all id_char s"

fun check_ids :: "OLTRuntimeConfig list \<Rightarrow> bytes list \<Rightarrow> gerror + bytes list" where
  "check_ids [] seen = Inr seen"
| "check_ids (cfg # olts) seen =
     (if \<not> oltIDPattern (olt_ID cfg)
      then Inl (Plain (''OLT id '' @ go_quote (olt_ID cfg)
                  @ '' is invalid (allowed: letters, digits, '' @ [CHR 0x27, CHR ''-'', CHR 0x27]
                  @ '', '' @ [CHR 0x27, CHR ''_'', CHR 0x27] @ '')''))
      else if olt_ID cfg \<in> set seen
      then Inl (Plain (''duplicate OLT id '' @ go_quote (olt_ID cfg)))
      else check_ids olts (olt_ID cfg # seen))"

definition finish_registry :: "bytes \<Rightarrow> OLTRuntimeConfig list \<Rightarrow> gerror + OLTRuntimeConfig list \<times> bytes" where
  "finish_registry defaultOLTEnv olts =
     (case check_ids olts [] of
        Inl err \<Rightarrow> Inl err
      | Inr seen \<Rightarrow>
          (let defaultOLT = (if defaultOLTEnv = [] then olt_ID (hd olts) else defaultOLTEnv) in
           if defaultOLT \<notin> set seen
           then Inl (Plain (''DEFAULT_OLT '' @ go_quote defaultOLT @ '' is not one of the configured OLTs''))
           else Inr (olts, defaultOLT)))"

definition BuildOLTRegistry ::
    "(int, int) range_ord \<Rightarrow> bytes \<Rightarrow> bytes \<Rightarrow> OLTRuntimeConfig \<Rightarrow> gerror + OLTRuntimeConfig list \<times> bytes" where
  "BuildOLTRegistry ord oltsJSON defaultOLTEnv legacy =
     (if oltsJSON = [] then
        (if olt_Host legacy = [] then Inl (Plain ''SNMP_HOST environment variable is required'')
         else if olt_Community legacy = [] then Inl (Plain ''SNMP_COMMUNITY environment variable is required'')
         else finish_registry defaultOLTEnv
                [if olt_ID legacy = [] then legacy\<lparr>olt_ID := ''default''\<rparr> else legacy])
      else
        (case unmarshal_slice oltJSON_fields zero_oltJSON oltsJSON of
           None \<Rightarrow> Inl (Wrap ''invalid OLTS JSON: '' (Plain json_error))
         | Some entries \<Rightarrow>
             (case entries of
                None \<Rightarrow> Inl (Plain ''OLTS must contain at least one OLT'')
              | Some [] \<Rightarrow> Inl (Plain ''OLTS must contain at least one OLT'')
              | Some es \<Rightarrow>
                  (case olts_from_entries ord (olt_MaxConcurrent legacy) 0 es of
                     Inl err \<Rightarrow> Inl err
                   | Inr olts \<Rightarrow> finish_registry defaultOLTEnv olts))))"

text \<open>\<open>Config.ForOLT\<close>.\<close>

definition ForOLT :: "Config \<Rightarrow> OLTRuntimeConfig \<Rightarrow> Config" where
  "ForOLT c cfg = c\<lparr>
     SnmpCfg := \<lparr>snmp_IP = olt_Host cfg, snmp_Port = olt_Port cfg, snmp_Community = olt_Community cfg,
                 snmp_MaxConcurrent = olt_MaxConcurrent cfg\<rparr>,
     Boards := olt_Boards cfg, BoardPons := olt_BoardPons cfg, PonsPerBoard := olt_PonsPerBoard cfg,
     BoardPonMap := olt_BoardPonMap cfg, OLTs := []\<rparr>"

subsection \<open>API users\<close>

record apiUserJSON =
  uj_UserID :: int
  uj_APIKey :: bytes
  uj_Role :: bytes

definition zero_apiUserJSON :: apiUserJSON where
  "zero_apiUserJSON = \<lparr>uj_UserID = 0, uj_APIKey = [], uj_Role = []\<rparr>"

definition apiUserJSON_fields :: "apiUserJSON field list" where
  "apiUserJSON_fields =
     [(''user_id'', \<lambda>j r. map_option (\<lambda>v. r\<lparr>uj_UserID := v\<rparr>) (get_int j (uj_UserID r))),
      (''api_key'', \<lambda>j r. map_option (\<lambda>v. r\<lparr>uj_APIKey := v\<rparr>) (get_str j (uj_APIKey r))),
      (''role'', \<lambda>j r. map_option (\<lambda>v. r\<lparr>uj_Role := v\<rparr>) (get_str j (uj_Role r)))]"

definition user_role :: "apiUserJSON \<Rightarrow> bytes" where
  "user_role e = (let role = to_lower (trim_space (uj_Role e)) in if role = [] then ''user'' else role)"

definition user_error :: "int \<Rightarrow> bytes \<Rightarrow> gerror" where
  "user_error i msg = Plain (''API_USERS['' @ itoa i @ '']: '' @ msg)"

fun add_users :: "int \<Rightarrow> apiUserJSON list \<Rightarrow> (bytes, APIUser) gomap \<Rightarrow> gerror + (bytes, APIUser) gomap" where
  "add_users i [] reg = Inr reg"
| "add_users i (e # es) reg =
     (if trim_space (uj_APIKey e) = [] then Inl (user_error i ''api_key is required'')
      else if user_role e \<noteq> ''user'' \<and> user_role e \<noteq> ''admin''
      then Inl (user_error i (''invalid role '' @ go_quote (uj_Role e) @ '' (allowed: user, admin)''))
      else if user_role e \<noteq> ''admin'' \<and> uj_UserID e < 1
      then Inl (user_error i (''user_id must be >= 1 for role '' @ go_quote (user_role e)))
      else if gm_get reg (uj_APIKey e) \<noteq> None then Inl (user_error i ''duplicate api_key'')
      else add_users (i + 1) es
             (gm_set (uj_APIKey e) \<lparr>au_UserID = uj_UserID e, au_APIKey = uj_APIKey e, au_Role = user_role e\<rparr> reg))"

definition buildUserRegistry :: "bytes \<Rightarrow> gerror + (bytes, APIUser) gomap option" where
  "buildUserRegistry apiUsersJSON =
     (if trim_space apiUsersJSON = [] then Inr None
      else
        (case unmarshal_slice apiUserJSON_fields zero_apiUserJSON apiUsersJSON of
           None \<Rightarrow> Inl (Wrap ''invalid API_USERS JSON: '' (Plain json_error))
         | Some entries \<Rightarrow>
             (case entries of
                None \<Rightarrow> Inl (Plain ''API_USERS must contain at least one user'')
              | Some [] \<Rightarrow> Inl (Plain ''API_USERS must contain at least one user'')
              | Some es \<Rightarrow> map_sum id Some (add_users 0 es []))))"

subsection \<open>What a registry guarantees\<close>

definition complete_map :: "(int, int) gomap \<Rightarrow> (BoardPonKey, BoardPonConfig) gomap \<Rightarrow> bool" where
  "complete_map boardPons m \<longleftrightarrow>
     (\<forall>s p. gm_get m (s, p) = (if in_topology boardPons s p then Some (bp_cfg (s, p)) else None))"

text \<open>What serving requests needs of an OLT: a topology whose ports all have their identifiers.\<close>

definition mapped_olt :: "OLTRuntimeConfig \<Rightarrow> bool" where
  "mapped_olt cfg \<longleftrightarrow>
     good_topology (olt_Boards cfg) (olt_BoardPons cfg) \<and> complete_map (olt_BoardPons cfg) (olt_BoardPonMap cfg)"

definition good_olt :: "OLTRuntimeConfig \<Rightarrow> bool" where
  "good_olt cfg \<longleftrightarrow>
     olt_Host cfg \<noteq> [] \<and> olt_Community cfg \<noteq> [] \<and> 0 < olt_Port cfg \<and> olt_Port cfg < 65536
     \<and> 1 \<le> olt_MaxConcurrent cfg \<and> valid_pon (olt_PonsPerBoard cfg)
     \<and> mapped_olt cfg"

lemma good_olt_mapped: "good_olt cfg \<Longrightarrow> mapped_olt cfg"
  by (simp add: good_olt_def)

definition good_registry :: "OLTRuntimeConfig list \<Rightarrow> bytes \<Rightarrow> bool" where
  "good_registry olts d \<longleftrightarrow>
     olts \<noteq> [] \<and> distinct (map olt_ID olts) \<and> d \<in> olt_ID ` set olts
     \<and> (\<forall>cfg \<in> set olts. oltIDPattern (olt_ID cfg))"

lemma good_topology_slots: "good_topology bs specs \<Longrightarrow> \<forall>s \<in> fst ` set (topology specs). valid_slot s"
  by (auto simp: good_topology_def good_specs_def topology_def)

lemma oltFromJSON_good:
  assumes "oltFromJSON ord e mc = Inr cfg" "range_order ord"
  shows "good_olt cfg \<and> olt_ID cfg = oj_ID e"
proof -
  obtain boards pons m where s: "parseBoardSpecs (oj_Boards e) (clamp_pons (oj_PonsPerBoard e)) = (boards, pons)"
    and m: "InitializeBoardPonMapFromSpecs ord pons = Inr m"
    using assms(1) by (auto simp: oltFromJSON_def Let_def split: if_splits prod.splits sum.splits)
  have g: "good_topology boards pons"
    using parseBoardSpecs_good [of "oj_Boards e" "clamp_pons (oj_PonsPerBoard e)"] s by simp
  then have wf: "gm_wf pons" by (simp add: good_topology_def good_specs_def)
  have lookup: "complete_map pons m"
    using InitializeBoardPonMapFromSpecs_Inr [OF assms(2) wf good_topology_slots [OF g]] m
    by (auto simp: complete_map_def)
  have port: "0 < (if oj_Port e mod 65536 = 0 then 161 else oj_Port e mod 65536)
    \<and> (if oj_Port e mod 65536 = 0 then 161 else oj_Port e mod 65536) < 65536"
    using pos_mod_sign [of 65536 "oj_Port e"] pos_mod_bound [of 65536 "oj_Port e"] by (auto simp: order_less_le)
  show ?thesis
    using assms(1) s m g lookup port clamp_valid_pon [of "oj_PonsPerBoard e"]
    by (auto simp: oltFromJSON_def Let_def good_olt_def mapped_olt_def split: if_splits)
qed

lemma olts_from_entries_good:
  "\<lbrakk>olts_from_entries ord mc i es = Inr olts; range_order ord\<rbrakk> \<Longrightarrow>
   (\<forall>cfg \<in> set olts. good_olt cfg) \<and> map olt_ID olts = map oj_ID es"
proof (induction es arbitrary: i olts)
  case (Cons e es)
  then obtain cfg rest where "oltFromJSON ord e mc = Inr cfg" "olts_from_entries ord mc (i + 1) es = Inr rest"
    "olts = cfg # rest"
    by (auto split: sum.splits)
  then show ?case using Cons.IH [of "i + 1" rest] Cons.prems(2) oltFromJSON_good [of ord e mc cfg] by auto
qed simp

lemma check_ids_Inr:
  "check_ids olts seen = Inr seen' \<Longrightarrow>
   seen' = rev (map olt_ID olts) @ seen \<and> distinct (map olt_ID olts)
   \<and> set (map olt_ID olts) \<inter> set seen = {} \<and> (\<forall>cfg \<in> set olts. oltIDPattern (olt_ID cfg))"
proof (induction olts arbitrary: seen)
  case (Cons cfg olts)
  then have "check_ids olts (olt_ID cfg # seen) = Inr seen'" "oltIDPattern (olt_ID cfg)" "olt_ID cfg \<notin> set seen"
    by (auto split: if_splits)
  then show ?case using Cons.IH [of "olt_ID cfg # seen"] by auto
qed simp

lemma finish_registry_good:
  assumes "finish_registry env olts = Inr (olts', d)" "olts \<noteq> []"
  shows "olts' = olts \<and> good_registry olts d"
  using assms check_ids_Inr [of olts "[]"]
  by (auto simp: finish_registry_def good_registry_def Let_def split: sum.splits if_splits)

lemma BuildOLTRegistry_good:
  assumes "BuildOLTRegistry ord js env legacy = Inr (olts, d)" "range_order ord"
  shows "good_registry olts d \<and> (js \<noteq> [] \<longrightarrow> (\<forall>cfg \<in> set olts. good_olt cfg))
    \<and> (js = [] \<longrightarrow> (\<exists>cfg. olts = [cfg] \<and> olt_Host cfg \<noteq> [] \<and> olt_Community cfg \<noteq> []
                        \<and> olt_ID cfg = (if olt_ID legacy = [] then ''default'' else olt_ID legacy)
                        \<and> cfg = legacy\<lparr>olt_ID := olt_ID cfg\<rparr>))"
proof (cases "js = []")
  case True
  then show ?thesis
    using assms by (auto simp: BuildOLTRegistry_def split: if_splits dest!: finish_registry_good)
next
  case False
  then obtain e es olts0 where o: "olts_from_entries ord (olt_MaxConcurrent legacy) 0 (e # es) = Inr olts0"
    and f: "finish_registry env olts0 = Inr (olts, d)"
    using assms(1) by (auto simp: BuildOLTRegistry_def split: option.splits list.splits sum.splits)
  have g: "(\<forall>cfg \<in> set olts0. good_olt cfg) \<and> map olt_ID olts0 = map oj_ID (e # es)"
    using olts_from_entries_good [OF o assms(2)] .
  then have "olts0 \<noteq> []" by auto
  then show ?thesis using finish_registry_good [OF f] g False by auto
qed

text \<open>
  A registry that was built has at least one OLT, only URL-safe identifiers, no
  identifier twice, and a default that is one of them. Each OLT read from JSON has a host, a
  community, a port 1..65535, a positive concurrency limit, a well-formed topology and an
  identifier map that answers for exactly the ports of that topology.
\<close>

theorem BuildOLTRegistry_sound:
  assumes "BuildOLTRegistry ord js env legacy = Inr (olts, d)" "range_order ord"
  shows "good_registry olts d \<and> (js \<noteq> [] \<longrightarrow> (\<forall>cfg \<in> set olts. good_olt cfg))"
  using BuildOLTRegistry_good [OF assms] by blast

definition legacy_example :: OLTRuntimeConfig where
  "legacy_example = \<lparr>olt_ID = [], olt_UserID = 0, olt_Host = ''10.0.0.2'', olt_Port = 161,
     olt_Community = ''public'', olt_MaxConcurrent = 5, olt_Boards = [], olt_BoardPons = [],
     olt_PonsPerBoard = 16, olt_BoardPonMap = [], olt_UseWalk = False\<rparr>"

theorem BuildOLTRegistry_sound_witness:
  "good_registry [legacy_example\<lparr>olt_ID := ''default''\<rparr>] ''default''"
proof -
  have "BuildOLTRegistry (\<lambda>m. m) [] [] legacy_example = Inr ([legacy_example\<lparr>olt_ID := ''default''\<rparr>], ''default'')"
    by code_simp
  then show ?thesis using BuildOLTRegistry_sound [of "\<lambda>m. m"] by blast
qed

text \<open>What the entries of the user registry satisfy.\<close>

definition good_user :: "bytes \<Rightarrow> APIUser \<Rightarrow> bool" where
  "good_user k u \<longleftrightarrow>
     au_APIKey u = k \<and> trim_space k \<noteq> [] \<and> au_Role u \<in> {''user'', ''admin''}
     \<and> (IsAdmin u \<or> 1 \<le> au_UserID u)"

lemma add_users_good:
  "\<lbrakk>add_users i es reg = Inr reg'; gm_wf reg; \<forall>(k, u) \<in> set reg. good_user k u\<rbrakk> \<Longrightarrow>
   gm_wf reg' \<and> (\<forall>(k, u) \<in> set reg'. good_user k u)
   \<and> length reg' = length reg + length es \<and> uj_APIKey ` set es \<subseteq> fst ` set reg'
   \<and> fst ` set reg \<subseteq> fst ` set reg'"
proof (induction es arbitrary: i reg)
  case (Cons e es)
  let ?u = "\<lparr>au_UserID = uj_UserID e, au_APIKey = uj_APIKey e, au_Role = user_role e\<rparr>"
  let ?reg = "reg @ [(uj_APIKey e, ?u)]"
  have c: "trim_space (uj_APIKey e) \<noteq> []" "user_role e = ''user'' \<or> user_role e = ''admin''"
    "user_role e = ''admin'' \<or> 1 \<le> uj_UserID e" "gm_get reg (uj_APIKey e) = None"
    and r: "add_users (i + 1) es (gm_set (uj_APIKey e) ?u reg) = Inr reg'"
    using Cons.prems(1) by (auto split: if_splits)
  have fresh: "gm_set (uj_APIKey e) ?u reg = ?reg"
    using c(4) by (intro gm_set_fresh) (simp add: map_of_eq_None_iff)
  have u: "good_user (uj_APIKey e) ?u" using c by (auto simp: good_user_def IsAdmin_def)
  have "gm_wf ?reg" using Cons.prems(2) c(4) by (simp add: map_of_eq_None_iff)
  moreover have "\<forall>(k, u) \<in> set ?reg. good_user k u" using u Cons.prems(3) by simp
  ultimately have "gm_wf reg' \<and> (\<forall>(k, u) \<in> set reg'. good_user k u)
     \<and> length reg' = length ?reg + length es \<and> uj_APIKey ` set es \<subseteq> fst ` set reg'
     \<and> fst ` set ?reg \<subseteq> fst ` set reg'"
    using Cons.IH [of "i + 1" ?reg] r unfolding fresh by blast
  then show ?case by simp
qed simp

lemma buildUserRegistry_good:
  assumes "buildUserRegistry js = Inr users"
  shows "(users = None \<longleftrightarrow> trim_space js = [])
    \<and> (\<forall>reg. users = Some reg \<longrightarrow> reg \<noteq> [] \<and> gm_wf reg
         \<and> (\<forall>k u. gm_get reg k = Some u \<longrightarrow> good_user k u))"
proof (cases "trim_space js = []")
  case True
  then show ?thesis using assms by (simp add: buildUserRegistry_def)
next
  case False
  then obtain e es reg where u: "add_users 0 (e # es) [] = Inr reg" "users = Some reg"
    using assms by (auto simp: buildUserRegistry_def map_sum_def split: option.splits list.splits sum.splits
        simp del: add_users.simps)
  have "gm_wf reg \<and> (\<forall>(k, u) \<in> set reg. good_user k u) \<and> length reg = 1 + length es"
    using add_users_good [OF u(1)] by simp
  then show ?thesis using u(2) False by (auto dest: map_of_SomeD)
qed

lemma trim_space_Nil [simp]: "trim_space [] = []"
  by code_simp

text \<open>
  A user registry that was built is never empty, has one entry per configured user,
  each stored under its own non-blank key with a known role, and lets nobody but an admin
  have the owner id of an unowned OLT (0 or less); when \<open>API_USERS\<close> is blank, and only
  then, per-user authentication is off.
\<close>

theorem buildUserRegistry_sound:
  assumes "buildUserRegistry js = Inr users"
  shows "(users = None \<longleftrightarrow> trim_space js = [])
    \<and> (\<forall>reg. users = Some reg \<longrightarrow> reg \<noteq> [] \<and> gm_wf reg
         \<and> (\<forall>k u. gm_get reg k = Some u \<longrightarrow> good_user k u))"
  using buildUserRegistry_good [OF assms] .

theorem buildUserRegistry_sound_witness:
  "\<exists>reg. buildUserRegistry
      (''[{'' @ quoted ''user_id'' @ '':7,'' @ quoted ''api_key'' @ '':'' @ quoted ''k1'' @ ''}]'') = Inr (Some reg)
    \<and> reg \<noteq> []"
proof -
  have b: "buildUserRegistry
      (''[{'' @ quoted ''user_id'' @ '':7,'' @ quoted ''api_key'' @ '':'' @ quoted ''k1'' @ ''}]'')
    = Inr (Some [(''k1'', \<lparr>au_UserID = 7, au_APIKey = ''k1'', au_Role = ''user''\<rparr>)])"
    by code_simp
  then show ?thesis using buildUserRegistry_sound [OF b] by blast
qed

end
