(* ===== verification/Go_Time.thy ===== *)
theory Go_Time
  imports Go_Strings
begin

text \<open>
  The part of Go's \<open>time\<close> package the source uses: the wall clock fields of a date in
  the proleptic Gregorian calendar, \<open>time.Date\<close> for a month 1..12 and a day 1..31
  (a day past the end of its month moves into the next one), the layout
  \<open>2006-01-02 15:04:05\<close> in both directions, instants as seconds since the Unix epoch
  with nanoseconds, and \<open>Time.Sub\<close>.
\<close>

subsection \<open>The calendar\<close>

definition is_leap :: "int \<Rightarrow> bool" where
  "is_leap y \<longleftrightarrow> y mod 4 = 0 \<and> (y mod 100 \<noteq> 0 \<or> y mod 400 = 0)"

definition days_in :: "int \<Rightarrow> int \<Rightarrow> int" where
  "days_in m y =
     (if m = 2 then (if is_leap y then 29 else 28)
      else if m = 4 \<or> m = 6 \<or> m = 9 \<or> m = 11 then 30 else 31)"

definition days_before :: "int \<Rightarrow> int \<Rightarrow> int" where
  "days_before m y =
     [0, 31, 59, 90, 120, 151, 181, 212, 243, 273, 304, 334] ! nat (m - 1)
     + (if m > 2 \<and> is_leap y then 1 else 0)"

text \<open>Days from 0000-01-01, and the Unix day of a date.\<close>

definition year_days :: "int \<Rightarrow> int" where
  "year_days y = 365 * y + (y + 3) div 4 - (y + 99) div 100 + (y + 399) div 400"

definition unix_days :: "int \<Rightarrow> int \<Rightarrow> int \<Rightarrow> int" where
  "unix_days y m d = year_days y + days_before m y + (d - 1) - 719528"

record datetime =
  dt_year :: int
  dt_month :: int
  dt_day :: int
  dt_hour :: int
  dt_min :: int
  dt_sec :: int

definition go_date :: "int \<Rightarrow> int \<Rightarrow> int \<Rightarrow> int \<Rightarrow> int \<Rightarrow> int \<Rightarrow> datetime" where
  "go_date y m d h mi s =
     (if d \<le> days_in m y then \<lparr>dt_year = y, dt_month = m, dt_day = d, dt_hour = h, dt_min = mi, dt_sec = s\<rparr>
      else if m < 12
      then \<lparr>dt_year = y, dt_month = m + 1, dt_day = d - days_in m y, dt_hour = h, dt_min = mi, dt_sec = s\<rparr>
      else \<lparr>dt_year = y + 1, dt_month = 1, dt_day = d - days_in m y, dt_hour = h, dt_min = mi, dt_sec = s\<rparr>)"

text \<open>Seconds since the epoch of a wall clock read in UTC.\<close>

definition wall_seconds :: "datetime \<Rightarrow> int" where
  "wall_seconds t =
     unix_days (dt_year t) (dt_month t) (dt_day t) * 86400 + dt_hour t * 3600 + dt_min t * 60 + dt_sec t"

definition valid_datetime :: "datetime \<Rightarrow> bool" where
  "valid_datetime t \<longleftrightarrow>
     0 \<le> dt_year t \<and> 1 \<le> dt_month t \<and> dt_month t \<le> 12
     \<and> 1 \<le> dt_day t \<and> dt_day t \<le> days_in (dt_month t) (dt_year t)
     \<and> 0 \<le> dt_hour t \<and> dt_hour t < 24 \<and> 0 \<le> dt_min t \<and> dt_min t < 60
     \<and> 0 \<le> dt_sec t \<and> dt_sec t < 60"

subsection \<open>The layout \<open>2006-01-02 15:04:05\<close>\<close>

definition pad2 :: "int \<Rightarrow> string" where
  "pad2 n = (if n < 10 then CHR ''0'' # dec_str n else dec_str n)"

definition pad4 :: "int \<Rightarrow> string" where
  "pad4 n = (let s = dec_str n in replicate (4 - length s) CHR ''0'' @ s)"

definition format_datetime :: "datetime \<Rightarrow> string" where
  "format_datetime t =
     pad4 (dt_year t) @ ''-'' @ pad2 (dt_month t) @ ''-'' @ pad2 (dt_day t) @ '' ''
     @ pad2 (dt_hour t) @ '':'' @ pad2 (dt_min t) @ '':'' @ pad2 (dt_sec t)"

text \<open>
  \<open>time.Parse\<close> with this layout. Month, day, minute and second are two digits, the
  year is four, the hour is one or two; a blank of the layout stands for any number
  of blanks (none at the end of the value); a fraction may follow the seconds.
\<close>

fun get2 :: "string \<Rightarrow> (int \<times> string) option" where
  "get2 (a # b # r) =
     (if is_digit a \<and> is_digit b then Some (10 * digit_val a + digit_val b, r) else None)"
| "get2 _ = None"

fun get12 :: "string \<Rightarrow> (int \<times> string) option" where
  "get12 [] = None"
| "get12 [a] = (if is_digit a then Some (digit_val a, []) else None)"
| "get12 (a # b # r) =
     (if \<not> is_digit a then None
      else if is_digit b then Some (10 * digit_val a + digit_val b, r)
      else Some (digit_val a, b # r))"

fun get4 :: "string \<Rightarrow> (int \<times> string) option" where
  "get4 (a # b # c # d # r) =
     (if is_digit a \<and> is_digit b \<and> is_digit c \<and> is_digit d
      then Some (((digit_val a * 10 + digit_val b) * 10 + digit_val c) * 10 + digit_val d, r) else None)"
| "get4 _ = None"

fun expect :: "char \<Rightarrow> string \<Rightarrow> string option" where
  "expect c (x # r) = (if x = c then Some r else None)"
| "expect c [] = None"

definition skip_blanks :: "string \<Rightarrow> string option" where
  "skip_blanks s = (case s of
     [] \<Rightarrow> Some []
   | c # r \<Rightarrow> if c = CHR '' '' then Some (dropWhile (\<lambda>x. x = CHR '' '') s) else None)"

definition in_range :: "int \<Rightarrow> int \<Rightarrow> (int \<times> string) option \<Rightarrow> (int \<times> string) option" where
  "in_range lo hi p = (case p of
     None \<Rightarrow> None
   | Some (n, r) \<Rightarrow> if lo \<le> n \<and> n \<le> hi then Some (n, r) else None)"

text \<open>The digits after a decimal point or comma, as nanoseconds.\<close>

definition parse_fraction :: "string \<Rightarrow> int \<times> string" where
  "parse_fraction s = (case s of
     p # d # r \<Rightarrow>
       if (p = CHR ''.'' \<or> p = CHR '','') \<and> is_digit d
       then let ds = takeWhile is_digit (d # r);
                ns = take 9 (ds @ replicate 9 CHR ''0'')
            in (case digits_int 0 ns of Some n \<Rightarrow> (n, dropWhile is_digit (d # r)) | None \<Rightarrow> (0, s))
       else (0, s)
   | _ \<Rightarrow> (0, s))"

definition parse_datetime :: "string \<Rightarrow> (datetime \<times> int) option" where
  "parse_datetime s =
     Option.bind (get4 s) (\<lambda>(y, s).
     Option.bind (expect CHR ''-'' s) (\<lambda>s.
     Option.bind (in_range 1 12 (get2 s)) (\<lambda>(m, s).
     Option.bind (expect CHR ''-'' s) (\<lambda>s.
     Option.bind (get2 s) (\<lambda>(d, s).
     Option.bind (skip_blanks s) (\<lambda>s.
     Option.bind (in_range 0 23 (get12 s)) (\<lambda>(h, s).
     Option.bind (expect CHR '':'' s) (\<lambda>s.
     Option.bind (in_range 0 59 (get2 s)) (\<lambda>(mi, s).
     Option.bind (expect CHR '':'' s) (\<lambda>s.
     Option.bind (in_range 0 59 (get2 s)) (\<lambda>(sec, s).
     (case parse_fraction s of (ns, s) \<Rightarrow>
       if s = [] \<and> 1 \<le> d \<and> d \<le> days_in m y
       then Some (\<lparr>dt_year = y, dt_month = m, dt_day = d, dt_hour = h, dt_min = mi, dt_sec = sec\<rparr>, ns)
       else None))))))))))))"

subsection \<open>Instants and durations\<close>

text \<open>
  An instant: nanoseconds since the epoch. \<open>Time.Sub\<close> saturates at the limits of a
  64-bit \<open>Duration\<close>.
\<close>

type_synonym instant = int

definition instant_of :: "int \<Rightarrow> int \<Rightarrow> instant" where
  "instant_of secs ns = secs * 1000000000 + ns"

definition time_sub :: "instant \<Rightarrow> instant \<Rightarrow> int" where
  "time_sub t u = max (- 9223372036854775808) (min 9223372036854775807 (t - u))"

subsection \<open>Lemmas\<close>

lemma days_in_range: "28 \<le> days_in m y \<and> days_in m y \<le> 31"
  by (simp add: days_in_def)

lemma go_date_valid:
  assumes "0 \<le> y" "1 \<le> m" "m \<le> 12" "1 \<le> d" "d \<le> 31" "0 \<le> h" "h \<le> 23" "0 \<le> mi" "mi \<le> 59" "0 \<le> s" "s \<le> 59"
  shows "valid_datetime (go_date y m d h mi s)"
  using assms days_in_range [of m y] days_in_range [of "m + 1" y]
  by (auto simp: go_date_def valid_datetime_def days_in_def split: if_splits)

lemma go_date_year:
  assumes "m \<le> 12" "d \<le> 31"
  shows "dt_year (go_date y m d h mi s) = y"
  using assms by (auto simp: go_date_def days_in_def split: if_splits)

lemma digit_char_0 [simp]: "digit_char 0 = CHR ''0''"
  by code_simp

lemma dec_str_1: "\<lbrakk>0 \<le> n; n < 10\<rbrakk> \<Longrightarrow> dec_str n = [digit_char n]"
  by (simp add: dec_str.simps)

lemma dec_str_2: "\<lbrakk>10 \<le> n; n < 100\<rbrakk> \<Longrightarrow> dec_str n = [digit_char (n div 10), digit_char (n mod 10)]"
  by (subst dec_str.simps) (simp add: dec_str_1)

lemma pad2_eq: "\<lbrakk>0 \<le> n; n < 100\<rbrakk> \<Longrightarrow> pad2 n = [digit_char (n div 10), digit_char (n mod 10)]"
  by (cases "n < 10") (simp_all add: pad2_def dec_str_1 dec_str_2)

lemma dec_str_3:
  "\<lbrakk>100 \<le> n; n < 1000\<rbrakk> \<Longrightarrow>
   dec_str n = [digit_char (n div 100), digit_char (n div 10 mod 10), digit_char (n mod 10)]"
  by (subst dec_str.simps) (simp add: dec_str_2 zdiv_zmult2_eq [symmetric])

lemma dec_str_4:
  "\<lbrakk>1000 \<le> n; n < 10000\<rbrakk> \<Longrightarrow>
   dec_str n = [digit_char (n div 1000), digit_char (n div 100 mod 10), digit_char (n div 10 mod 10), digit_char (n mod 10)]"
  by (subst dec_str.simps) (simp add: dec_str_3 zdiv_zmult2_eq [symmetric])

lemma pad4_eq:
  assumes "0 \<le> n" "n < 10000"
  shows "pad4 n = [digit_char (n div 1000), digit_char (n div 100 mod 10), digit_char (n div 10 mod 10), digit_char (n mod 10)]"
proof -
  consider "n < 10" | "10 \<le> n" "n < 100" | "100 \<le> n" "n < 1000" | "1000 \<le> n" by linarith
  then show ?thesis
    using assms
    by cases (simp_all add: pad4_def dec_str_1 dec_str_2 dec_str_3 dec_str_4 numeral_eq_Suc)
qed

lemma get2_pad2: "\<lbrakk>0 \<le> n; n < 100\<rbrakk> \<Longrightarrow> get2 (pad2 n @ r) = Some (n, r)"
  by (simp add: pad2_eq)

lemma get12_pad2: "\<lbrakk>0 \<le> n; n < 100\<rbrakk> \<Longrightarrow> get12 (pad2 n @ r) = Some (n, r)"
  by (simp add: pad2_eq)

lemma get4_digits:
  "\<lbrakk>0 \<le> a; a < 10; 0 \<le> b; b < 10; 0 \<le> c; c < 10; 0 \<le> d; d < 10\<rbrakk> \<Longrightarrow>
   get4 ([digit_char a, digit_char b, digit_char c, digit_char d] @ r) = Some (((a * 10 + b) * 10 + c) * 10 + d, r)"
  by simp

lemma digits4:
  "\<lbrakk>n = 10 * q1 + r0; q1 = 10 * q2 + r1; q2 = 10 * q3 + r2\<rbrakk> \<Longrightarrow>
   ((q3 * 10 + r2) * 10 + r1) * 10 + r0 = (n :: int)"
  by simp

lemma get4_pad4: "\<lbrakk>0 \<le> n; n < 10000\<rbrakk> \<Longrightarrow> get4 (pad4 n @ r) = Some (n, r)"
proof -
  assume n: "0 \<le> n" "n < 10000"
  have "n = 10 * (n div 10) + n mod 10" by simp
  moreover have "n div 10 = 10 * (n div 100) + n div 10 mod 10"
    using zdiv_zmult2_eq [of 10 n 10] mult_div_mod_eq [of 10 "n div 10"] by simp
  moreover have "n div 100 = 10 * (n div 1000) + n div 100 mod 10"
    using zdiv_zmult2_eq [of 10 n 100] mult_div_mod_eq [of 10 "n div 100"] by simp
  ultimately have "((n div 1000 * 10 + n div 100 mod 10) * 10 + n div 10 mod 10) * 10 + n mod 10 = n"
    by (rule digits4)
  moreover have "get4 (pad4 n @ r) = Some (((n div 1000 * 10 + n div 100 mod 10) * 10 + n div 10 mod 10) * 10 + n mod 10, r)"
    unfolding pad4_eq [OF n] by (rule get4_digits) (use n in simp_all)
  ultimately show ?thesis by (simp only:)
qed

lemma skip_blanks_pad2: "\<lbrakk>0 \<le> n; n < 100\<rbrakk> \<Longrightarrow> skip_blanks (CHR '' '' # pad2 n @ r) = Some (pad2 n @ r)"
proof -
  assume "0 \<le> n" "n < 100"
  then have "is_digit (digit_char (n div 10))" by simp
  moreover have "\<not> is_digit CHR '' ''" by (simp add: is_digit_def)
  ultimately have "digit_char (n div 10) \<noteq> CHR '' ''" by metis
  with \<open>0 \<le> n\<close> \<open>n < 100\<close> show ?thesis by (simp add: pad2_eq skip_blanks_def)
qed

text \<open>A formatted date with a four-digit year parses back to itself.\<close>

lemma parse_format_datetime:
  assumes "valid_datetime t" "dt_year t < 10000"
  shows "parse_datetime (format_datetime t) = Some (t, 0)"
proof -
  have bounds: "0 \<le> dt_month t" "dt_month t < 100" "0 \<le> dt_day t" "dt_day t < 100"
      "0 \<le> dt_hour t" "dt_hour t < 100" "0 \<le> dt_min t" "dt_min t < 100" "0 \<le> dt_sec t" "dt_sec t < 100"
    using assms(1) days_in_range [of "dt_month t" "dt_year t"] by (auto simp: valid_datetime_def)
  have sec: "get2 (pad2 (dt_sec t)) = Some (dt_sec t, [])"
    using get2_pad2 [of "dt_sec t" "[]"] bounds by simp
  show ?thesis
    using assms bounds
    by (simp add: parse_datetime_def format_datetime_def get4_pad4 get2_pad2 get12_pad2 skip_blanks_pad2
        in_range_def valid_datetime_def parse_fraction_def sec)
qed

lemma days_before_Suc:
  assumes "1 \<le> m" "m < 12"
  shows "days_before (m + 1) y = days_before m y + days_in m y"
proof -
  have "m = 1 \<or> m = 2 \<or> m = 3 \<or> m = 4 \<or> m = 5 \<or> m = 6 \<or> m = 7 \<or> m = 8 \<or> m = 9 \<or> m = 10 \<or> m = 11"
    using assms by presburger
  then show ?thesis by (elim disjE) (simp_all add: days_before_def days_in_def)
qed

text \<open>\<open>time.Date\<close> keeps the instant: the day number counts on from the first of the month.\<close>

lemma wall_seconds_go_date:
  assumes "1 \<le> m" "m \<le> 12" "d \<le> 31"
  shows "wall_seconds (go_date y m d h mi s) =
    (unix_days y m 1 + (d - 1)) * 86400 + h * 3600 + mi * 60 + s"
proof (cases "d \<le> days_in m y")
  case True
  then show ?thesis by (simp add: go_date_def wall_seconds_def unix_days_def)
next
  case False
  then have "m < 12" using assms by (cases "m = 12") (auto simp: days_in_def)
  then show ?thesis
    using False assms days_before_Suc [of m y]
    by (simp add: go_date_def wall_seconds_def unix_days_def)
qed

end
