(* ===== verification/Device_Registry.thy ===== *)
theory Device_Registry
  imports Olt_Config Go_Time
begin

text \<open>
  \<open>config/registry.go\<close>: reading the OLT list and the webhook settings from
  device-registry, with retries at start-up. The clock, \<open>time.Sleep\<close> and the HTTP
  client are the operations of a record over an arbitrary world \<open>'w\<close>; an HTTP call
  returns an error or a status code and a body.
\<close>

record 'w reg_ops =
  rg_now :: "'w \<Rightarrow> instant \<times> 'w"
  rg_sleep :: "int \<Rightarrow> 'w \<Rightarrow> 'w"
  rg_get :: "bytes \<Rightarrow> bytes \<Rightarrow> 'w \<Rightarrow> (gerror + int \<times> bytes) \<times> 'w"

subsection \<open>\<open>time.ParseDuration\<close>\<close>

fun leading_int :: "int \<Rightarrow> bytes \<Rightarrow> (int \<times> bytes) option" where
  "leading_int x [] = Some (x, [])"
| "leading_int x (c # s) =
     (if \<not> is_digit c then Some (x, c # s)
      else if x > 922337203685477580 then None
      else let y = x * 10 + digit_val c in
           if y > 9223372036854775808 then None else leading_int y s)"

fun leading_fraction :: "bool \<Rightarrow> int \<Rightarrow> int \<Rightarrow> bytes \<Rightarrow> int \<times> int \<times> bytes" where
  "leading_fraction ovf x scale [] = (x, scale, [])"
| "leading_fraction ovf x scale (c # s) =
     (if \<not> is_digit c then (x, scale, c # s)
      else if ovf \<or> x > 922337203685477580 then leading_fraction True x scale s
      else let y = x * 10 + digit_val c in
           if y > 9223372036854775808 then leading_fraction True x scale s
           else leading_fraction False y (scale * 10) s)"

definition unit_map :: "(bytes \<times> int) list" where
  "unit_map =
     [(''ns'', 1), (''us'', 1000), (map char_of [0xC2, 0xB5, 0x73 :: int], 1000),
      (map char_of [0xCE, 0xBC, 0x73 :: int], 1000), (''ms'', 1000000), (''s'', 1000000000),
      (''m'', 60000000000), (''h'', 3600000000000)]"

definition frac_value :: "int \<Rightarrow> int \<Rightarrow> int \<Rightarrow> int" where
  "frac_value f scale unit =
     (case f64_mul (f64_of_int f) (fl (of_int unit / of_int scale)) of Fin x \<Rightarrow> \<lfloor>x\<rfloor> | _ \<Rightarrow> 0)"

text \<open>One number with its unit; the fuel of the loop is the length of the text.\<close>

definition duration_part :: "bytes \<Rightarrow> (int \<times> bytes) option" where
  "duration_part s =
     (case leading_int 0 s of
        None \<Rightarrow> None
      | Some (v, s1) \<Rightarrow>
          (let pre = (length s1 \<noteq> length s);
               dot = (case s1 of c # _ \<Rightarrow> c = CHR ''.'' | [] \<Rightarrow> False)
           in case (if dot then leading_fraction False 0 1 (tl s1) else (0, 1, s1)) of
                (f, scale, s2) \<Rightarrow>
                  (let post = (dot \<and> length s2 \<noteq> length (tl s1));
                       u = takeWhile (\<lambda>c. \<not> (c = CHR ''.'' \<or> is_digit c)) s2;
                       s3 = dropWhile (\<lambda>c. \<not> (c = CHR ''.'' \<or> is_digit c)) s2
                   in if \<not> pre \<and> \<not> post then None
                      else case map_of unit_map u of
                        None \<Rightarrow> None
                      | Some unit \<Rightarrow>
                          if v > 9223372036854775808 div unit then None
                          else let v = v * unit; v = (if f > 0 then v + frac_value f scale unit else v)
                               in if v > 9223372036854775808 then None else Some (v, s3))))"

fun duration_loop :: "nat \<Rightarrow> int \<Rightarrow> bytes \<Rightarrow> int option" where
  "duration_loop n d [] = Some d"
| "duration_loop 0 d (c # s) = None"
| "duration_loop (Suc n) d (c # s) =
     (if \<not> (c = CHR ''.'' \<or> is_digit c) then None
      else case duration_part (c # s) of
        None \<Rightarrow> None
      | Some (v, s') \<Rightarrow> if d + v > 9223372036854775808 then None else duration_loop n (d + v) s')"

definition ParseDuration :: "bytes \<Rightarrow> int option" where
  "ParseDuration s =
     (let neg = (case s of c # _ \<Rightarrow> c = CHR ''-'' | [] \<Rightarrow> False);
          sg = (case s of c # _ \<Rightarrow> c = CHR ''-'' \<or> c = CHR ''+'' | [] \<Rightarrow> False);
          u = (if sg then tl s else s)
      in if u = ''0'' then Some 0
         else if u = [] then None
         else case duration_loop (length u) 0 u of
           None \<Rightarrow> None
         | Some d \<Rightarrow> if neg then Some (- d) else if d > 9223372036854775807 then None else Some d)"

definition defaultRegistryStartupTimeout :: int where
  "defaultRegistryStartupTimeout = 60000000000"

definition registryStartupTimeout :: "env \<Rightarrow> int" where
  "registryStartupTimeout env =
     (let v = getEnv env ''REGISTRY_STARTUP_TIMEOUT'' [] in
      if v = [] then defaultRegistryStartupTimeout
      else case ParseDuration v of None \<Rightarrow> defaultRegistryStartupTimeout | Some d \<Rightarrow> d)"

subsection \<open>Fetching\<close>

text \<open>
  The envelope \<open>{"data": [\<dots>]}\<close>; the raw messages are kept as JSON values and written
  out again.
\<close>

definition data_list :: "json \<Rightarrow> json list option option" where
  "data_list j = decode_struct [(''data'', \<lambda>j r. case j of JNull \<Rightarrow> Some None | _ \<Rightarrow> decode_slice Some j)] j None"

definition FetchRegistryOLTS :: "'w reg_ops \<Rightarrow> bytes \<Rightarrow> bytes \<Rightarrow> 'w \<Rightarrow> (gerror + bytes) \<times> 'w" where
  "FetchRegistryOLTS ops baseURL apiKey w =
     (case rg_get ops (baseURL @ ''/v1/registry/snmp'') apiKey w of
        (Inl err, w) \<Rightarrow> (Inl err, w)
      | (Inr (status, body), w) \<Rightarrow>
          (if status \<noteq> 200 then (Inl (Plain (''device-registry returned '' @ itoa status)), w)
           else case Option.bind (json_decode_first body) data_list of
             None \<Rightarrow> (Inl (Wrap ''decode snmp view: '' (Plain json_error)), w)
           | Some d \<Rightarrow>
               (case d of
                  None \<Rightarrow> (Inr [], w)
                | Some [] \<Rightarrow> (Inr [], w)
                | Some js \<Rightarrow> (Inr (json_print (JArr js)), w))))"

definition initialBackoff :: int where "initialBackoff = 1000000000"
definition maxBackoff :: int where "maxBackoff = 8000000000"

definition next_backoff :: "int \<Rightarrow> int" where
  "next_backoff backoff =
     (if backoff < maxBackoff
      then (let backoff = backoff * 2 in if backoff > maxBackoff then maxBackoff else backoff)
      else backoff)"

text \<open>The endless loop; a value \<open>None\<close> is a run that does not return.\<close>

partial_function (option) retry_loop ::
    "'w reg_ops \<Rightarrow> bytes \<Rightarrow> bytes \<Rightarrow> instant \<Rightarrow> int \<Rightarrow> 'w \<Rightarrow> ((gerror + bytes) \<times> 'w) option" where
  [code]: "retry_loop ops baseURL apiKey deadline backoff w =
     (case FetchRegistryOLTS ops baseURL apiKey w of
        (Inr olts, w) \<Rightarrow> Some (Inr olts, w)
      | (Inl err, w) \<Rightarrow>
          (case rg_now ops w of
             (t, w) \<Rightarrow>
               (if \<not> (t + backoff < deadline)
                then Some (Inl (Wrap ''device-registry unreachable, gave up after startup window: '' err), w)
                else retry_loop ops baseURL apiKey deadline (next_backoff backoff) (rg_sleep ops backoff w))))"

definition fetchRegistryOLTSWithRetry ::
    "'w reg_ops \<Rightarrow> env \<Rightarrow> bytes \<Rightarrow> bytes \<Rightarrow> 'w \<Rightarrow> ((gerror + bytes) \<times> 'w) option" where
  "fetchRegistryOLTSWithRetry ops env baseURL apiKey w =
     (case rg_now ops w of
        (t, w) \<Rightarrow> retry_loop ops baseURL apiKey (t + registryStartupTimeout env) initialBackoff w)"

definition FetchRegistryOLTConfigs ::
    "(int, int) range_ord \<Rightarrow> 'w reg_ops \<Rightarrow> bytes \<Rightarrow> bytes \<Rightarrow> OLTRuntimeConfig \<Rightarrow> 'w
     \<Rightarrow> (gerror + OLTRuntimeConfig list option) \<times> 'w" where
  "FetchRegistryOLTConfigs ord ops baseURL apiKey zero w =
     (case FetchRegistryOLTS ops baseURL apiKey w of
        (Inl err, w) \<Rightarrow> (Inl err, w)
      | (Inr js, w) \<Rightarrow>
          (if js = [] then (Inr None, w)
           else case BuildOLTRegistry ord js [] zero of
             Inl err \<Rightarrow> (Inl (Wrap ''parse registry OLTs: '' err), w)
           | Inr (olts, _) \<Rightarrow> (Inr (Some olts), w)))"

subsection \<open>Webhook settings\<close>

record WebhookRemote =
  wr_URL :: bytes
  wr_Type :: bytes
  wr_ChatID :: bytes
  wr_Enabled :: bool
  wr_Retries :: int
  wr_Timeout :: int

definition zero_WebhookRemote :: WebhookRemote where
  "zero_WebhookRemote = \<lparr>wr_URL = [], wr_Type = [], wr_ChatID = [], wr_Enabled = False, wr_Retries = 0,
     wr_Timeout = 0\<rparr>"

definition WebhookRemote_fields :: "WebhookRemote field list" where
  "WebhookRemote_fields =
     [(''url'', \<lambda>j r. map_option (\<lambda>v. r\<lparr>wr_URL := v\<rparr>) (get_str j (wr_URL r))),
      (''type'', \<lambda>j r. map_option (\<lambda>v. r\<lparr>wr_Type := v\<rparr>) (get_str j (wr_Type r))),
      (''chat_id'', \<lambda>j r. map_option (\<lambda>v. r\<lparr>wr_ChatID := v\<rparr>) (get_str j (wr_ChatID r))),
      (''enabled'', \<lambda>j r. map_option (\<lambda>v. r\<lparr>wr_Enabled := v\<rparr>) (get_bool j (wr_Enabled r))),
      (''retries'', \<lambda>j r. map_option (\<lambda>v. r\<lparr>wr_Retries := v\<rparr>) (get_int j (wr_Retries r))),
      (''timeout'', \<lambda>j r. map_option (\<lambda>v. r\<lparr>wr_Timeout := v\<rparr>) (get_int j (wr_Timeout r)))]"

definition FetchWebhookConfig :: "'w reg_ops \<Rightarrow> bytes \<Rightarrow> bytes \<Rightarrow> 'w \<Rightarrow> (gerror + WebhookRemote) \<times> 'w" where
  "FetchWebhookConfig ops baseURL apiKey w =
     (case rg_get ops (baseURL @ ''/v1/webhook'') apiKey w of
        (Inl err, w) \<Rightarrow> (Inl err, w)
      | (Inr (status, body), w) \<Rightarrow>
          (if status \<noteq> 200 then (Inl (Plain (''device-registry returned '' @ itoa status)), w)
           else case Option.bind (json_decode_first body)
                       (\<lambda>j. decode_struct [(''data'', decode_struct WebhookRemote_fields)] j zero_WebhookRemote) of
             None \<Rightarrow> (Inl (Wrap ''decode webhook config: '' (Plain json_error)), w)
           | Some out \<Rightarrow> (Inr out, w)))"

subsection \<open>The retry loop returns\<close>

text \<open>
  What the loop relies on: there is a clock behind \<open>time.Now\<close> that no operation turns
  back, and \<open>time.Sleep\<close> pauses at least as long as it was asked to.
\<close>

definition clock_ok :: "'w reg_ops \<Rightarrow> ('w \<Rightarrow> int) \<Rightarrow> bool" where
  "clock_ok ops clk \<longleftrightarrow>
     (\<forall>w. clk w \<le> fst (rg_now ops w) \<and> fst (rg_now ops w) \<le> clk (snd (rg_now ops w)))
     \<and> (\<forall>d w. 0 \<le> d \<longrightarrow> clk w + d \<le> clk (rg_sleep ops d w))
     \<and> (\<forall>u k w. clk w \<le> clk (snd (rg_get ops u k w)))"

lemma FetchRegistryOLTS_clock:
  "clock_ok ops clk \<Longrightarrow> clk w \<le> clk (snd (FetchRegistryOLTS ops u k w))"
  unfolding clock_ok_def FetchRegistryOLTS_def
  by (auto split: prod.split sum.split option.split list.split) (metis snd_conv)+

lemma next_backoff_ge: "backoff \<le> next_backoff backoff \<or> backoff > maxBackoff \<or> backoff < 0"
  by (auto simp: next_backoff_def Let_def)

lemma next_backoff_pos: "1 \<le> backoff \<Longrightarrow> 1 \<le> next_backoff backoff \<and> (backoff \<le> maxBackoff \<longrightarrow> next_backoff backoff \<le> maxBackoff)"
  by (auto simp: next_backoff_def Let_def maxBackoff_def)

definition gave_up :: "(gerror + bytes) \<Rightarrow> bool" where
  "gave_up r \<longleftrightarrow>
     (\<exists>err. r = Inl (Wrap ''device-registry unreachable, gave up after startup window: '' err))"

lemma retry_loop_returns:
  assumes "clock_ok ops clk" "1 \<le> backoff"
  shows "\<exists>r w'. retry_loop ops u k deadline backoff w = Some (r, w') \<and> (gave_up r \<or> (\<exists>s. r = Inr s))"
  using assms(2)
proof (induction "nat (deadline - clk w)" arbitrary: backoff w rule: less_induct)
  case less
  obtain x w1 where f: "FetchRegistryOLTS ops u k w = (x, w1)" by (cases "FetchRegistryOLTS ops u k w")
  obtain t w2 where n: "rg_now ops w1 = (t, w2)" by (cases "rg_now ops w1")
  show ?case
  proof (cases x)
    case (Inr s)
    then show ?thesis by (subst retry_loop.simps) (simp add: f)
  next
    case (Inl err)
    show ?thesis
    proof (cases "t + backoff < deadline")
      case False
      then show ?thesis by (subst retry_loop.simps) (auto simp: f Inl n gave_up_def)
    next
      case True
      let ?w3 = "rg_sleep ops backoff w2"
      have "clk w \<le> clk w1" using FetchRegistryOLTS_clock [OF assms(1), of w u k] f by simp
      also have "clk w1 \<le> t" using assms(1) n by (metis clock_ok_def fst_conv)
      also have "t \<le> clk w2" using assms(1) n by (metis clock_ok_def fst_conv snd_conv)
      finally have "clk w \<le> clk w2" .
      moreover have "clk w2 + backoff \<le> clk ?w3" using assms(1) less.prems by (simp add: clock_ok_def)
      ultimately have "nat (deadline - clk ?w3) < nat (deadline - clk w)"
        using True less.prems \<open>clk w \<le> clk w1\<close> \<open>clk w1 \<le> t\<close> by linarith
      then have "\<exists>r w'. retry_loop ops u k deadline (next_backoff backoff) ?w3 = Some (r, w') \<and> (gave_up r \<or> (\<exists>s. r = Inr s))"
        using less.hyps next_backoff_pos [OF less.prems] by blast
      then show ?thesis using True by (subst retry_loop.simps) (simp add: f Inl n)
    qed
  qed
qed


text \<open>A world for the witness: the time in nanoseconds; the registry answers from second 5 on.\<close>

definition slow_registry :: "int reg_ops" where
  "slow_registry = \<lparr>rg_now = \<lambda>w. (w, w), rg_sleep = \<lambda>d w. w + d,
     rg_get = \<lambda>u k w. (if w < 5000000000 then Inl (Errno ECONNREFUSED) else Inr (200, ''{}''), w)\<rparr>"


end
