(* ===== verification/Load_Config.thy ===== *)
theory Load_Config
  imports Device_Registry
begin

text \<open>
  \<open>LoadConfig\<close> of \<open>config/config.go\<close>: the whole configuration from the environment,
  and the rule that a production instance does not start without credentials. The result is
  \<open>None\<close> only if the retry loop of the registry client does not return.
\<close>

definition load_SnmpConfig :: "env \<Rightarrow> SnmpConfig" where
  "load_SnmpConfig env = \<lparr>snmp_IP = getEnv env ''SNMP_HOST'' [],
     snmp_Port = getEnvAsUint16 env ''SNMP_PORT'' 161,
     snmp_Community = getEnv env ''SNMP_COMMUNITY'' [],
     snmp_MaxConcurrent = getEnvAsInt env ''SNMP_MAX_CONCURRENT'' 5\<rparr>"

definition load_RedisConfig :: "env \<Rightarrow> RedisConfig" where
  "load_RedisConfig env = \<lparr>rc_Host = getEnv env ''REDIS_HOST'' ''localhost'',
     rc_Port = getEnv env ''REDIS_PORT'' ''6379'',
     rc_Password = getEnv env ''REDIS_PASSWORD'' [],
     rc_DB = getEnvAsInt env ''REDIS_DB'' 0,
     rc_DefaultDB = getEnvAsInt env ''REDIS_DB'' 0,
     rc_MinIdleConnections = getEnvAsInt env ''REDIS_MIN_IDLE_CONNECTIONS'' 10,
     rc_PoolSize = getEnvAsInt env ''REDIS_POOL_SIZE'' 100,
     rc_PoolTimeout = getEnvAsInt env ''REDIS_POOL_TIMEOUT'' 240\<rparr>"

definition load_OltCfg :: "env \<Rightarrow> OltCfgRec" where
  "load_OltCfg env = \<lparr>oc_BaseOID1 = getEnv env ''OLT_BASE_OID_1'' BaseOID1,
     oc_BaseOID2 = getEnv env ''OLT_BASE_OID_2'' BaseOID2,
     oc_OnuIDNameAllPon = getEnv env ''ONU_ID_NAME_PREFIX'' OnuIDNamePrefix,
     oc_OnuTypeAllPon = getEnv env ''ONU_TYPE_PREFIX'' OnuTypePrefix,
     oc_Timezone = getEnv env ''OLT_TIMEZONE'' ''Asia/Jakarta''\<rparr>"

definition load_TrapConfig :: "env \<Rightarrow> bytes \<Rightarrow> TrapConfig" where
  "load_TrapConfig env community = \<lparr>
     tc_Enabled = (getEnv env ''TRAP_ENABLED'' ''false'' = ''true''),
     tc_Port = getEnvAsUint16 env ''TRAP_PORT'' 1620,
     tc_Community = getEnv env ''TRAP_COMMUNITY'' community,
     tc_WebhookURL = getEnv env ''TRAP_WEBHOOK_URL'' [],
     tc_WebhookType = getEnv env ''TRAP_WEBHOOK_TYPE'' [],
     tc_WebhookChatID = getEnv env ''TRAP_WEBHOOK_CHAT_ID'' [],
     tc_CriticalInterval = getEnvAsInt env ''TRAP_CRITICAL_INTERVAL'' 300,
     tc_HighInterval = getEnvAsInt env ''TRAP_HIGH_INTERVAL'' 3600,
     tc_MediumInterval = getEnvAsInt env ''TRAP_MEDIUM_INTERVAL'' 14400,
     tc_LowInterval = getEnvAsInt env ''TRAP_LOW_INTERVAL'' 28800,
     tc_CriticalRepeat = getEnvAsInt env ''TRAP_CRITICAL_REPEAT'' 0,
     tc_HighRepeat = getEnvAsInt env ''TRAP_HIGH_REPEAT'' 0,
     tc_MediumRepeat = getEnvAsInt env ''TRAP_MEDIUM_REPEAT'' 0,
     tc_LowRepeat = getEnvAsInt env ''TRAP_LOW_REPEAT'' 0,
     tc_ActionCritical = getEnv env ''TRAP_ACTION_CRITICAL'' ''Mandatory customer visit within 1x24 hours'',
     tc_ActionHigh = getEnv env ''TRAP_ACTION_HIGH''
       ''Mandatory visit within 1x24 hours if Hard Restart does not resolve'',
     tc_ActionMedium = getEnv env ''TRAP_ACTION_MEDIUM'' ''Mandatory visit within 2x24 hours after notification'',
     tc_ActionLow = getEnv env ''TRAP_ACTION_LOW'' ''Coordinate with customer to ensure no electrical issues'',
     tc_WebhookRetries = getEnvAsInt env ''TRAP_WEBHOOK_RETRIES'' 3,
     tc_WebhookTimeout = getEnvAsInt env ''TRAP_WEBHOOK_TIMEOUT'' 10,
     tc_PowerMonitor = (getEnv env ''POWER_MONITOR_ENABLED'' ''false'' = ''true''),
     tc_PowerMonitorInterval = getEnvAsInt env ''POWER_MONITOR_INTERVAL'' 300,
     tc_PowerMonitorCron = getEnv env ''POWER_MONITOR_CRON'' [],
     tc_PowerMonitorTimezone = getEnv env ''POWER_MONITOR_TIMEZONE'' [],
     tc_RxPowerHighThreshold = getEnvAsFloat64 env ''RX_POWER_HIGH_THRESHOLD'' (Fin (- 8)),
     tc_RxPowerLowThreshold = getEnvAsFloat64 env ''RX_POWER_LOW_THRESHOLD'' (Fin (- 25))\<rparr>"

definition load_CacheConfig :: "env \<Rightarrow> CacheConfig" where
  "load_CacheConfig env = \<lparr>ONUInfoTTL = getEnvAsInt env ''REDIS_ONU_INFO_TTL'' 1800,
     ONUDetailTTL = getEnvAsInt env ''REDIS_ONU_DETAIL_TTL'' 900,
     EmptyOnuIDTTL = getEnvAsInt env ''REDIS_EMPTY_ONU_ID_TTL'' 300,
     PreWarm = (getEnv env ''CACHE_PREWARM'' ''true'' = ''true'')\<rparr>"

definition legacy_olt :: "env \<Rightarrow> Config \<Rightarrow> OLTRuntimeConfig" where
  "legacy_olt env cfg = \<lparr>olt_ID = getEnv env ''DEFAULT_OLT'' ''default'', olt_UserID = 0,
     olt_Host = snmp_IP (SnmpCfg cfg), olt_Port = snmp_Port (SnmpCfg cfg),
     olt_Community = snmp_Community (SnmpCfg cfg), olt_MaxConcurrent = snmp_MaxConcurrent (SnmpCfg cfg),
     olt_Boards = Boards cfg, olt_BoardPons = BoardPons cfg, olt_PonsPerBoard = PonsPerBoard cfg,
     olt_BoardPonMap = BoardPonMap cfg, olt_UseWalk = False\<rparr>"

definition mirror_default :: "OLTRuntimeConfig list \<Rightarrow> bytes \<Rightarrow> Config \<Rightarrow> Config" where
  "mirror_default olts d cfg = (case find (\<lambda>r. olt_ID r = d) olts of
     None \<Rightarrow> cfg
   | Some r \<Rightarrow> cfg\<lparr>
       SnmpCfg := \<lparr>snmp_IP = olt_Host r, snmp_Port = olt_Port r, snmp_Community = olt_Community r,
                   snmp_MaxConcurrent = olt_MaxConcurrent r\<rparr>,
       Boards := olt_Boards r, BoardPons := olt_BoardPons r, PonsPerBoard := olt_PonsPerBoard r,
       BoardPonMap := olt_BoardPonMap r\<rparr>)"

text \<open>From the first settings to the topology: \<open>LoadConfig\<close> up to the registry.\<close>

definition load_base :: "(int, int) range_ord \<Rightarrow> env \<Rightarrow> gerror + Config" where
  "load_base ord env =
     (let snmp = load_SnmpConfig env;
          pons = clamp_pons (getEnvAsInt env ''OLT_PONS_PER_BOARD'' MaxPonID)
      in case parseBoardSpecs (getEnv env ''OLT_BOARDS'' []) pons of (boards, boardPons) \<Rightarrow>
           (case InitializeBoardPonMapFromSpecs ord boardPons of
              Inl err \<Rightarrow> Inl (Wrap ''failed to initialize board/pon map: '' err)
            | Inr m \<Rightarrow> Inr \<lparr>SnmpCfg = snmp, RedisCfg = load_RedisConfig env, OltCfg = load_OltCfg env,
                TrapCfg = load_TrapConfig env (snmp_Community snmp), CacheCfg = load_CacheConfig env,
                Boards = boards, BoardPons = boardPons, PonsPerBoard = pons, BoardPonMap = m, OLTs = [],
                DefaultOLT = [], APIKey = [], APIUsers = None, TrustedProxies = []\<rparr>))"

text \<open>The OLT list: inline or from a file, else from device-registry when it is configured.\<close>

definition load_olts_json ::
    "'w reg_ops \<Rightarrow> env \<Rightarrow> (bytes \<Rightarrow> gerror + bytes) \<Rightarrow> 'w \<Rightarrow> ((gerror + bytes) \<times> 'w) option" where
  "load_olts_json ops env readFile w =
     (case resolveOLTSJSON readFile (getEnv env ''OLTS'' []) (getEnv env ''OLTS_FILE'' []) of
        Inl err \<Rightarrow> Some (Inl err, w)
      | Inr js \<Rightarrow>
          (let regURL = getEnv env ''REGISTRY_URL'' [] in
           if trim_space js = [] \<and> regURL \<noteq> []
           then (case fetchRegistryOLTSWithRetry ops env regURL (getEnv env ''REGISTRY_API_KEY'' []) w of
                   None \<Rightarrow> None
                 | Some (Inl err, w) \<Rightarrow> Some (Inl (Wrap ''REGISTRY_URL: '' err), w)
                 | Some (Inr js, w) \<Rightarrow> Some (Inr js, w))
           else Some (Inr js, w)))"

text \<open>Credentials, the production rule, and the default OLT in the top-level fields.\<close>

definition load_finish :: "env \<Rightarrow> Config \<Rightarrow> OLTRuntimeConfig list \<Rightarrow> bytes \<Rightarrow> gerror + Config" where
  "load_finish env cfg olts defaultOLT =
     (let cfg = cfg\<lparr>OLTs := olts, DefaultOLT := defaultOLT, APIKey := getEnv env ''API_KEY'' []\<rparr>
      in case buildUserRegistry (getEnv env ''API_USERS'' []) of
           Inl err \<Rightarrow> Inl err
         | Inr apiUsers \<Rightarrow>
             (let cfg = cfg\<lparr>APIUsers := apiUsers\<rparr> in
              if getEnv env ''APP_ENV'' [] = ''production'' \<and> APIKey cfg = [] \<and> APIUsers cfg = None
              then Inl (Plain ''API_KEY or API_USERS is required in production (set APP_ENV=development to bypass)'')
              else Inr (mirror_default olts defaultOLT
                          (cfg\<lparr>TrustedProxies := getEnv env ''RATE_LIMIT_TRUSTED_PROXIES'' []\<rparr>))))"

definition LoadConfig ::
    "(int, int) range_ord \<Rightarrow> 'w reg_ops \<Rightarrow> env \<Rightarrow> (bytes \<Rightarrow> gerror + bytes) \<Rightarrow> 'w
     \<Rightarrow> ((gerror + Config) \<times> 'w) option" where
  "LoadConfig ord ops env readFile w =
     (case load_base ord env of
        Inl err \<Rightarrow> Some (Inl err, w)
      | Inr cfg \<Rightarrow>
          (case load_olts_json ops env readFile w of
             None \<Rightarrow> None
           | Some (Inl err, w) \<Rightarrow> Some (Inl err, w)
           | Some (Inr js, w) \<Rightarrow>
               (case BuildOLTRegistry ord js (getEnv env ''DEFAULT_OLT'' []) (legacy_olt env cfg) of
                  Inl err \<Rightarrow> Some (Inl err, w)
                | Inr (olts, d) \<Rightarrow> Some (load_finish env cfg olts d, w))))"

subsection \<open>What a loaded configuration guarantees\<close>

lemma load_base_good:
  assumes "load_base ord env = Inr cfg" "range_order ord"
  shows "good_topology (Boards cfg) (BoardPons cfg) \<and> complete_map (BoardPons cfg) (BoardPonMap cfg)"
proof -
  let ?p = "parseBoardSpecs (getEnv env ''OLT_BOARDS'' []) (clamp_pons (getEnvAsInt env ''OLT_PONS_PER_BOARD'' MaxPonID))"
  obtain boards pons where p: "?p = (boards, pons)" by (cases ?p)
  obtain m where m: "InitializeBoardPonMapFromSpecs ord pons = Inr m"
    and cfg: "Boards cfg = boards" "BoardPons cfg = pons" "BoardPonMap cfg = m"
    using assms(1) p by (auto simp: load_base_def Let_def split: sum.splits)
  have g: "good_topology boards pons" using parseBoardSpecs_good p by (metis fst_conv snd_conv)
  then have wf: "gm_wf pons" by (simp add: good_topology_def good_specs_def)
  have "complete_map pons m"
    using InitializeBoardPonMapFromSpecs_Inr [OF assms(2) wf good_topology_slots [OF g]] m
    by (auto simp: complete_map_def)
  with g cfg show ?thesis by simp
qed

lemma mirror_default_other:
  "APIKey (mirror_default olts d cfg) = APIKey cfg \<and> APIUsers (mirror_default olts d cfg) = APIUsers cfg
   \<and> OLTs (mirror_default olts d cfg) = OLTs cfg \<and> DefaultOLT (mirror_default olts d cfg) = DefaultOLT cfg"
  by (simp add: mirror_default_def split: option.splits)

lemma find_id:
  assumes "d \<in> olt_ID ` set olts"
  shows "\<exists>r \<in> set olts. olt_ID r = d \<and> find (\<lambda>r. olt_ID r = d) olts = Some r"
  using assms by (induction olts) auto

lemma complete_map_validates:
  "\<lbrakk>range_order ord; good_topology bs pons; complete_map pons m\<rbrakk> \<Longrightarrow> ValidateConfig ord pons m = None"
  by (subst ValidateConfig_iff) (auto simp: good_topology_def good_specs_def complete_map_def)

definition good_config :: "Config \<Rightarrow> bool" where
  "good_config cfg \<longleftrightarrow>
     good_registry (OLTs cfg) (DefaultOLT cfg) \<and> good_topology (Boards cfg) (BoardPons cfg)
     \<and> complete_map (BoardPons cfg) (BoardPonMap cfg)"

lemma load_finish_good:
  assumes "load_finish env cfg olts d = Inr cfg'" "good_registry olts d" "\<forall>r \<in> set olts. mapped_olt r"
  shows "good_config cfg' \<and> OLTs cfg' = olts \<and> APIKey cfg' = getEnv env ''API_KEY'' []
    \<and> buildUserRegistry (getEnv env ''API_USERS'' []) = Inr (APIUsers cfg')
    \<and> (getEnv env ''APP_ENV'' [] = ''production'' \<longrightarrow> APIKey cfg' \<noteq> [] \<or> APIUsers cfg' \<noteq> None)"
proof -
  obtain users where u: "buildUserRegistry (getEnv env ''API_USERS'' []) = Inr users"
    using assms(1) by (auto simp: load_finish_def Let_def split: sum.splits)
  obtain r where r: "r \<in> set olts" "olt_ID r = d" "find (\<lambda>r. olt_ID r = d) olts = Some r"
    using assms(2) find_id by (metis good_registry_def)
  have "mapped_olt r" using assms(3) r(1) by blast
  then show ?thesis
    using assms(1, 2) u r(3)
    by (auto simp: load_finish_def Let_def good_config_def mapped_olt_def mirror_default_def split: if_splits)
qed

lemma LoadConfig_good:
  assumes "LoadConfig ord ops env readFile w = Some (Inr cfg, w')" "range_order ord"
  shows "good_config cfg \<and> (\<forall>r \<in> set (OLTs cfg). mapped_olt r) \<and> APIKey cfg = getEnv env ''API_KEY'' []
    \<and> buildUserRegistry (getEnv env ''API_USERS'' []) = Inr (APIUsers cfg)
    \<and> (getEnv env ''APP_ENV'' [] = ''production'' \<longrightarrow> APIKey cfg \<noteq> [] \<or> APIUsers cfg \<noteq> None)"
proof -
  obtain cfg0 js olts d where b: "load_base ord env = Inr cfg0"
    and reg: "BuildOLTRegistry ord js (getEnv env ''DEFAULT_OLT'' []) (legacy_olt env cfg0) = Inr (olts, d)"
    and fin: "load_finish env cfg0 olts d = Inr cfg"
    using assms(1) by (auto simp: LoadConfig_def split: sum.splits option.splits prod.splits)
  have g: "good_topology (Boards cfg0) (BoardPons cfg0)" "complete_map (BoardPons cfg0) (BoardPonMap cfg0)"
    using load_base_good [OF b assms(2)] by auto
  have m: "\<forall>r \<in> set olts. mapped_olt r"
  proof (cases "js = []")
    case True
    then obtain r where r: "olts = [r]" "r = (legacy_olt env cfg0)\<lparr>olt_ID := olt_ID r\<rparr>"
      using BuildOLTRegistry_good [OF reg assms(2)] by blast
    have "olt_Boards r = Boards cfg0" "olt_BoardPons r = BoardPons cfg0" "olt_BoardPonMap r = BoardPonMap cfg0"
      by (subst r(2); simp add: legacy_olt_def)+
    with g r(1) show ?thesis by (simp add: mapped_olt_def)
  next
    case False
    then show ?thesis using BuildOLTRegistry_good [OF reg assms(2)] good_olt_mapped by blast
  qed
  have "good_registry olts d" using BuildOLTRegistry_good [OF reg assms(2)] by blast
  from load_finish_good [OF fin this m] m show ?thesis by auto
qed

text \<open>
  A configuration that was loaded has a well-formed OLT registry; its top-level
  topology is well-formed, passes the validation and its identifier map is complete for it;
  and an instance that says it runs in production has an API key or a user registry.
\<close>

theorem LoadConfig_sound:
  assumes "LoadConfig ord ops env readFile w = Some (Inr cfg, w')" "range_order ord" "range_order ord'"
  shows "good_config cfg \<and> ValidateConfig ord' (BoardPons cfg) (BoardPonMap cfg) = None
    \<and> (getEnv env ''APP_ENV'' [] = ''production'' \<longrightarrow> APIKey cfg \<noteq> [] \<or> APIUsers cfg \<noteq> None)"
  using LoadConfig_good [OF assms(1,2)] complete_map_validates [OF assms(3)] by (auto simp: good_config_def)

definition small_env :: env where
  "small_env k =
     (if k = ''OLT_BOARDS'' then ''3:1'' else if k = ''SNMP_HOST'' then ''10.0.0.2''
      else if k = ''SNMP_COMMUNITY'' then ''public'' else if k = ''APP_ENV'' then ''production''
      else if k = ''API_KEY'' then ''k1'' else [])"

definition loads :: "((gerror + Config) \<times> int) option \<Rightarrow> bool" where
  "loads r = (case r of Some (Inr cfg, w) \<Rightarrow> True | _ \<Rightarrow> False)"

theorem LoadConfig_sound_witness:
  "\<exists>cfg w'. LoadConfig (\<lambda>m. m) slow_registry small_env (\<lambda>_. Inl (Plain [])) 0 = Some (Inr cfg, w')
     \<and> good_config cfg"
proof -
  have "loads (LoadConfig (\<lambda>m. m) slow_registry small_env (\<lambda>_. Inl (Plain [])) 0)" by code_simp
  then obtain cfg w' where l: "LoadConfig (\<lambda>m. m) slow_registry small_env (\<lambda>_. Inl (Plain [])) 0 = Some (Inr cfg, w')"
    by (auto simp: loads_def split: option.splits sum.splits)
  with LoadConfig_sound [OF l, of "\<lambda>m. m"] show ?thesis by auto
qed

end
