(* ===== verification/Middleware.thy ===== *)
theory Middleware
  imports App_Errors Load_Config
begin

text \<open>
  \<open>internal/middleware\<close> and \<open>internal/reqctx\<close>. A handler takes the request, the
  values of its context, the response headers set so far and the world; a middleware is a function
  from handlers to handlers, as in the source. Deadlines are left out; metrics,
  access log and audit log are in \<open>Http_Observed\<close>.

  Of other packages: \<open>allow\<close> is the decision of the rate limiter of \<open>golang.org/x/time/rate\<close>,
  \<open>new_id\<close> is \<open>xid.New\<close>, and the addresses of \<open>net/netip\<close> are a record of
  operations.
\<close>

subsection \<open>Requests, contexts and responses\<close>

text \<open>
  \<open>rq_Header\<close> gives the values of a header, \<open>rq_Query\<close> is the parsed query of the URL,
  and \<open>rq_Param\<close> are the URL parameters the router has matched.
\<close>

record request =
  rq_Method :: bytes
  rq_Path :: bytes
  rq_RemoteAddr :: bytes
  rq_Header :: "bytes \<Rightarrow> bytes list"
  rq_Query :: "(bytes, bytes list) gomap"
  rq_Param :: "bytes \<Rightarrow> bytes"
  rq_Body :: bytes

definition header_get :: "request \<Rightarrow> bytes \<Rightarrow> bytes" where
  "header_get r k = (case rq_Header r k of [] \<Rightarrow> [] | v # _ \<Rightarrow> v)"

definition query_get :: "request \<Rightarrow> bytes \<Rightarrow> bytes" where
  "query_get r k = (case gm_get (rq_Query r) k of Some (v # _) \<Rightarrow> v | _ \<Rightarrow> [])"

record Principal =
  pr_UserID :: int
  pr_Admin :: bool

record 'e req_ctx =
  cx_RequestID :: "bytes option"
  cx_Principal :: "Principal option"
  cx_BoardID :: "int option"
  cx_PonID :: "int option"
  cx_OnuID :: "int option"
  cx_Entry :: "'e option"

definition Background :: "'e req_ctx" where
  "Background = \<lparr>cx_RequestID = None, cx_Principal = None, cx_BoardID = None, cx_PonID = None, cx_OnuID = None, cx_Entry = None\<rparr>"

definition WithRequestID :: "bytes \<Rightarrow> 'e req_ctx \<Rightarrow> 'e req_ctx" where
  "WithRequestID i cx = cx\<lparr>cx_RequestID := Some i\<rparr>"

definition RequestIDFromContext :: "'e req_ctx \<Rightarrow> bytes" where
  "RequestIDFromContext cx = (case cx_RequestID cx of None \<Rightarrow> [] | Some i \<Rightarrow> i)"

definition WithPrincipal :: "Principal \<Rightarrow> 'e req_ctx \<Rightarrow> 'e req_ctx" where
  "WithPrincipal p cx = cx\<lparr>cx_Principal := Some p\<rparr>"

datatype body = JsonBody json | TextBody bytes

type_synonym headers = "(bytes, bytes) gomap"

record response =
  rs_Status :: int
  rs_Headers :: headers
  rs_Body :: body

type_synonym ('e, 'w) handler = "request \<Rightarrow> 'e req_ctx \<Rightarrow> headers \<Rightarrow> 'w \<Rightarrow> response \<times> 'w"

text \<open>\<open>SendJSONResponse\<close> and \<open>http.Error\<close> on the headers set so far.\<close>

definition send_reply :: "headers \<Rightarrow> reply \<Rightarrow> response" where
  "send_reply h rp = \<lparr>rs_Status = rp_status rp, rs_Headers = gm_set ''Content-Type'' ''application/json'' h,
     rs_Body = JsonBody (rp_body rp)\<rparr>"

definition http_Error :: "headers \<Rightarrow> bytes \<Rightarrow> int \<Rightarrow> response" where
  "http_Error h msg code = \<lparr>rs_Status = code,
     rs_Headers = gm_set ''X-Content-Type-Options'' ''nosniff'' (gm_set ''Content-Type'' ''text/plain; charset=utf-8'' h),
     rs_Body = TextBody (msg @ [CHR 0x0A])\<rparr>"

subsection \<open>Request id, version and security headers\<close>

definition RequestID_mw :: "('w \<Rightarrow> bytes \<times> 'w) \<Rightarrow> ('e, 'w) handler \<Rightarrow> ('e, 'w) handler" where
  "RequestID_mw new_id nxt r cx h w =
     (case (if header_get r ''X-Request-ID'' = [] then new_id w else (header_get r ''X-Request-ID'', w)) of
        (i, w) \<Rightarrow> nxt r (WithRequestID i cx) (gm_set ''X-Request-ID'' i h) w)"

record APIVersionConfig =
  av_APIVersion :: bytes
  av_APIVersionHeader :: bytes
  av_AppVersion :: bytes
  av_AppVersionHeader :: bytes
  av_Commit :: bytes
  av_CommitHeader :: bytes

definition DefaultAPIVersionConfig :: "bytes \<Rightarrow> bytes \<Rightarrow> bytes \<Rightarrow> APIVersionConfig" where
  "DefaultAPIVersionConfig apiVersion appVersion commit =
     \<lparr>av_APIVersion = apiVersion, av_APIVersionHeader = ''X-API-Version'', av_AppVersion = appVersion,
      av_AppVersionHeader = ''X-App-Version'', av_Commit = commit, av_CommitHeader = ''X-Build-Commit''\<rparr>"

definition set_nonempty :: "bytes \<Rightarrow> bytes \<Rightarrow> headers \<Rightarrow> headers" where
  "set_nonempty k v h = (if v = [] then h else gm_set k v h)"

definition APIVersionHeader :: "APIVersionConfig \<Rightarrow> ('e, 'w) handler \<Rightarrow> ('e, 'w) handler" where
  "APIVersionHeader cfg nxt r cx h w =
     (let h1 = (if av_APIVersionHeader cfg = [] then ''X-API-Version'' else av_APIVersionHeader cfg);
          h2 = (if av_AppVersionHeader cfg = [] then ''X-App-Version'' else av_AppVersionHeader cfg);
          h3 = (if av_CommitHeader cfg = [] then ''X-Build-Commit'' else av_CommitHeader cfg)
      in nxt r cx (set_nonempty h3 (av_Commit cfg) (set_nonempty h2 (av_AppVersion cfg)
                     (set_nonempty h1 (av_APIVersion cfg) h))) w)"

definition security_headers :: "(bytes \<times> bytes) list" where
  "security_headers =
     [(''X-Frame-Options'', ''DENY''), (''X-Content-Type-Options'', ''nosniff''),
      (''X-XSS-Protection'', ''1; mode=block''), (''Referrer-Policy'', ''strict-origin-when-cross-origin''),
      (''Content-Security-Policy'', ''default-src '' @ [CHR 0x27] @ ''self'' @ [CHR 0x27])]"

definition SecurityHeaders :: "('e, 'w) handler \<Rightarrow> ('e, 'w) handler" where
  "SecurityHeaders nxt r cx h w = nxt r cx (fold (\<lambda>(k, v). gm_set k v) security_headers h) w"

subsection \<open>Rate and size limits\<close>

definition rateLimitExemptPaths :: "bytes list" where
  "rateLimitExemptPaths = [''/health'', ''/healthz'', ''/ready'', ''/readyz'', ''/metrics'']"

definition RateLimiter :: "('w \<Rightarrow> bool \<times> 'w) \<Rightarrow> ('e, 'w) handler \<Rightarrow> ('e, 'w) handler" where
  "RateLimiter allow nxt r cx h w =
     (if rq_Path r \<in> set rateLimitExemptPaths then nxt r cx h w
      else (case allow w of
              (True, w) \<Rightarrow> nxt r cx h w
            | (False, w) \<Rightarrow> (http_Error h ''Rate limit exceeded. Please try again later.'' 429, w)))"

text \<open>
  A handler that reads on after \<open>maxBytes\<close> bytes gets an error, as it does at the end of the
  body: for a decoder of one JSON value the body ends there.
\<close>

definition MaxBodySize :: "nat \<Rightarrow> ('e, 'w) handler \<Rightarrow> ('e, 'w) handler" where
  "MaxBodySize maxBytes nxt r cx h w = nxt (r\<lparr>rq_Body := take maxBytes (rq_Body r)\<rparr>) cx h w"

subsection \<open>Authentication and ownership\<close>

definition writeUnauthorized :: "'e req_ctx \<Rightarrow> reply" where
  "writeUnauthorized cx = ErrorUnauthorized (RequestIDFromContext cx) (Some (NewUnauthorizedError ''invalid or missing API key''))"

definition APIKeyAuth :: "env \<Rightarrow> ('e, 'w) handler \<Rightarrow> ('e, 'w) handler" where
  "APIKeyAuth getenv nxt r cx h w =
     (if getenv ''API_KEY'' \<noteq> [] \<and> header_get r ''X-API-Key'' \<noteq> getenv ''API_KEY''
      then (send_reply h (writeUnauthorized cx), w) else nxt r cx h w)"

text \<open>\<open>users\<close> is \<open>None\<close> when per-tenant authentication is off.\<close>

definition Authenticator ::
    "(bytes, Principal) gomap option \<Rightarrow> bytes \<Rightarrow> ('e, 'w) handler \<Rightarrow> ('e, 'w) handler" where
  "Authenticator users legacyKey nxt r cx h w =
     (let key = header_get r ''X-API-Key'' in
      case users of
        Some us \<Rightarrow>
          (case gm_get us key of
             Some p \<Rightarrow> if key = [] then (send_reply h (writeUnauthorized cx), w) else nxt r (WithPrincipal p cx) h w
           | None \<Rightarrow> (send_reply h (writeUnauthorized cx), w))
      | None \<Rightarrow>
          (if legacyKey \<noteq> [] \<and> key \<noteq> legacyKey then (send_reply h (writeUnauthorized cx), w) else nxt r cx h w))"

text \<open>The registry of principals that \<open>App.Start\<close> makes of the configured users.\<close>

definition principals :: "(bytes, APIUser) gomap option \<Rightarrow> (bytes, Principal) gomap option" where
  "principals users =
     (case users of
        None \<Rightarrow> None
      | Some us \<Rightarrow>
          (if us = [] then None
           else Some (map (\<lambda>(key, u). (key, \<lparr>pr_UserID = au_UserID u, pr_Admin = IsAdmin u\<rparr>)) us)))"

definition owns :: "'e req_ctx \<Rightarrow> int \<Rightarrow> bool" where
  "owns cx userID \<longleftrightarrow> (case cx_Principal cx of None \<Rightarrow> True | Some p \<Rightarrow> pr_Admin p \<or> pr_UserID p = userID)"

definition RequireOLTOwner :: "int \<Rightarrow> ('e, 'w) handler \<Rightarrow> ('e, 'w) handler" where
  "RequireOLTOwner oltUserID nxt r cx h w =
     (if owns cx oltUserID then nxt r cx h w
      else (send_reply h (ErrorNotFound (RequestIDFromContext cx)
              (Some (NewNotFoundError ''olt'' (JStr (rq_Param r ''olt_id''))))), w))"

subsection \<open>URL parameters\<close>

definition legacyBoardPons :: "(int, int) gomap" where
  "legacyBoardPons = [(1, 16), (2, 16)]"

definition board_pons_or_legacy :: "(int, int) gomap \<Rightarrow> (int, int) gomap" where
  "board_pons_or_legacy m = (if m = [] then legacyBoardPons else m)"

definition invalid_board :: "(int, int) gomap \<Rightarrow> bytes \<Rightarrow> gerror" where
  "invalid_board boardPons boardID =
     NewValidationError ''board_id is not a configured GPON slot''
       [(''received'', JStr boardID), (''allowed'', JArr (map jint (sort (map fst boardPons))))]"

definition invalid_pon :: "int \<Rightarrow> int \<Rightarrow> bytes \<Rightarrow> gerror" where
  "invalid_pon maxPon board ponID =
     NewValidationError (''pon_id must be between 1 and '' @ itoa maxPon @ '' for board '' @ itoa board)
       [(''received'', JStr ponID)]"

definition ValidateBoardPonParams :: "(int, int) gomap \<Rightarrow> ('e, 'w) handler \<Rightarrow> ('e, 'w) handler" where
  "ValidateBoardPonParams boardPons0 nxt r cx h w =
     (let boardPons = board_pons_or_legacy boardPons0;
          boardID = rq_Param r ''board_id'';
          ponID = rq_Param r ''pon_id'';
          reject = (\<lambda>e. (send_reply h (HandleError (RequestIDFromContext cx) (Some e)), w))
      in case atoi boardID of
           None \<Rightarrow> reject (invalid_board boardPons boardID)
         | Some b \<Rightarrow>
             (case gm_get boardPons b of
                None \<Rightarrow> reject (invalid_board boardPons boardID)
              | Some maxPon \<Rightarrow>
                  (case atoi ponID of
                     None \<Rightarrow> reject (invalid_pon maxPon b ponID)
                   | Some p \<Rightarrow>
                       if p < 1 \<or> p > maxPon then reject (invalid_pon maxPon b ponID)
                       else nxt r (cx\<lparr>cx_BoardID := Some b, cx_PonID := Some p\<rparr>) h w)))"

definition ValidateOnuIDParam :: "('e, 'w) handler \<Rightarrow> ('e, 'w) handler" where
  "ValidateOnuIDParam nxt r cx h w =
     (let onuID = rq_Param r ''onu_id'';
          reject = (send_reply h (HandleError (RequestIDFromContext cx)
             (Some (NewValidationError ''onu_id must be between 1 and 128'' [(''received'', JStr onuID)]))), w)
      in case atoi onuID of
           None \<Rightarrow> reject
         | Some n \<Rightarrow> if n < 1 \<or> n > 128 then reject else nxt r (cx\<lparr>cx_OnuID := Some n\<rparr>) h w)"

definition GetBoardID :: "'e req_ctx \<Rightarrow> int \<times> bool" where
  "GetBoardID cx = (case cx_BoardID cx of None \<Rightarrow> (0, False) | Some b \<Rightarrow> (b, True))"

definition GetPonID :: "'e req_ctx \<Rightarrow> int \<times> bool" where
  "GetPonID cx = (case cx_PonID cx of None \<Rightarrow> (0, False) | Some b \<Rightarrow> (b, True))"

definition GetOnuID :: "'e req_ctx \<Rightarrow> int \<times> bool" where
  "GetOnuID cx = (case cx_OnuID cx of None \<Rightarrow> (0, False) | Some b \<Rightarrow> (b, True))"

subsection \<open>CORS settings\<close>

definition getEnvAsSlice :: "env \<Rightarrow> bytes \<Rightarrow> bytes list \<Rightarrow> bytes list" where
  "getEnvAsSlice getenv key dflt =
     (let v = getenv key in
      if v = [] then dflt else filter (\<lambda>s. s \<noteq> []) (map trim_space (split_on CHR '','' v)))"

text \<open>\<open>strconv.ParseBool\<close>.\<close>

definition parse_bool :: "bytes \<Rightarrow> bool option" where
  "parse_bool s =
     (if s \<in> {''1'', ''t'', ''T'', ''TRUE'', ''true'', ''True''} then Some True
      else if s \<in> {''0'', ''f'', ''F'', ''FALSE'', ''false'', ''False''} then Some False
      else None)"

definition getEnvAsBool_mw :: "env \<Rightarrow> bytes \<Rightarrow> bool \<Rightarrow> bool" where
  "getEnvAsBool_mw getenv key dflt = (case parse_bool (getenv key) of Some b \<Rightarrow> b | None \<Rightarrow> dflt)"

definition getEnvAsInt_mw :: "env \<Rightarrow> bytes \<Rightarrow> int \<Rightarrow> int" where
  "getEnvAsInt_mw getenv key dflt = (case atoi (getenv key) of Some n \<Rightarrow> n | None \<Rightarrow> dflt)"

record cors_options =
  co_AllowedOrigins :: "bytes list"
  co_AllowedMethods :: "bytes list"
  co_AllowedHeaders :: "bytes list"
  co_ExposedHeaders :: "bytes list"
  co_AllowCredentials :: bool
  co_MaxAge :: int

definition cors_options_of :: "env \<Rightarrow> cors_options" where
  "cors_options_of getenv =
     \<lparr>co_AllowedOrigins = getEnvAsSlice getenv ''CORS_ALLOWED_ORIGINS'' [''https://*'', ''http://*''],
      co_AllowedMethods = getEnvAsSlice getenv ''CORS_ALLOWED_METHODS'' [''GET'', ''POST'', ''PUT'', ''DELETE'', ''OPTIONS''],
      co_AllowedHeaders = getEnvAsSlice getenv ''CORS_ALLOWED_HEADERS''
        [''Accept'', ''Authorization'', ''Content-Type'', ''X-API-Key'', ''X-Request-ID''],
      co_ExposedHeaders = [''Link'', ''X-Request-ID''],
      co_AllowCredentials = getEnvAsBool_mw getenv ''CORS_ALLOW_CREDENTIALS'' False,
      co_MaxAge = getEnvAsInt_mw getenv ''CORS_MAX_AGE'' 300\<rparr>"

subsection \<open>The client's address\<close>

text \<open>
  \<open>ip_parse\<close> and \<open>ip_prefix\<close> are \<open>netip.ParseAddr\<close> and \<open>netip.ParsePrefix\<close>
  followed by \<open>Masked\<close>; \<open>ip_unmap\<close>, \<open>ip_text\<close>, \<open>ip_single\<close> (the prefix of one address)
  and \<open>ip_in\<close> (\<open>Prefix.Contains\<close>) are the methods, and \<open>ip_host\<close> is the host of
  \<open>net.SplitHostPort\<close>.
\<close>

record ('a, 'p) ip_ops =
  ip_parse :: "bytes \<Rightarrow> gerror + 'a"
  ip_prefix :: "bytes \<Rightarrow> gerror + 'p"
  ip_unmap :: "'a \<Rightarrow> 'a"
  ip_text :: "'a \<Rightarrow> bytes"
  ip_single :: "'a \<Rightarrow> 'p"
  ip_in :: "'p \<Rightarrow> 'a \<Rightarrow> bool"
  ip_host :: "bytes \<Rightarrow> bytes option"

fun parse_entries :: "('a, 'p) ip_ops \<Rightarrow> bytes list \<Rightarrow> gerror + 'p list" where
  "parse_entries ops [] = Inr []"
| "parse_entries ops (e # es) =
     (let entry = trim_space e;
          here = (if entry = [] then Inr []
                  else if contains entry ''/'' then
                    (case ip_prefix ops entry of Inl err \<Rightarrow> Inl err | Inr p \<Rightarrow> Inr [p])
                  else (case ip_parse ops entry of Inl err \<Rightarrow> Inl err | Inr a \<Rightarrow> Inr [ip_single ops (ip_unmap ops a)]))
      in case here of
           Inl err \<Rightarrow> Inl (Wrap (''trusted proxy '' @ go_quote entry @ '': '') err)
         | Inr ps \<Rightarrow> (case parse_entries ops es of Inl err \<Rightarrow> Inl err | Inr rest \<Rightarrow> Inr (ps @ rest)))"

definition ParseTrustedProxies :: "('a, 'p) ip_ops \<Rightarrow> bytes \<Rightarrow> gerror + 'p list" where
  "ParseTrustedProxies ops raw = parse_entries ops (split_on CHR '','' raw)"

definition trusted_contains :: "('a, 'p) ip_ops \<Rightarrow> 'p list \<Rightarrow> 'a \<Rightarrow> bool" where
  "trusted_contains ops t a = list_ex (\<lambda>p. ip_in ops p (ip_unmap ops a)) t"

text \<open>The hops from right to left.\<close>

fun walk_hops :: "('a, 'p) ip_ops \<Rightarrow> 'p list \<Rightarrow> bytes \<Rightarrow> bytes list \<Rightarrow> bytes \<Rightarrow> bytes" where
  "walk_hops ops t peer [] client = client"
| "walk_hops ops t peer (hop # hops) client =
     (case ip_parse ops (trim_space hop) of
        Inl _ \<Rightarrow> peer
      | Inr a \<Rightarrow>
          (let client = ip_text ops (ip_unmap ops a) in
           if \<not> trusted_contains ops t a then client else walk_hops ops t peer hops client))"

definition ResolveClientIP :: "('a, 'p) ip_ops \<Rightarrow> 'p list \<Rightarrow> bytes \<Rightarrow> bytes list \<Rightarrow> bytes \<Rightarrow> bytes" where
  "ResolveClientIP ops t remoteAddr xff xRealIP =
     (let peer = (case ip_host ops remoteAddr of Some host \<Rightarrow> host | None \<Rightarrow> remoteAddr) in
      case ip_parse ops peer of
        Inl _ \<Rightarrow> peer
      | Inr peerAddr \<Rightarrow>
          (let peer = ip_text ops (ip_unmap ops peerAddr) in
           if \<not> trusted_contains ops t peerAddr then peer
           else
             (let fwd = join '','' xff in
              if trim_space fwd \<noteq> [] then walk_hops ops t peer (rev (split_on CHR '','' fwd)) peer
              else
                (let real = trim_space xRealIP in
                 if real = [] then peer
                 else (case ip_parse ops real of Inl _ \<Rightarrow> peer | Inr a \<Rightarrow> ip_text ops (ip_unmap ops a))))))"

definition ClientIP :: "('a, 'p) ip_ops \<Rightarrow> 'p list \<Rightarrow> request \<Rightarrow> bytes" where
  "ClientIP ops t r = ResolveClientIP ops t (rq_RemoteAddr r) (rq_Header r ''X-Forwarded-For'') (header_get r ''X-Real-IP'')"

lemma drop_seqs_mem: "\<lbrakk>\<forall>q \<in> set seqs. c \<notin> set q; c \<in> set s\<rbrakk> \<Longrightarrow> c \<in> set (drop_seqs seqs n s)"
proof (induction seqs n s rule: drop_seqs.induct)
  case (2 seqs n s)
  show ?case
  proof (cases "find (has_prefix s) seqs")
    case None
    then show ?thesis using 2(3) by simp
  next
    case (Some q)
    have q: "q \<in> set seqs" "has_prefix s q" using Some by (auto simp: find_Some_iff)
    obtain r where r: "s = q @ r" using q(2) by (metis has_prefix_iff)
    have "c \<in> set r" using 2(2,3) q(1) unfolding r by auto
    then show ?thesis using 2(1) [OF Some 2(2)] Some unfolding r by simp
  qed
qed simp

lemma trim_space_comma: "CHR '','' \<in> set s \<Longrightarrow> trim_space s \<noteq> []"
proof -
  assume s: "CHR '','' \<in> set s"
  have q: "\<forall>q \<in> set space_seqs. CHR '','' \<notin> set q" by code_simp
  then have "CHR '','' \<in> set (trim_left s)" unfolding trim_left_def using s by (rule drop_seqs_mem)
  moreover have "\<forall>q \<in> set (map rev space_seqs). CHR '','' \<notin> set q" using q by simp
  ultimately have "CHR '','' \<in> set (trim_space s)"
    unfolding trim_space_def trim_right_def by (simp add: drop_seqs_mem)
  then show ?thesis by auto
qed

text \<open>Trusted hops are passed over; the first other one is the answer, whatever comes after it.\<close>

lemma walk_hops_stops:
  assumes "\<forall>x \<in> set proxies. \<exists>a. ip_parse ops (trim_space x) = Inr a \<and> trusted_contains ops t a"
    and "ip_parse ops (trim_space hop) = Inr client" "\<not> trusted_contains ops t client"
  shows "walk_hops ops t peer (proxies @ hop # hops) c = ip_text ops (ip_unmap ops client)"
  using assms(1) by (induction proxies arbitrary: c) (auto simp: assms(2,3))


text \<open>Addresses as their texts.\<close>

definition text_ips :: "(bytes, bytes) ip_ops" where
  "text_ips = \<lparr>ip_parse = (\<lambda>s. if s = [] then Inl (Plain ''unable to parse IP'') else Inr s),
     ip_prefix = (\<lambda>s. Inr s), ip_unmap = (\<lambda>a. a), ip_text = (\<lambda>a. a), ip_single = (\<lambda>a. a),
     ip_in = (\<lambda>p a. p = a), ip_host = (\<lambda>s. Some (takeWhile (\<lambda>c. c \<noteq> CHR '':'') s))\<rparr>"


subsection \<open>The audit log\<close>

definition isReadMethod :: "bytes \<Rightarrow> bool" where
  "isReadMethod m \<longleftrightarrow> m = ''GET'' \<or> m = ''HEAD'' \<or> m = ''OPTIONS''"

definition maskAPIKey :: "bytes \<Rightarrow> bytes" where
  "maskAPIKey key = (if key = [] then ''(none)'' else if length key \<le> 8 then ''***'' else take 8 key @ ''***'')"

end
