(* ===== verification/Onu_Model.thy ===== *)
theory Onu_Model
  imports Go_Json Go_Time
begin

text \<open>
  \<open>internal/model/onu.go\<close>: what the service tells about ONUs, and the JSON that these
  structs are written as and read from.
\<close>

subsection \<open>The structs\<close>

record OnuOltConfig =
  mc_BaseOID :: bytes
  mc_OnuIDNameOID :: bytes
  mc_OnuTypeOID :: bytes
  mc_OnuSerialNumberOID :: bytes
  mc_OnuRxPowerOID :: bytes
  mc_OnuTxPowerOID :: bytes
  mc_OnuStatusOID :: bytes
  mc_OnuIPAddressOID :: bytes
  mc_OnuDescriptionOID :: bytes
  mc_OnuLastOnlineOID :: bytes
  mc_OnuLastOfflineOID :: bytes
  mc_OnuLastOfflineReasonOID :: bytes
  mc_OnuGponOpticalDistanceOID :: bytes

record ONUInfoPerBoard =
  oi_Board :: int
  oi_PON :: int
  oi_ID :: int
  oi_Name :: bytes
  oi_OnuType :: bytes
  oi_SerialNumber :: bytes
  oi_RXPower :: bytes
  oi_Status :: bytes

record ONUCustomerInfo =
  cu_Board :: int
  cu_PON :: int
  cu_ID :: int
  cu_Name :: bytes
  cu_Description :: bytes
  cu_OnuType :: bytes
  cu_SerialNumber :: bytes
  cu_RXPower :: bytes
  cu_TXPower :: bytes
  cu_Status :: bytes
  cu_IPAddress :: bytes
  cu_LastOnline :: bytes
  cu_LastOffline :: bytes
  cu_Uptime :: bytes
  cu_LastDownTimeDuration :: bytes
  cu_LastOfflineReason :: bytes
  cu_GponOpticalDistance :: bytes

record OnuID =
  id_Board :: int
  id_PON :: int
  id_ID :: int

record OnuOnlyID =
  only_ID :: int

record OnuSerialNumber =
  sn_Board :: int
  sn_PON :: int
  sn_ID :: int
  sn_SerialNumber :: bytes

subsection \<open>Zero values\<close>

definition zero_ONUInfoPerBoard :: ONUInfoPerBoard where
  "zero_ONUInfoPerBoard = \<lparr>oi_Board = 0, oi_PON = 0, oi_ID = 0, oi_Name = [], oi_OnuType = [],
     oi_SerialNumber = [], oi_RXPower = [], oi_Status = []\<rparr>"

definition zero_ONUCustomerInfo :: ONUCustomerInfo where
  "zero_ONUCustomerInfo = \<lparr>cu_Board = 0, cu_PON = 0, cu_ID = 0, cu_Name = [], cu_Description = [],
     cu_OnuType = [], cu_SerialNumber = [], cu_RXPower = [], cu_TXPower = [], cu_Status = [],
     cu_IPAddress = [], cu_LastOnline = [], cu_LastOffline = [], cu_Uptime = [],
     cu_LastDownTimeDuration = [], cu_LastOfflineReason = [], cu_GponOpticalDistance = []\<rparr>"

definition zero_OnuID :: OnuID where
  "zero_OnuID = \<lparr>id_Board = 0, id_PON = 0, id_ID = 0\<rparr>"

definition zero_OnuOnlyID :: OnuOnlyID where
  "zero_OnuOnlyID = \<lparr>only_ID = 0\<rparr>"

definition zero_OnuSerialNumber :: OnuSerialNumber where
  "zero_OnuSerialNumber = \<lparr>sn_Board = 0, sn_PON = 0, sn_ID = 0, sn_SerialNumber = []\<rparr>"

subsection \<open>Writing and reading\<close>

definition json_ONUInfoPerBoard :: "ONUInfoPerBoard \<Rightarrow> json" where
  "json_ONUInfoPerBoard r = JObj
     [(''board'', jint (oi_Board r)), (''pon'', jint (oi_PON r)), (''onu_id'', jint (oi_ID r)),
      (''name'', JStr (oi_Name r)), (''onu_type'', JStr (oi_OnuType r)),
      (''serial_number'', JStr (oi_SerialNumber r)), (''rx_power'', JStr (oi_RXPower r)),
      (''status'', JStr (oi_Status r))]"

definition ONUInfoPerBoard_fields :: "ONUInfoPerBoard field list" where
  "ONUInfoPerBoard_fields =
     [(''board'', \<lambda>j r. map_option (\<lambda>v. r\<lparr>oi_Board := v\<rparr>) (get_int j (oi_Board r))),
      (''pon'', \<lambda>j r. map_option (\<lambda>v. r\<lparr>oi_PON := v\<rparr>) (get_int j (oi_PON r))),
      (''onu_id'', \<lambda>j r. map_option (\<lambda>v. r\<lparr>oi_ID := v\<rparr>) (get_int j (oi_ID r))),
      (''name'', \<lambda>j r. map_option (\<lambda>v. r\<lparr>oi_Name := v\<rparr>) (get_str j (oi_Name r))),
      (''onu_type'', \<lambda>j r. map_option (\<lambda>v. r\<lparr>oi_OnuType := v\<rparr>) (get_str j (oi_OnuType r))),
      (''serial_number'', \<lambda>j r. map_option (\<lambda>v. r\<lparr>oi_SerialNumber := v\<rparr>) (get_str j (oi_SerialNumber r))),
      (''rx_power'', \<lambda>j r. map_option (\<lambda>v. r\<lparr>oi_RXPower := v\<rparr>) (get_str j (oi_RXPower r))),
      (''status'', \<lambda>j r. map_option (\<lambda>v. r\<lparr>oi_Status := v\<rparr>) (get_str j (oi_Status r)))]"

definition json_OnuID :: "OnuID \<Rightarrow> json" where
  "json_OnuID r = JObj
     [(''board'', jint (id_Board r)), (''pon'', jint (id_PON r)), (''onu_id'', jint (id_ID r))]"

definition OnuID_fields :: "OnuID field list" where
  "OnuID_fields =
     [(''board'', \<lambda>j r. map_option (\<lambda>v. r\<lparr>id_Board := v\<rparr>) (get_int j (id_Board r))),
      (''pon'', \<lambda>j r. map_option (\<lambda>v. r\<lparr>id_PON := v\<rparr>) (get_int j (id_PON r))),
      (''onu_id'', \<lambda>j r. map_option (\<lambda>v. r\<lparr>id_ID := v\<rparr>) (get_int j (id_ID r)))]"

definition json_OnuOnlyID :: "OnuOnlyID \<Rightarrow> json" where
  "json_OnuOnlyID r = JObj [(''onu_id'', jint (only_ID r))]"

definition OnuOnlyID_fields :: "OnuOnlyID field list" where
  "OnuOnlyID_fields = [(''onu_id'', \<lambda>j r. map_option (\<lambda>v. r\<lparr>only_ID := v\<rparr>) (get_int j (only_ID r)))]"

definition json_OnuSerialNumber :: "OnuSerialNumber \<Rightarrow> json" where
  "json_OnuSerialNumber r = JObj
     [(''board'', jint (sn_Board r)), (''pon'', jint (sn_PON r)), (''onu_id'', jint (sn_ID r)),
      (''serial_number'', JStr (sn_SerialNumber r))]"

definition OnuSerialNumber_fields :: "OnuSerialNumber field list" where
  "OnuSerialNumber_fields =
     [(''board'', \<lambda>j r. map_option (\<lambda>v. r\<lparr>sn_Board := v\<rparr>) (get_int j (sn_Board r))),
      (''pon'', \<lambda>j r. map_option (\<lambda>v. r\<lparr>sn_PON := v\<rparr>) (get_int j (sn_PON r))),
      (''onu_id'', \<lambda>j r. map_option (\<lambda>v. r\<lparr>sn_ID := v\<rparr>) (get_int j (sn_ID r))),
      (''serial_number'', \<lambda>j r. map_option (\<lambda>v. r\<lparr>sn_SerialNumber := v\<rparr>) (get_str j (sn_SerialNumber r)))]"

definition json_ONUCustomerInfo :: "ONUCustomerInfo \<Rightarrow> json" where
  "json_ONUCustomerInfo r = JObj
     [(''board'', jint (cu_Board r)), (''pon'', jint (cu_PON r)), (''onu_id'', jint (cu_ID r)),
      (''name'', JStr (cu_Name r)), (''description'', JStr (cu_Description r)),
      (''onu_type'', JStr (cu_OnuType r)), (''serial_number'', JStr (cu_SerialNumber r)),
      (''rx_power'', JStr (cu_RXPower r)), (''tx_power'', JStr (cu_TXPower r)),
      (''status'', JStr (cu_Status r)), (''ip_address'', JStr (cu_IPAddress r)),
      (''last_online'', JStr (cu_LastOnline r)), (''last_offline'', JStr (cu_LastOffline r)),
      (''uptime'', JStr (cu_Uptime r)), (''last_down_time_duration'', JStr (cu_LastDownTimeDuration r)),
      (''offline_reason'', JStr (cu_LastOfflineReason r)),
      (''gpon_optical_distance'', JStr (cu_GponOpticalDistance r))]"

definition str_field :: "bytes \<Rightarrow> ('r \<Rightarrow> bytes) \<Rightarrow> ((bytes \<Rightarrow> bytes) \<Rightarrow> 'r \<Rightarrow> 'r) \<Rightarrow> 'r field" where
  "str_field name get upd = (name, \<lambda>j r. map_option (\<lambda>v. upd (\<lambda>_. v) r) (get_str j (get r)))"

definition ONUCustomerInfo_fields :: "ONUCustomerInfo field list" where
  "ONUCustomerInfo_fields =
     [(''board'', \<lambda>j r. map_option (\<lambda>v. r\<lparr>cu_Board := v\<rparr>) (get_int j (cu_Board r))),
      (''pon'', \<lambda>j r. map_option (\<lambda>v. r\<lparr>cu_PON := v\<rparr>) (get_int j (cu_PON r))),
      (''onu_id'', \<lambda>j r. map_option (\<lambda>v. r\<lparr>cu_ID := v\<rparr>) (get_int j (cu_ID r))),
      str_field ''name'' cu_Name cu_Name_update,
      str_field ''description'' cu_Description cu_Description_update,
      str_field ''onu_type'' cu_OnuType cu_OnuType_update,
      str_field ''serial_number'' cu_SerialNumber cu_SerialNumber_update,
      str_field ''rx_power'' cu_RXPower cu_RXPower_update,
      str_field ''tx_power'' cu_TXPower cu_TXPower_update,
      str_field ''status'' cu_Status cu_Status_update,
      str_field ''ip_address'' cu_IPAddress cu_IPAddress_update,
      str_field ''last_online'' cu_LastOnline cu_LastOnline_update,
      str_field ''last_offline'' cu_LastOffline cu_LastOffline_update,
      str_field ''uptime'' cu_Uptime cu_Uptime_update,
      str_field ''last_down_time_duration'' cu_LastDownTimeDuration cu_LastDownTimeDuration_update,
      str_field ''offline_reason'' cu_LastOfflineReason cu_LastOfflineReason_update,
      str_field ''gpon_optical_distance'' cu_GponOpticalDistance cu_GponOpticalDistance_update]"

subsection \<open>Codecs\<close>

text \<open>
  The interface of a struct that is cached: a value that is storable (its numbers fit an
  \<open>int\<close>, its texts are UTF-8) is read back as it was written, at a small nesting depth.
\<close>

locale json_codec =
  fixes enc :: "'a \<Rightarrow> json" and dec :: "json \<Rightarrow> 'a option" and storable :: "'a \<Rightarrow> bool"
  assumes dec_enc: "storable x \<Longrightarrow> dec (enc x) = Some x"
    and enc_wf: "storable x \<Longrightarrow> wf_json (enc x)"
    and enc_depth: "jdepth (enc x) \<le> 1"
begin

lemma elems_depth_enc: "elems_depth (map enc xs) \<le> 1"
  using enc_depth by (induction xs) (auto simp: max_def)

lemma one_roundtrip: "storable x \<Longrightarrow> Option.bind (json_parse (json_print (enc x))) dec = Some x"
  using json_parse_print [OF enc_wf, of x] enc_depth [of x] by (simp add: MaxNestingDepth_def dec_enc)

lemma slice_roundtrip:
  assumes "\<forall>xs. sl = Some xs \<longrightarrow> (\<forall>x \<in> set xs. storable x)"
  shows "Option.bind (json_parse (json_print (json_slice enc sl))) (decode_slice dec) = Some sl"
proof -
  have "wf_json (json_slice enc sl)" using assms by (cases sl) (auto intro: enc_wf)
  moreover have "jdepth (json_slice enc sl) \<le> MaxNestingDepth"
  proof (cases sl)
    case (Some xs)
    then show ?thesis using elems_depth_enc [of xs] by (simp add: MaxNestingDepth_def)
  qed (simp add: MaxNestingDepth_def)
  ultimately have "json_parse (json_print (json_slice enc sl)) = Some (json_slice enc sl)"
    by (rule json_parse_print)
  moreover have "decode_slice dec (json_slice enc sl) = Some sl"
    using assms by (intro decode_json_slice) (auto intro: dec_enc)
  ultimately show ?thesis by simp
qed

end

definition storable_OnuID :: "OnuID \<Rightarrow> bool" where
  "storable_OnuID r \<longleftrightarrow> in_int64 (id_Board r) \<and> in_int64 (id_PON r) \<and> in_int64 (id_ID r)"

definition storable_OnuOnlyID :: "OnuOnlyID \<Rightarrow> bool" where
  "storable_OnuOnlyID r \<longleftrightarrow> in_int64 (only_ID r)"

definition storable_ONUInfo :: "ONUInfoPerBoard \<Rightarrow> bool" where
  "storable_ONUInfo r \<longleftrightarrow> in_int64 (oi_Board r) \<and> in_int64 (oi_PON r) \<and> in_int64 (oi_ID r)
     \<and> valid_utf8 (oi_Name r) \<and> valid_utf8 (oi_OnuType r) \<and> valid_utf8 (oi_SerialNumber r)
     \<and> valid_utf8 (oi_RXPower r) \<and> valid_utf8 (oi_Status r)"

definition storable_Serial :: "OnuSerialNumber \<Rightarrow> bool" where
  "storable_Serial r \<longleftrightarrow> in_int64 (sn_Board r) \<and> in_int64 (sn_PON r) \<and> in_int64 (sn_ID r)
     \<and> valid_utf8 (sn_SerialNumber r)"

definition storable_Customer :: "ONUCustomerInfo \<Rightarrow> bool" where
  "storable_Customer r \<longleftrightarrow> in_int64 (cu_Board r) \<and> in_int64 (cu_PON r) \<and> in_int64 (cu_ID r)
     \<and> list_all valid_utf8
         [cu_Name r, cu_Description r, cu_OnuType r, cu_SerialNumber r, cu_RXPower r, cu_TXPower r,
          cu_Status r, cu_IPAddress r, cu_LastOnline r, cu_LastOffline r, cu_Uptime r,
          cu_LastDownTimeDuration r, cu_LastOfflineReason r, cu_GponOpticalDistance r]"

lemma ascii_names:
  "list_all valid_utf8 [''board'', ''pon'', ''onu_id'', ''name'', ''onu_type'', ''serial_number'',
     ''rx_power'', ''status'', ''description'', ''tx_power'', ''ip_address'', ''last_online'', ''last_offline'',
     ''uptime'', ''last_down_time_duration'', ''offline_reason'', ''gpon_optical_distance'']"
  by code_simp

lemmas ascii_name = ascii_names [unfolded list.pred_inject]

interpretation id_codec: json_codec json_OnuID "\<lambda>j. decode_struct OnuID_fields j zero_OnuID" storable_OnuID
  by unfold_locales (simp_all add: json_OnuID_def OnuID_fields_def zero_OnuID_def storable_OnuID_def find_field_def ascii_name
      del: valid_utf8.simps)

interpretation only_codec:
  json_codec json_OnuOnlyID "\<lambda>j. decode_struct OnuOnlyID_fields j zero_OnuOnlyID" storable_OnuOnlyID
  by unfold_locales
    (simp_all add: json_OnuOnlyID_def OnuOnlyID_fields_def zero_OnuOnlyID_def storable_OnuOnlyID_def find_field_def ascii_name
      del: valid_utf8.simps)

interpretation serial_codec:
  json_codec json_OnuSerialNumber "\<lambda>j. decode_struct OnuSerialNumber_fields j zero_OnuSerialNumber" storable_Serial
  by unfold_locales
    (simp_all add: json_OnuSerialNumber_def OnuSerialNumber_fields_def zero_OnuSerialNumber_def
      storable_Serial_def find_field_def ascii_name
      del: valid_utf8.simps)

interpretation info_codec:
  json_codec json_ONUInfoPerBoard "\<lambda>j. decode_struct ONUInfoPerBoard_fields j zero_ONUInfoPerBoard" storable_ONUInfo
  by unfold_locales
    (simp_all add: json_ONUInfoPerBoard_def ONUInfoPerBoard_fields_def zero_ONUInfoPerBoard_def
      storable_ONUInfo_def find_field_def ascii_name
      del: valid_utf8.simps)

interpretation customer_codec:
  json_codec json_ONUCustomerInfo "\<lambda>j. decode_struct ONUCustomerInfo_fields j zero_ONUCustomerInfo" storable_Customer
  by unfold_locales
    (simp_all add: json_ONUCustomerInfo_def ONUCustomerInfo_fields_def zero_ONUCustomerInfo_def
      storable_Customer_def find_field_def str_field_def ascii_name
      del: valid_utf8.simps)

end
