(* ===== verification/Redis_Repo.thy ===== *)
theory Redis_Repo
  imports Onu_Model App_Errors
begin

text \<open>
  \<open>internal/repository/redis.go\<close>: the cache. The Redis client is a record of operations
  over an arbitrary world; a key that is not there is an error of \<open>Get\<close> (\<open>redis.Nil\<close>).
  A slice is an option: \<open>None\<close> is Go's nil slice, which JSON writes as \<open>null\<close>.
\<close>

record 'w redis_ops =
  rd_get :: "bytes \<Rightarrow> 'w \<Rightarrow> (gerror + bytes) \<times> 'w"
  rd_set :: "bytes \<Rightarrow> bytes \<Rightarrow> int \<Rightarrow> 'w \<Rightarrow> gerror option \<times> 'w"
  rd_del :: "bytes \<Rightarrow> 'w \<Rightarrow> (gerror + int) \<times> 'w"
  rd_ttl :: "bytes \<Rightarrow> 'w \<Rightarrow> (gerror + int) \<times> 'w"

subsection \<open>Reading and writing one key\<close>

text \<open>Get, decode: the common text of the \<open>Get*\<close> methods.\<close>

definition get_key ::
    "'w redis_ops \<Rightarrow> (json \<Rightarrow> 'a option) \<Rightarrow> bytes \<Rightarrow> bytes \<Rightarrow> 'w \<Rightarrow> (gerror + 'a) \<times> 'w" where
  "get_key ops dec what key w =
     (case rd_get ops key w of
        (Inl err, w) \<Rightarrow> (Inl (NewRedisError ''Get'' err), w)
      | (Inr s, w) \<Rightarrow>
          (case Option.bind (json_parse s) dec of
             None \<Rightarrow> (Inl (NewInternalError (''failed to unmarshal '' @ what) (Plain json_error)), w)
           | Some x \<Rightarrow> (Inr x, w)))"

text \<open>\<open>time.Second * time.Duration(seconds)\<close> wraps around like every 64-bit product.\<close>

definition seconds_ttl :: "int \<Rightarrow> int" where
  "seconds_ttl seconds = int64 (1000000000 * seconds)"

definition set_key :: "'w redis_ops \<Rightarrow> bytes \<Rightarrow> int \<Rightarrow> json \<Rightarrow> 'w \<Rightarrow> gerror option \<times> 'w" where
  "set_key ops key seconds j w =
     (case rd_set ops key (json_print j) (seconds_ttl seconds) w of
        (Some err, w) \<Rightarrow> (Some (NewRedisError ''Set'' err), w)
      | (None, w) \<Rightarrow> (None, w))"

subsection \<open>The methods\<close>

definition dec_OnuIDs :: "json \<Rightarrow> OnuID list option option" where
  "dec_OnuIDs = decode_slice (\<lambda>j. decode_struct OnuID_fields j zero_OnuID)"

definition dec_OnuOnlyIDs :: "json \<Rightarrow> OnuOnlyID list option option" where
  "dec_OnuOnlyIDs = decode_slice (\<lambda>j. decode_struct OnuOnlyID_fields j zero_OnuOnlyID)"

definition dec_ONUInfos :: "json \<Rightarrow> ONUInfoPerBoard list option option" where
  "dec_ONUInfos = decode_slice (\<lambda>j. decode_struct ONUInfoPerBoard_fields j zero_ONUInfoPerBoard)"

definition dec_Serials :: "json \<Rightarrow> OnuSerialNumber list option option" where
  "dec_Serials = decode_slice (\<lambda>j. decode_struct OnuSerialNumber_fields j zero_OnuSerialNumber)"

definition GetOnuIDCtx :: "'w redis_ops \<Rightarrow> bytes \<Rightarrow> 'w \<Rightarrow> (gerror + OnuID list option) \<times> 'w" where
  "GetOnuIDCtx ops key w = get_key ops dec_OnuIDs ''onu id'' key w"

definition SetOnuIDCtx :: "'w redis_ops \<Rightarrow> bytes \<Rightarrow> int \<Rightarrow> OnuID list option \<Rightarrow> 'w \<Rightarrow> gerror option \<times> 'w" where
  "SetOnuIDCtx ops key seconds ids w = set_key ops key seconds (json_slice json_OnuID ids) w"

definition DeleteOnuIDCtx :: "'w redis_ops \<Rightarrow> bytes \<Rightarrow> 'w \<Rightarrow> gerror option \<times> 'w" where
  "DeleteOnuIDCtx ops key w =
     (case rd_del ops key w of
        (Inl err, w) \<Rightarrow> (Some (NewRedisError ''Del'' err), w)
      | (Inr _, w) \<Rightarrow> (None, w))"

definition SaveONUInfoList ::
    "'w redis_ops \<Rightarrow> bytes \<Rightarrow> int \<Rightarrow> ONUInfoPerBoard list option \<Rightarrow> 'w \<Rightarrow> gerror option \<times> 'w" where
  "SaveONUInfoList ops key seconds onuInfoList w =
     set_key ops key seconds (json_slice json_ONUInfoPerBoard onuInfoList) w"

definition GetONUInfoList :: "'w redis_ops \<Rightarrow> bytes \<Rightarrow> 'w \<Rightarrow> (gerror + ONUInfoPerBoard list option) \<times> 'w" where
  "GetONUInfoList ops key w = get_key ops dec_ONUInfos ''onu info list'' key w"

definition GetOnlyOnuIDCtx :: "'w redis_ops \<Rightarrow> bytes \<Rightarrow> 'w \<Rightarrow> (gerror + OnuOnlyID list option) \<times> 'w" where
  "GetOnlyOnuIDCtx ops key w = get_key ops dec_OnuOnlyIDs ''onu id'' key w"

definition SaveOnlyOnuIDCtx :: "'w redis_ops \<Rightarrow> bytes \<Rightarrow> int \<Rightarrow> OnuOnlyID list option \<Rightarrow> 'w \<Rightarrow> gerror option \<times> 'w" where
  "SaveOnlyOnuIDCtx ops key seconds ids w = set_key ops key seconds (json_slice json_OnuOnlyID ids) w"

definition Delete :: "'w redis_ops \<Rightarrow> bytes \<Rightarrow> 'w \<Rightarrow> gerror option \<times> 'w" where
  "Delete ops key w =
     (case rd_del ops key w of
        (Inl err, w) \<Rightarrow> (Some (NewRedisError ''Delete'' err), w)
      | (Inr _, w) \<Rightarrow> (None, w))"

definition GetTTL :: "'w redis_ops \<Rightarrow> bytes \<Rightarrow> 'w \<Rightarrow> (gerror + int) \<times> 'w" where
  "GetTTL ops key w = rd_ttl ops key w"

definition SaveONUDetail :: "'w redis_ops \<Rightarrow> bytes \<Rightarrow> int \<Rightarrow> ONUCustomerInfo \<Rightarrow> 'w \<Rightarrow> gerror option \<times> 'w" where
  "SaveONUDetail ops key seconds detail w = set_key ops key seconds (json_ONUCustomerInfo detail) w"

definition GetONUDetail :: "'w redis_ops \<Rightarrow> bytes \<Rightarrow> 'w \<Rightarrow> (gerror + ONUCustomerInfo) \<times> 'w" where
  "GetONUDetail ops key w =
     get_key ops (\<lambda>j. decode_struct ONUCustomerInfo_fields j zero_ONUCustomerInfo) ''ONU detail'' key w"

definition SaveONUSerialList ::
    "'w redis_ops \<Rightarrow> bytes \<Rightarrow> int \<Rightarrow> OnuSerialNumber list option \<Rightarrow> 'w \<Rightarrow> gerror option \<times> 'w" where
  "SaveONUSerialList ops key seconds list w = set_key ops key seconds (json_slice json_OnuSerialNumber list) w"

definition GetONUSerialList :: "'w redis_ops \<Rightarrow> bytes \<Rightarrow> 'w \<Rightarrow> (gerror + OnuSerialNumber list option) \<times> 'w" where
  "GetONUSerialList ops key w = get_key ops dec_Serials ''ONU serial list'' key w"

subsection \<open>What was saved is read\<close>

text \<open>
  The documented behaviour of Redis that the cache relies on: a \<open>GET\<close> right after a
  successful \<open>SET\<close> of the same key, as long as the key has not expired, returns the bytes
  that were set.
\<close>

definition get_after_set :: "'w redis_ops \<Rightarrow> bytes \<Rightarrow> bytes \<Rightarrow> int \<Rightarrow> 'w \<Rightarrow> bool" where
  "get_after_set ops key v ttl w \<longleftrightarrow>
     (\<forall>w'. rd_set ops key v ttl w = (None, w') \<longrightarrow> (\<exists>w''. rd_get ops key w' = (Inr v, w'')))"

lemma get_key_after_set:
  assumes "set_key ops key secs j w = (None, w')"
    and "get_after_set ops key (json_print j) (seconds_ttl secs) w"
    and "Option.bind (json_parse (json_print j)) dec = Some x"
  shows "fst (get_key ops dec what key w') = Inr x"
  using assms by (auto simp: set_key_def get_after_set_def get_key_def split: prod.splits option.splits)


text \<open>
  The list of serial numbers, the list of free ONU numbers and the detail of one
  ONU are read back unchanged as well.
\<close>

theorem serial_ids_detail_roundtrip:
  "(SaveONUSerialList ops key secs sl w = (None, w')
      \<and> get_after_set ops key (json_print (json_slice json_OnuSerialNumber sl)) (seconds_ttl secs) w
      \<and> (\<forall>xs. sl = Some xs \<longrightarrow> (\<forall>x \<in> set xs. storable_Serial x))
      \<longrightarrow> fst (GetONUSerialList ops key w') = Inr sl)
   \<and> (SetOnuIDCtx ops key secs ids w = (None, w')
      \<and> get_after_set ops key (json_print (json_slice json_OnuID ids)) (seconds_ttl secs) w
      \<and> (\<forall>xs. ids = Some xs \<longrightarrow> (\<forall>x \<in> set xs. storable_OnuID x))
      \<longrightarrow> fst (GetOnuIDCtx ops key w') = Inr ids)
   \<and> (SaveONUDetail ops key secs d w = (None, w')
      \<and> get_after_set ops key (json_print (json_ONUCustomerInfo d)) (seconds_ttl secs) w
      \<and> storable_Customer d
      \<longrightarrow> fst (GetONUDetail ops key w') = Inr d)"
  using get_key_after_set [OF _ _ serial_codec.slice_roundtrip, of ops key secs sl w w']
    get_key_after_set [OF _ _ id_codec.slice_roundtrip, of ops key secs ids w w']
    get_key_after_set [OF _ _ customer_codec.one_roundtrip, of ops key secs d w w']
  by (simp add: SaveONUSerialList_def GetONUSerialList_def dec_Serials_def SetOnuIDCtx_def GetOnuIDCtx_def
      dec_OnuIDs_def SaveONUDetail_def GetONUDetail_def)

text \<open>A Redis that never expires a key, for the witnesses.\<close>

definition plain_redis :: "((bytes, bytes) gomap) redis_ops" where
  "plain_redis = \<lparr>
     rd_get = \<lambda>k w. (case gm_get w k of Some v \<Rightarrow> Inr v | None \<Rightarrow> Inl (Plain ''redis: nil''), w),
     rd_set = \<lambda>k v ttl w. (None, gm_set k v w),
     rd_del = \<lambda>k w. (Inr (if gm_get w k = None then 0 else 1), gm_del k w),
     rd_ttl = \<lambda>k w. (Inr (if gm_get w k = None then - 2 else - 1), w)\<rparr>"

lemma plain_redis_get_after_set [simp]: "get_after_set plain_redis k v ttl w"
  by (simp add: get_after_set_def plain_redis_def map_simps)


theorem serial_ids_detail_roundtrip_witness:
  "fst (GetOnuIDCtx plain_redis ''k'' (snd (SetOnuIDCtx plain_redis ''k'' 300 (Some [zero_OnuID]) []))) =
    Inr (Some [zero_OnuID])"
proof -
  let ?s = "SetOnuIDCtx plain_redis ''k'' 300 (Some [zero_OnuID]) []"
  have "?s = (None, snd ?s)" by (simp add: SetOnuIDCtx_def set_key_def plain_redis_def)
  moreover have "storable_OnuID zero_OnuID" by code_simp
  ultimately show ?thesis
    using serial_ids_detail_roundtrip [of plain_redis "''k''" 300 None "[]" "snd ?s" "Some [zero_OnuID]" zero_ONUCustomerInfo]
    by simp
qed

end
