(* ===== verification/Extractors.thy ===== *)
theory Extractors
  imports App_Errors Go_Float Go_Time
begin

text \<open>
  \<open>internal/utils/converter.go\<close> and \<open>internal/utils/extractor.go\<close>: reading the values
  of an SNMP answer. The value of a PDU has one of the Go types that \<open>gosnmp\<close> decodes
  to; \<open>VOther\<close> stands for all types the source does not look at.
\<close>

datatype snmp_value =
    VInt int          \<comment> \<open>\<open>int\<close>: INTEGER\<close>
  | VUint int         \<comment> \<open>\<open>uint\<close>, \<open>uint32\<close>, \<open>uint64\<close>: Gauge32, Counter, TimeTicks\<close>
  | VBytes bytes      \<comment> \<open>\<open>[]byte\<close>: OCTET STRING\<close>
  | VString bytes     \<comment> \<open>\<open>string\<close>: OBJECT IDENTIFIER, IpAddress\<close>
  | VNil              \<comment> \<open>\<open>nil\<close>: noSuchObject, noSuchInstance\<close>
  | VOther

text \<open>A \<open>gosnmp.SnmpPDU\<close>: the name of the variable and its value.\<close>

record snmp_pdu =
  pdu_Name :: bytes
  pdu_Value :: snmp_value

subsection \<open>Converters\<close>

definition ConvertStringToUint16 :: "bytes \<Rightarrow> int" where
  "ConvertStringToUint16 str = (case parse_uint 16 str of None \<Rightarrow> 0 | Some value \<Rightarrow> value)"

definition ConvertStringToInteger :: "bytes \<Rightarrow> int" where
  "ConvertStringToInteger str = (case atoi str of None \<Rightarrow> 0 | Some value \<Rightarrow> value)"

text \<open>A duration is a number of nanoseconds.\<close>

definition ConvertDurationToString :: "int \<Rightarrow> bytes" where
  "ConvertDurationToString duration =
     (let days = duration sdiv 86400000000000;
          duration = duration smod 86400000000000;
          hours = duration sdiv 3600000000000;
          duration = duration smod 3600000000000;
          minutes = duration sdiv 60000000000;
          duration = duration smod 60000000000;
          seconds = duration sdiv 1000000000
      in itoa days @ '' days '' @ itoa hours @ '' hours '' @ itoa minutes @ '' minutes ''
         @ itoa seconds @ '' seconds'')"

text \<open>
  The verb \<open>%d\<close> prints a byte in decimal, also where the byte has become a
  \<open>time.Month\<close>. A byte is not negative, so the lower bounds 0 always hold.
\<close>

definition byte_at :: "bytes \<Rightarrow> nat \<Rightarrow> int" where
  "byte_at b i = of_char (b ! i)"

definition ConvertByteArrayToDateTime :: "bytes \<Rightarrow> gerror + bytes" where
  "ConvertByteArrayToDateTime byteArray =
     (if length byteArray \<noteq> 8
      then Inl (Plain ''invalid byte array length: expected 8 bytes'')
      else
        (let year = byte_at byteArray 0 * 256 + byte_at byteArray 1;
             month = byte_at byteArray 2;
             day = byte_at byteArray 3;
             hour = byte_at byteArray 4;
             minute = byte_at byteArray 5;
             second = byte_at byteArray 6
         in if month < 1 \<or> month > 12 then Inl (Plain (''invalid month: '' @ itoa month))
            else if day < 1 \<or> day > 31 then Inl (Plain (''invalid day: '' @ itoa day))
            else if hour < 0 \<or> hour > 23 then Inl (Plain (''invalid hour: '' @ itoa hour))
            else if minute < 0 \<or> minute > 59 then Inl (Plain (''invalid minute: '' @ itoa minute))
            else if second < 0 \<or> second > 59 then Inl (Plain (''invalid second: '' @ itoa second))
            else Inr (format_datetime (go_date year month day hour minute second))))"

subsection \<open>Extractors\<close>

definition ExtractONUID :: "bytes \<Rightarrow> bytes" where
  "ExtractONUID oid =
     (let lastComponent = last (split_on CHR ''.'' oid)
      in case atoi lastComponent of Some _ \<Rightarrow> lastComponent | None \<Rightarrow> [])"

text \<open>The argument of \<open>ExtractIDOnuID\<close> is always the string \<open>pdu.Name\<close>.\<close>

definition ExtractIDOnuID :: "bytes \<Rightarrow> int" where
  "ExtractIDOnuID oid =
     (case atoi (last (split_on CHR ''.'' oid)) of Some i \<Rightarrow> i | None \<Rightarrow> 0)"

fun ExtractName :: "snmp_value \<Rightarrow> bytes" where
  "ExtractName (VString v) = v"
| "ExtractName (VBytes v) = v"
| "ExtractName _ = ''Unknown''"

fun ExtractSerialNumber :: "snmp_value \<Rightarrow> bytes" where
  "ExtractSerialNumber (VString v) = (if has_prefix v ''1,'' then drop 2 v else v)"
| "ExtractSerialNumber (VBytes v) = (if has_prefix v ''1,'' then drop 2 v else v)"
| "ExtractSerialNumber _ = []"

definition power_scale :: f64 where "power_scale = fl (2 / 1000)"
definition power_offset :: f64 where "power_offset = Fin 30"

fun ConvertAndMultiply :: "snmp_value \<Rightarrow> gerror + bytes" where
  "ConvertAndMultiply (VInt intValue) =
     (let result = f64_mul (f64_of_int intValue) power_scale;
          result = f64_sub result power_offset
      in Inr (format_fixed 2 result))"
| "ConvertAndMultiply _ = Inl (Plain ''value is not an integer'')"

fun ExtractAndGetStatus :: "snmp_value \<Rightarrow> bytes" where
  "ExtractAndGetStatus (VInt n) =
     (if n = 1 then ''Logging'' else if n = 2 then ''LOS'' else if n = 3 then ''Synchronization''
      else if n = 4 then ''Online'' else if n = 5 then ''Dying Gasp'' else if n = 6 then ''Auth Failed''
      else if n = 7 then ''Offline'' else ''Unknown'')"
| "ExtractAndGetStatus _ = ''Unknown''"

fun ExtractLastOfflineReason :: "snmp_value \<Rightarrow> bytes" where
  "ExtractLastOfflineReason (VInt n) =
     (if n = 1 then ''Unknown'' else if n = 2 then ''LOS'' else if n = 3 then ''LOSi''
      else if n = 4 then ''LOFi'' else if n = 5 then ''sfi'' else if n = 6 then ''loai''
      else if n = 7 then ''loami'' else if n = 8 then ''AuthFail'' else if n = 9 then ''PowerOff''
      else if n = 10 then ''deactiveSucc'' else if n = 11 then ''deactiveFail''
      else if n = 12 then ''Reboot'' else if n = 13 then ''Shutdown'' else ''Unknown'')"
| "ExtractLastOfflineReason _ = ''Unknown''"

fun ExtractGponOpticalDistance :: "snmp_value \<Rightarrow> bytes" where
  "ExtractGponOpticalDistance (VInt n) = itoa n"
| "ExtractGponOpticalDistance _ = ''Unknown''"

subsection \<open>Optical power\<close>

text \<open>
  A reading \<open>i\<close> stands for \<open>i * 0.002 - 30\<close> dBm. The two roundings of the floating
  point computation never reach the second decimal of a 32-bit reading.
\<close>

lemma power_scale_value: "power_scale = Fin (4611686018427388 / 2305843009213693952)"
proof -
  have "fl (2 / 1000) = Fin (of_int 4611686018427388 * 2 powi (- 9 - 52))"
    by (rule fl_round) simp_all
  then show ?thesis by (simp add: power_scale_def)
qed

lemma power_zero: "f64_sub (f64_mul (f64_of_int 15000) power_scale) power_offset = Fin 0"
proof -
  have "f64_of_int 15000 = Fin (of_int (15000 * 2 ^ 39) * 2 powi (13 - 52))"
    unfolding f64_of_int_def by (rule fl_round) simp_all
  then have i: "f64_of_int 15000 = Fin 15000" by simp
  have "fl (15000 * (4611686018427388 / 2305843009213693952)) = Fin (of_int (30 * 2 ^ 48) * 2 powi (4 - 52))"
    by (rule fl_round) simp_all
  then have "f64_mul (f64_of_int 15000) power_scale = Fin 30"
    by (simp add: i power_scale_value)
  then show ?thesis by (simp add: f64_sub_def power_offset_def fl_def)
qed

lemma power_error_sum:
  fixes a b i x :: rat
  assumes "\<bar>a - i\<bar> \<le> 1 / 4194304" "\<bar>b - a * (4611686018427388 / 2305843009213693952)\<bar> \<le> 1 / 2147483648"
    "\<bar>x - (b - 30)\<bar> \<le> 1 / 1073741824" "\<bar>i\<bar> \<le> 2147483648"
  shows "\<bar>x - (i - 15000) / 500\<bar> \<le> 1 / 10000"
proof -
  have "4194304 * a - 4194304 * i \<le> 1" "4194304 * i - 4194304 * a \<le> 1"
    using abs_le_D1 [OF assms(1)] abs_le_D2 [OF assms(1)] by (simp_all add: field_simps)
  moreover have "2305843009213693952 * b - a * 4611686018427388 \<le> 1073741824"
    "a * 4611686018427388 - 2305843009213693952 * b \<le> 1073741824"
    using abs_le_D1 [OF assms(2)] abs_le_D2 [OF assms(2)] by (simp_all add: field_simps)
  moreover have "1073741824 * x - 1073741824 * b + 1073741824 * 30 \<le> 1"
    "1073741824 * b - 1073741824 * x - 1073741824 * 30 \<le> 1"
    using abs_le_D1 [OF assms(3)] abs_le_D2 [OF assms(3)] by (simp_all add: field_simps)
  moreover have "i \<le> 2147483648" "- i \<le> 2147483648" using assms(4) by linarith+
  ultimately have "500 * x - (i - 15000) \<le> 500 / 10000" "(i - 15000) - 500 * x \<le> 500 / 10000"
    by linarith+
  then show ?thesis by (intro abs_leI) (simp_all add: field_simps)
qed

lemma power_error:
  assumes "\<bar>i\<bar> \<le> 2147483648"
  shows "\<exists>x. f64_sub (f64_mul (f64_of_int i) power_scale) power_offset = Fin x
    \<and> \<bar>x - (of_int i - 15000) / 500\<bar> \<le> 1 / 10000"
proof -
  let ?c = "4611686018427388 / 2305843009213693952 :: rat"
  have i: "\<bar>of_int i :: rat\<bar> \<le> 2147483648" using assms by (simp flip: of_int_abs)
  obtain a where a: "fl (of_int i) = Fin a" and ea: "\<bar>a - of_int i\<bar> \<le> 1 / 4194304"
    using fl_finite [of "of_int i" 32] fl_error_below [of "of_int i" _ 32] i by auto
  have "\<bar>a\<bar> \<le> 2147483649" using ea i by linarith
  then have ac: "\<bar>a * ?c\<bar> < 8388608" by (simp add: abs_mult)
  obtain b where b: "fl (a * ?c) = Fin b" and eb: "\<bar>b - a * ?c\<bar> \<le> 1 / 2147483648"
    using fl_finite [of "a * ?c" 23] fl_error_below [of "a * ?c" _ 23] ac by auto
  have b30: "\<bar>b - 30\<bar> < 16777216" using eb ac by linarith
  obtain x where x: "fl (b - 30) = Fin x" and ex: "\<bar>x - (b - 30)\<bar> \<le> 1 / 1073741824"
    using fl_finite [of "b - 30" 24] fl_error_below [of "b - 30" _ 24] b30 by auto
  have "f64_sub (f64_mul (f64_of_int i) power_scale) power_offset = Fin x"
    using b x by (simp only: f64_of_int_def a power_scale_value f64_mul.simps b f64_sub_def power_offset_def
        f64_neg.simps f64_add.simps x diff_conv_add_uminus [symmetric])
  moreover have "\<bar>x - (of_int i - 15000) / 500\<bar> \<le> 1 / 10000"
    using ea eb ex i by (rule power_error_sum)
  ultimately show ?thesis by blast
qed

lemma nearest_fifth:
  assumes "0 \<le> k"
  shows "\<bar>of_int k / 5 - of_int ((k + 2) div 5)\<bar> \<le> (2 / 5 :: rat)"
proof -
  define q r where "q = (k + 2) div 5" and "r = (k + 2) mod 5"
  have k: "k = 5 * q + r - 2" and r: "0 \<le> r" "r \<le> 4" by (simp_all add: q_def r_def)
  have r': "(0 :: rat) \<le> of_int r" "of_int r \<le> (4 :: rat)" using r by simp_all
  moreover have "of_int k / 5 - of_int q = ((of_int r - 2) / 5 :: rat)" by (simp add: k field_simps)
  moreover have "\<bar>(of_int r - 2) / 5\<bar> \<le> (2 / 5 :: rat)"
    by (rule abs_leI) (use r' in \<open>simp_all add: field_simps\<close>)
  ultimately have "\<bar>of_int k / 5 - of_int q\<bar> \<le> (2 / 5 :: rat)" by (simp only:)
  then show ?thesis by (simp add: q_def)
qed

text \<open>
  C29. The optical power of a 32-bit reading is printed as the decimal number closest to
  \<open>reading * 0.002 - 30\<close> with two digits: the rounding errors of the floating point
  computation never show.
\<close>

theorem ConvertAndMultiply_exact:
  assumes "\<bar>i\<bar> \<le> 2147483648"
  shows "ConvertAndMultiply (VInt i) =
    Inr ((if i < 15000 then ''-'' else []) @ dec_fixed 2 ((\<bar>i - 15000\<bar> + 2) div 5))"
proof -
  obtain x where x: "f64_sub (f64_mul (f64_of_int i) power_scale) power_offset = Fin x"
    and e: "\<bar>x - (of_int i - 15000) / 500\<bar> \<le> 1 / 10000"
    using power_error [OF assms] by blast
  have sgn: "x < 0 \<longleftrightarrow> i < 15000"
  proof (cases "i = 15000")
    case True
    with x power_zero show ?thesis by simp
  next
    case False
    then have "of_int i \<le> (14999 :: rat) \<or> (15001 :: rat) \<le> of_int i" by (simp add: not_less) linarith
    then show ?thesis
      using abs_le_D1 [OF e] abs_le_D2 [OF e] by (auto simp: field_simps)
  qed
  let ?k = "\<bar>i - 15000\<bar>"
  have "\<bar>\<bar>x\<bar> - of_int ?k / 500\<bar> \<le> 1 / 10000"
    using abs_triangle_ineq3 [of x "(of_int i - 15000) / 500"] e by (simp add: of_int_abs [symmetric])
  then have "\<bar>\<bar>x\<bar> * 10 ^ 2 - of_int ?k / 5\<bar> \<le> 1 / 100" by (simp add: abs_le_iff field_simps)
  moreover have "\<bar>of_int ?k / 5 - of_int ((?k + 2) div 5)\<bar> \<le> (2 / 5 :: rat)"
    by (rule nearest_fifth) simp
  ultimately have "\<bar>\<bar>x\<bar> * 10 ^ 2 - of_int ((?k + 2) div 5)\<bar> < 1 / 2" by linarith
  then have "round_even (\<bar>x\<bar> * 10 ^ 2) = (?k + 2) div 5" by (rule round_even_unique)
  then show ?thesis by (simp add: x sgn)
qed

theorem ConvertAndMultiply_exact_witness:
  "ConvertAndMultiply (VInt 5800) = Inr ''-18.40'' \<and> ConvertAndMultiply (VInt 15012) = Inr ''0.02''"
proof -
  have "''-'' @ dec_fixed 2 1840 = ''-18.40''" "dec_fixed 2 2 = ''0.02''" by code_simp+
  then show ?thesis
    using ConvertAndMultiply_exact [of 5800] ConvertAndMultiply_exact [of 15012] by simp
qed

subsection \<open>Dates and durations\<close>

lemma byte_at_range: "0 \<le> byte_at b i \<and> byte_at b i < 256"
  unfolding byte_at_def by (metis of_char_mod_256 pos_mod_bound pos_mod_sign zero_less_numeral)

lemma duration_units:
  fixes d D r h q m p s t :: int
  assumes "0 \<le> d" "d = 86400000000000 * D + r" "0 \<le> r" "r < 86400000000000"
    and "r = 3600000000000 * h + q" "0 \<le> q" "q < 3600000000000"
    and "q = 60000000000 * m + p" "0 \<le> p" "p < 60000000000"
    and "p = 1000000000 * s + t" "0 \<le> t" "t < 1000000000"
  shows "0 \<le> h \<and> h < 24 \<and> 0 \<le> m \<and> m < 60 \<and> 0 \<le> s \<and> s < 60 \<and> 0 \<le> D
    \<and> D * 86400 + h * 3600 + m * 60 + s = d div 1000000000"
proof -
  have "d = t + (D * 86400 + h * 3600 + m * 60 + s) * 1000000000" using assms by simp
  then have "d div 1000000000 = D * 86400 + h * 3600 + m * 60 + s" using assms(12, 13) by simp
  then show ?thesis using assms by linarith
qed



text \<open>
  The printed duration is the whole number of seconds, split into days, hours below
  24, minutes below 60 and seconds below 60.
\<close>

theorem ConvertDurationToString_split:
  assumes "0 \<le> d"
  shows "\<exists>days h m s. ConvertDurationToString d =
      itoa days @ '' days '' @ itoa h @ '' hours '' @ itoa m @ '' minutes '' @ itoa s @ '' seconds''
    \<and> 0 \<le> h \<and> h < 24 \<and> 0 \<le> m \<and> m < 60 \<and> 0 \<le> s \<and> s < 60 \<and> 0 \<le> days
    \<and> days * 86400 + h * 3600 + m * 60 + s = d div 1000000000"
proof -
  let ?r = "d mod 86400000000000"
  let ?q = "?r mod 3600000000000"
  let ?p = "?q mod 60000000000"
  have "ConvertDurationToString d =
      itoa (d div 86400000000000) @ '' days '' @ itoa (?r div 3600000000000) @ '' hours ''
      @ itoa (?q div 60000000000) @ '' minutes '' @ itoa (?p div 1000000000) @ '' seconds''"
    using assms by (simp add: ConvertDurationToString_def Let_def sdiv_nonneg smod_nonneg)
  moreover have "0 \<le> ?r div 3600000000000 \<and> ?r div 3600000000000 < 24
    \<and> 0 \<le> ?q div 60000000000 \<and> ?q div 60000000000 < 60
    \<and> 0 \<le> ?p div 1000000000 \<and> ?p div 1000000000 < 60 \<and> 0 \<le> d div 86400000000000
    \<and> d div 86400000000000 * 86400 + ?r div 3600000000000 * 3600 + ?q div 60000000000 * 60
       + ?p div 1000000000 = d div 1000000000"
    by (rule duration_units [OF assms])
       (rule mult_div_mod_eq [symmetric] pos_mod_sign pos_mod_bound zero_less_numeral)+
  ultimately show ?thesis by blast
qed

theorem ConvertDurationToString_split_witness:
  "\<exists>days h m s. ConvertDurationToString 93784000000000 =
      itoa days @ '' days '' @ itoa h @ '' hours '' @ itoa m @ '' minutes '' @ itoa s @ '' seconds''
    \<and> days * 86400 + h * 3600 + m * 60 + s = 93784"
  using ConvertDurationToString_split [of 93784000000000] by auto

end
