(* ===== verification/Snmp_Repo.thy ===== *)
theory Snmp_Repo
  imports App_Errors Extractors
begin

text \<open>
  \<open>internal/repository/snmp.go\<close>: reading an OLT through a pool of SNMP connections.

  The first part is what a caller of \<open>Get\<close>, \<open>Walk\<close>, \<open>BulkWalk\<close> and
  \<open>Ping\<close> sees. A connection of \<open>gosnmp\<close> is a record of operations over an
  arbitrary world: a walk delivers PDUs to its callback and then an error or none.

  The second part is the pool itself as a state machine: any number of goroutines that
  run \<open>Get\<close>, \<open>Walk\<close> or \<open>BulkWalk\<close>, and one that runs \<open>Close\<close>,
  interleaved at every access to the semaphore, the closed flag and the channel.
\<close>

subsection \<open>The operations\<close>

record 'w conn_ops =
  cn_Get :: "bytes list \<Rightarrow> 'w \<Rightarrow> (gerror + snmp_pdu list) \<times> 'w"
  cn_Walk :: "bytes \<Rightarrow> 'w \<Rightarrow> (snmp_pdu list \<times> gerror option) \<times> 'w"
  cn_BulkWalk :: "bytes \<Rightarrow> 'w \<Rightarrow> (snmp_pdu list \<times> gerror option) \<times> 'w"

text \<open>\<open>sr_acquire\<close> tells whether the pool hands out a connection.\<close>

record 'w snmp_repo =
  sr_conn :: "'w conn_ops"
  sr_acquire :: "'w \<Rightarrow> bool \<times> 'w"
  sr_useWalk :: bool

definition DefaultPoolSize :: int where "DefaultPoolSize = 4"
definition DefaultMaxConcurrent :: int where "DefaultMaxConcurrent = 5"
definition DefaultMaxRepetitions :: int where "DefaultMaxRepetitions = 20"

definition pool_closed :: gerror where
  "pool_closed = Plain ''SNMP pool closed''"

definition snmp_Get :: "'w snmp_repo \<Rightarrow> bytes list \<Rightarrow> 'w \<Rightarrow> (gerror + snmp_pdu list) \<times> 'w" where
  "snmp_Get r oids w =
     (case sr_acquire r w of
        (False, w) \<Rightarrow> (Inl pool_closed, w)
      | (True, w) \<Rightarrow>
          (case cn_Get (sr_conn r) oids w of
             (Inl err, w) \<Rightarrow> (Inl (Wrap ''SNMP Get failed: '' err), w)
           | (Inr res, w) \<Rightarrow> (Inr res, w)))"

definition snmp_Walk :: "'w snmp_repo \<Rightarrow> bytes \<Rightarrow> 'w \<Rightarrow> (snmp_pdu list \<times> gerror option) \<times> 'w" where
  "snmp_Walk r oid w =
     (case sr_acquire r w of
        (False, w) \<Rightarrow> (([], Some pool_closed), w)
      | (True, w) \<Rightarrow>
          (case cn_Walk (sr_conn r) oid w of
             ((pdus, Some err), w) \<Rightarrow> ((pdus, Some (Wrap ''SNMP Walk failed: '' err)), w)
           | ((pdus, None), w) \<Rightarrow> ((pdus, None), w)))"

definition snmp_BulkWalk :: "'w snmp_repo \<Rightarrow> bytes \<Rightarrow> 'w \<Rightarrow> (snmp_pdu list \<times> gerror option) \<times> 'w" where
  "snmp_BulkWalk r oid w =
     (case sr_acquire r w of
        (False, w) \<Rightarrow> (([], Some pool_closed), w)
      | (True, w) \<Rightarrow>
          (case (if sr_useWalk r then cn_Walk (sr_conn r) oid w else cn_BulkWalk (sr_conn r) oid w) of
             ((pdus, Some err), w) \<Rightarrow> ((pdus, Some (Wrap ''SNMP walk failed: '' err)), w)
           | ((pdus, None), w) \<Rightarrow> ((pdus, None), w)))"

definition snmp_Ping :: "'w snmp_repo \<Rightarrow> 'w \<Rightarrow> gerror option \<times> 'w" where
  "snmp_Ping r w =
     (case snmp_Get r [''1.3.6.1.2.1.1.3.0''] w of
        (Inl err, w) \<Rightarrow> (Some err, w)
      | (Inr _, w) \<Rightarrow> (None, w))"

text \<open>The concurrency limit and the max-repetitions that a repository is created with.\<close>

definition pool_limit :: "int \<Rightarrow> int" where
  "pool_limit maxConcurrent = (if maxConcurrent \<le> 0 then DefaultMaxConcurrent else maxConcurrent)"

definition pool_max_repetitions :: "int \<Rightarrow> int" where
  "pool_max_repetitions seed = (if seed = 0 then DefaultMaxRepetitions else seed)"

text \<open>
  \<open>NewPonRepositoryWithConcurrency\<close> fills the pool: the seed connection, then new
  ones until the pool is full or \<open>Connect\<close> fails.
\<close>

fun fill_pool :: "('w \<Rightarrow> 'c option \<times> 'w) \<Rightarrow> nat \<Rightarrow> 'c list \<Rightarrow> 'w \<Rightarrow> 'c list \<times> 'w" where
  "fill_pool connect 0 pool w = (pool, w)"
| "fill_pool connect (Suc n) pool w =
     (case connect w of
        (None, w) \<Rightarrow> (pool, w)
      | (Some c, w) \<Rightarrow> fill_pool connect n (pool @ [c]) w)"

definition new_pool :: "('w \<Rightarrow> 'c option \<times> 'w) \<Rightarrow> 'c \<Rightarrow> 'w \<Rightarrow> 'c list \<times> 'w" where
  "new_pool connect seed w = fill_pool connect (nat (DefaultPoolSize - 1)) [seed] w"

lemma fill_pool_length: "length (fst (fill_pool connect n pool w)) \<le> length pool + n"
proof (induction n arbitrary: pool w)
  case (Suc n)
  obtain r w1 where c: "connect w = (r, w1)" by (cases "connect w")
  show ?case
  proof (cases r)
    case (Some x)
    then show ?thesis using Suc [of "pool @ [x]" w1] c by simp
  qed (simp add: c)
qed simp

lemma new_pool_size: "length (fst (new_pool connect seed w)) \<le> nat DefaultPoolSize"
  using fill_pool_length [of connect 3 "[seed]" w] by (simp add: new_pool_def DefaultPoolSize_def)

subsection \<open>The pool as a state machine\<close>

text \<open>
  Where a goroutine is: waiting for the semaphore, about to read the closed flag in
  \<open>acquire\<close>, waiting on the channel, using a connection, about to read the flag in
  \<open>release\<close>, about to send the connection back, about to give the semaphore back.
\<close>

datatype 'c gpc =
    Idle
  | CheckClosed
  | Receiving
  | Using 'c
  | Releasing 'c
  | Sending 'c
  | LeaveSem

text \<open>Where the goroutine that runs \<open>Close\<close> is.\<close>

datatype cpc = NotClosing | Flagged | Draining | CloseDone

record 'c pool =
  p_chan :: "'c list"
  p_cap :: nat
  p_flag :: bool
  p_chan_closed :: bool
  p_sem :: nat
  p_max :: nat
  p_closed :: "'c list"
  p_procs :: "'c gpc list"
  p_closer :: cpc

definition goto :: "nat \<Rightarrow> 'c gpc \<Rightarrow> 'c pool \<Rightarrow> 'c pool" where
  "goto i pc s = s\<lparr>p_procs := (p_procs s)[i := pc]\<rparr>"

abbreviation at_pc :: "'c pool \<Rightarrow> nat \<Rightarrow> 'c gpc \<Rightarrow> bool" where
  "at_pc s i pc \<equiv> i < length (p_procs s) \<and> p_procs s ! i = pc"

inductive pool_step :: "'c pool \<Rightarrow> 'c pool \<Rightarrow> bool" where
  enter_sem: "\<lbrakk>at_pc s i Idle; p_sem s < p_max s\<rbrakk>
     \<Longrightarrow> pool_step s (goto i CheckClosed (s\<lparr>p_sem := p_sem s + 1\<rparr>))"
| acquire_refused: "\<lbrakk>at_pc s i CheckClosed; p_flag s\<rbrakk> \<Longrightarrow> pool_step s (goto i LeaveSem s)"
| acquire_open: "\<lbrakk>at_pc s i CheckClosed; \<not> p_flag s\<rbrakk> \<Longrightarrow> pool_step s (goto i Receiving s)"
| receive: "\<lbrakk>at_pc s i Receiving; p_chan s = c # cs\<rbrakk>
     \<Longrightarrow> pool_step s (goto i (Using c) (s\<lparr>p_chan := cs\<rparr>))"
| receive_closed: "\<lbrakk>at_pc s i Receiving; p_chan s = []; p_chan_closed s\<rbrakk>
     \<Longrightarrow> pool_step s (goto i LeaveSem s)"
| operation_done: "at_pc s i (Using c) \<Longrightarrow> pool_step s (goto i (Releasing c) s)"
| release_after_close: "\<lbrakk>at_pc s i (Releasing c); p_flag s\<rbrakk>
     \<Longrightarrow> pool_step s (goto i LeaveSem (s\<lparr>p_closed := c # p_closed s\<rparr>))"
| release_open: "\<lbrakk>at_pc s i (Releasing c); \<not> p_flag s\<rbrakk> \<Longrightarrow> pool_step s (goto i (Sending c) s)"
| send: "\<lbrakk>at_pc s i (Sending c); \<not> p_chan_closed s; length (p_chan s) < p_cap s\<rbrakk>
     \<Longrightarrow> pool_step s (goto i LeaveSem (s\<lparr>p_chan := p_chan s @ [c]\<rparr>))"
| send_panics: "\<lbrakk>at_pc s i (Sending c); p_chan_closed s\<rbrakk>
     \<Longrightarrow> pool_step s (goto i LeaveSem (s\<lparr>p_closed := c # p_closed s\<rparr>))"
| leave_sem: "at_pc s i LeaveSem \<Longrightarrow> pool_step s (goto i Idle (s\<lparr>p_sem := p_sem s - 1\<rparr>))"
| close_flag: "p_closer s = NotClosing \<Longrightarrow> pool_step s (s\<lparr>p_flag := True, p_closer := Flagged\<rparr>)"
| close_channel: "p_closer s = Flagged \<Longrightarrow> pool_step s (s\<lparr>p_chan_closed := True, p_closer := Draining\<rparr>)"
| close_drain: "\<lbrakk>p_closer s = Draining; p_chan s = c # cs\<rbrakk>
     \<Longrightarrow> pool_step s (s\<lparr>p_chan := cs, p_closed := c # p_closed s\<rparr>)"
| close_done: "\<lbrakk>p_closer s = Draining; p_chan s = []\<rbrakk> \<Longrightarrow> pool_step s (s\<lparr>p_closer := CloseDone\<rparr>)"

definition init_pool :: "'c list \<Rightarrow> nat \<Rightarrow> nat \<Rightarrow> nat \<Rightarrow> 'c pool" where
  "init_pool conns cap mx n = \<lparr>p_chan = conns, p_cap = cap, p_flag = False, p_chan_closed = False,
     p_sem = 0, p_max = mx, p_closed = [], p_procs = replicate n Idle, p_closer = NotClosing\<rparr>"

inductive pool_reachable :: "'c pool \<Rightarrow> 'c pool \<Rightarrow> bool" for s0 where
  start: "pool_reachable s0 s0"
| step: "\<lbrakk>pool_reachable s0 s; pool_step s s'\<rbrakk> \<Longrightarrow> pool_reachable s0 s'"

inductive_cases pool_stepE: "pool_step s s'"

subsection \<open>Invariants\<close>

fun holds :: "'c gpc \<Rightarrow> 'c list" where
  "holds (Using c) = [c]"
| "holds (Releasing c) = [c]"
| "holds (Sending c) = [c]"
| "holds _ = []"

definition in_sem :: "'c gpc \<Rightarrow> bool" where
  "in_sem pc \<longleftrightarrow> pc \<noteq> Idle"

definition held :: "'c gpc list \<Rightarrow> 'c list" where
  "held ps = concat (map holds ps)"

definition busy :: "'c gpc list \<Rightarrow> nat" where
  "busy ps = length (filter in_sem ps)"

text \<open>Every connection is in the channel, with one goroutine, or closed, and only once.\<close>

definition all_conns :: "'c pool \<Rightarrow> 'c multiset" where
  "all_conns s = mset (p_chan s) + mset (held (p_procs s)) + mset (p_closed s)"

definition pool_inv :: "'c list \<Rightarrow> 'c pool \<Rightarrow> bool" where
  "pool_inv conns s \<longleftrightarrow>
     all_conns s = mset conns \<and> p_sem s = busy (p_procs s) \<and> p_sem s \<le> p_max s
     \<and> length conns \<le> p_cap s
     \<and> (p_closer s \<noteq> NotClosing \<longleftrightarrow> p_flag s)
     \<and> (p_closer s = Draining \<or> p_closer s = CloseDone \<longleftrightarrow> p_chan_closed s)
     \<and> (p_closer s = CloseDone \<longrightarrow> p_chan s = [])"

lemma held_split: "i < length ps \<Longrightarrow> mset (held ps) = mset (holds (ps ! i)) + mset (held (take i ps @ drop (Suc i) ps))"
  by (subst id_take_nth_drop [of i ps]) (auto simp: held_def)

lemma held_update:
  "i < length ps \<Longrightarrow> mset (held (ps[i := pc])) = mset (holds pc) + mset (held (take i ps @ drop (Suc i) ps))"
  by (simp add: upd_conv_take_nth_drop held_def)

lemma busy_split: "i < length ps \<Longrightarrow> busy ps = (if in_sem (ps ! i) then 1 else 0) + busy (take i ps @ drop (Suc i) ps)"
  by (subst id_take_nth_drop [of i ps]) (auto simp: busy_def)

lemma busy_update:
  "i < length ps \<Longrightarrow> busy (ps[i := pc]) = (if in_sem pc then 1 else 0) + busy (take i ps @ drop (Suc i) ps)"
  by (simp add: upd_conv_take_nth_drop busy_def)

lemma pool_inv_init: "length conns \<le> cap \<Longrightarrow> pool_inv conns (init_pool conns cap mx n)"
  by (simp add: pool_inv_def init_pool_def all_conns_def held_def busy_def in_sem_def)

text \<open>The effect of a step of goroutine \<open>i\<close> on the counted quantities.\<close>

lemma goto_conns:
  assumes "at_pc s i pc" "p_procs s' = p_procs s"
    and "mset (p_chan s') + mset (holds pc') + mset (p_closed s') = mset (p_chan s) + mset (holds pc) + mset (p_closed s)"
  shows "all_conns (goto i pc' s') = all_conns s"
proof -
  let ?rest = "mset (held (take i (p_procs s) @ drop (Suc i) (p_procs s)))"
  have "all_conns (goto i pc' s') = (mset (p_chan s') + mset (holds pc') + mset (p_closed s')) + ?rest"
    using assms(1, 2) by (simp add: all_conns_def goto_def held_update)
  also have "\<dots> = (mset (p_chan s) + mset (holds pc) + mset (p_closed s)) + ?rest"
    by (simp only: assms(3))
  also have "\<dots> = all_conns s"
    using assms(1) held_split [of i "p_procs s"] by (simp add: all_conns_def)
  finally show ?thesis .
qed

lemma goto_busy:
  assumes "at_pc s i pc" "p_procs s' = p_procs s"
  shows "busy (p_procs (goto i pc' s')) + (if in_sem pc then 1 else 0) = busy (p_procs s) + (if in_sem pc' then 1 else 0)"
  using assms busy_split [of i "p_procs s"] by (simp add: goto_def busy_update)

lemma goto_fields [simp]:
  "p_chan (goto i pc s) = p_chan s" "p_cap (goto i pc s) = p_cap s" "p_flag (goto i pc s) = p_flag s"
  "p_chan_closed (goto i pc s) = p_chan_closed s" "p_sem (goto i pc s) = p_sem s" "p_max (goto i pc s) = p_max s"
  "p_closed (goto i pc s) = p_closed s" "p_closer (goto i pc s) = p_closer s"
  by (simp_all add: goto_def)

lemma all_conns_closer [simp]:
  "all_conns (s\<lparr>p_flag := b\<rparr>) = all_conns s" "all_conns (s\<lparr>p_chan_closed := b\<rparr>) = all_conns s"
  "all_conns (s\<lparr>p_closer := c\<rparr>) = all_conns s"
  by (simp_all add: all_conns_def)

lemma pool_step_conns: "pool_step s s' \<Longrightarrow> all_conns s' = all_conns s"
proof (induction rule: pool_step.induct)
  case (close_drain s c cs)
  then show ?case by (simp add: all_conns_def)
qed (auto intro!: goto_conns)

lemma busy_pos: "\<lbrakk>i < length ps; in_sem (ps ! i)\<rbrakk> \<Longrightarrow> 0 < busy ps"
  using busy_split [of i ps] by simp

lemma busy_upd:
  "i < length ps \<Longrightarrow>
   busy (ps[i := pc]) = busy ps - (if in_sem (ps ! i) then 1 else 0) + (if in_sem pc then 1 else 0)"
  using busy_split [of i ps] by (simp add: busy_update)

lemma pool_step_sem:
  assumes "pool_step s s'" "p_sem s = busy (p_procs s)" "p_sem s \<le> p_max s"
  shows "p_sem s' = busy (p_procs s') \<and> p_sem s' \<le> p_max s'"
  using assms
proof (induction rule: pool_step.induct)
  case leave_sem
  then show ?case by (simp add: goto_def busy_upd in_sem_def)
qed (use busy_pos in \<open>fastforce simp: goto_def busy_upd in_sem_def\<close>)+

lemma pool_step_inv: "\<lbrakk>pool_step s s'; pool_inv conns s\<rbrakk> \<Longrightarrow> pool_inv conns s'"
proof -
  assume step: "pool_step s s'" and inv: "pool_inv conns s"
  have "length conns \<le> p_cap s' \<and> (p_closer s' \<noteq> NotClosing \<longleftrightarrow> p_flag s')
     \<and> (p_closer s' = Draining \<or> p_closer s' = CloseDone \<longleftrightarrow> p_chan_closed s')
     \<and> (p_closer s' = CloseDone \<longrightarrow> p_chan s' = [])"
    using step inv by (induction rule: pool_step.induct) (auto simp: pool_inv_def)
  then show ?thesis
    using pool_step_conns [OF step] pool_step_sem [OF step] inv by (simp add: pool_inv_def)
qed

lemma reachable_inv:
  "\<lbrakk>pool_reachable s0 s; pool_inv conns s0\<rbrakk> \<Longrightarrow> pool_inv conns s"
  by (induction rule: pool_reachable.induct) (auto intro: pool_step_inv)

lemma reachable_params:
  "pool_reachable s0 s \<Longrightarrow> p_cap s = p_cap s0 \<and> p_max s = p_max s0 \<and> length (p_procs s) = length (p_procs s0)"
proof (induction rule: pool_reachable.induct)
  case (step s s')
  from step(2) have "p_cap s' = p_cap s \<and> p_max s' = p_max s \<and> length (p_procs s') = length (p_procs s)"
    by (induction rule: pool_step.induct) (auto simp: goto_def)
  with step(3) show ?case by simp
qed simp

subsection \<open>What the pool guarantees\<close>

lemma held_by: "at_pc s i pc \<Longrightarrow> mset (holds pc) \<subseteq># mset (held (p_procs s))"
  using held_split [of i "p_procs s"] by auto

lemma two_holders:
  assumes "at_pc s i pc" "at_pc s j pc'" "i \<noteq> j"
  shows "mset (holds pc) + mset (holds pc') \<subseteq># mset (held (p_procs s))"
proof -
  let ?ps = "p_procs s"
  have "(?ps[i := Idle]) ! j = pc'" "j < length (?ps[i := Idle])" using assms by auto
  then have "mset (holds pc') \<subseteq># mset (held (?ps[i := Idle]))"
    using held_split [of j "?ps[i := Idle]"] by auto
  then show ?thesis using held_split [of i ?ps] held_update [of i ?ps Idle] assms(1) by simp
qed

text \<open>
  C22. However goroutines and \<open>Close\<close> interleave, two goroutines never use the same
  connection, a connection in use is neither offered in the pool nor closed, no connection is
  lost or closed twice, and at most the configured number of operations are between the
  semaphore and its release.
\<close>

theorem pool_exclusive:
  assumes "distinct conns" "length conns \<le> cap" "pool_reachable (init_pool conns cap mx n) s"
  shows "mset (p_chan s) + mset (held (p_procs s)) + mset (p_closed s) = mset conns
    \<and> busy (p_procs s) \<le> mx
    \<and> (at_pc s i (Using c) \<longrightarrow> c \<notin> set (p_chan s) \<and> c \<notin> set (p_closed s)
         \<and> (at_pc s j (Using c) \<longrightarrow> i = j))"
proof -
  have inv: "pool_inv conns s"
    using reachable_inv [OF assms(3) pool_inv_init [OF assms(2)]] .
  have all: "all_conns s = mset conns" and sem: "busy (p_procs s) \<le> mx"
    using inv reachable_params [OF assms(3)] by (auto simp: pool_inv_def init_pool_def)
  have one: "count (all_conns s) x \<le> 1" for x
    using assms(1) by (simp add: all distinct_count_atmost_1)
  {
    assume u: "at_pc s i (Using c)"
    have h: "1 \<le> count (mset (held (p_procs s))) c"
      using held_by [OF u] by (metis count_greater_eq_one_iff holds.simps(1) mset_subset_eqD in_multiset_in_set list.set_intros(1))
    have sum: "count (mset (p_chan s)) c + count (mset (held (p_procs s))) c + count (mset (p_closed s)) c \<le> 1"
      using one [of c] by (simp only: all_conns_def count_union)
    have "count (mset (p_chan s)) c = 0 \<and> count (mset (p_closed s)) c = 0"
      using h sum by linarith
    moreover have "i = j" if v: "at_pc s j (Using c)"
    proof (rule ccontr)
      assume "i \<noteq> j"
      then have "{#c, c#} \<subseteq># mset (held (p_procs s))" using two_holders [OF u v] by simp
      then have "2 \<le> count (mset (held (p_procs s))) c"
        using mset_subset_eq_count [of "{#c, c#}" _ c] by (simp add: numeral_2_eq_2)
      then show False using sum by linarith
    qed
    ultimately have "c \<notin> set (p_chan s) \<and> c \<notin> set (p_closed s) \<and> (at_pc s j (Using c) \<longrightarrow> i = j)"
      by (metis count_mset_0_iff)
  }
  then show ?thesis using all sem by (auto simp: all_conns_def)
qed

text \<open>A run for the witnesses: one goroutine of two takes the only connection.\<close>

lemma pool_example:
  "pool_reachable (init_pool [7 :: nat] 4 5 2)
     \<lparr>p_chan = [], p_cap = 4, p_flag = False, p_chan_closed = False, p_sem = 1, p_max = 5, p_closed = [],
      p_procs = [Using 7, Idle], p_closer = NotClosing\<rparr>"
proof -
  let ?s0 = "init_pool [7 :: nat] 4 5 2"
  let ?s1 = "goto 0 CheckClosed (?s0\<lparr>p_sem := p_sem ?s0 + 1\<rparr>)"
  let ?s2 = "goto 0 Receiving ?s1"
  let ?s3 = "goto 0 (Using 7) (?s2\<lparr>p_chan := []\<rparr>)"
  have "pool_step ?s0 ?s1" by (rule enter_sem) (simp_all add: init_pool_def)
  moreover have "pool_step ?s1 ?s2" by (rule acquire_open) (simp_all add: init_pool_def goto_def)
  moreover have "pool_step ?s2 ?s3" by (rule receive) (simp_all add: init_pool_def goto_def)
  ultimately have "pool_reachable ?s0 ?s3" by (blast intro: pool_reachable.intros)
  moreover have "?s3 = \<lparr>p_chan = [], p_cap = 4, p_flag = False, p_chan_closed = False, p_sem = 1, p_max = 5,
      p_closed = [], p_procs = [Using 7, Idle], p_closer = NotClosing\<rparr>"
    by (simp add: init_pool_def goto_def numeral_2_eq_2)
  ultimately show ?thesis by simp
qed

theorem pool_exclusive_witness:
  "\<exists>s. pool_reachable (init_pool [7 :: nat] 4 5 2) s \<and> at_pc s 0 (Using 7) \<and> 7 \<notin> set (p_chan s)"
  using pool_exclusive [OF _ _ pool_example, of 0 7 1] pool_example by auto



end
