(* ===== verification/Go_Clock.thy ===== *)
theory Go_Clock
  imports Go_Time
begin

text \<open>
  The calendar date of an instant in a location, and the layouts the notifications use.
  A location tells for a second since the epoch its offset and the span in which the offset
  holds. Layouts are given for years from 0.
\<close>

type_synonym tzloc = "int \<Rightarrow> int \<times> int \<times> int"

definition year_of_day :: "int \<Rightarrow> int" where
  "year_of_day n =
     (let y = n * 400 div 146097
      in if year_days (y + 1) \<le> n then y + 1 else if n < year_days y then y - 1 else y)"

definition month_of_day :: "int \<Rightarrow> int \<Rightarrow> int" where
  "month_of_day y doy = 1 + int (length (filter (\<lambda>m. days_before m y \<le> doy) [2..12]))"

definition civil :: "int \<Rightarrow> datetime" where
  "civil secs =
     (let n = secs div 86400 + 719528;
          y = year_of_day n;
          doy = n - year_days y;
          m = month_of_day y doy;
          s = secs mod 86400
      in \<lparr>dt_year = y, dt_month = m, dt_day = doy - days_before m y + 1,
          dt_hour = s div 3600, dt_min = s mod 3600 div 60, dt_sec = s mod 60\<rparr>)"

definition offset_at :: "tzloc \<Rightarrow> int \<Rightarrow> int" where
  "offset_at loc secs = fst (loc secs)"

definition in_zone :: "tzloc \<Rightarrow> instant \<Rightarrow> datetime" where
  "in_zone loc t = civil (t div 1000000000 + offset_at loc (t div 1000000000))"

definition zone_UTC :: tzloc where
  "zone_UTC t = (0, - 9223372036854775808, 9223372036854775807)"

text \<open>The zero time of Go is the first of January of year 1.\<close>

definition zero_time :: instant where
  "zero_time = - 62135596800 * 1000000000"

subsection \<open>Layouts\<close>

definition format_time :: "datetime \<Rightarrow> string" where
  "format_time t = pad2 (dt_hour t) @ '':'' @ pad2 (dt_min t) @ '':'' @ pad2 (dt_sec t)"

text \<open>\<open>02-01-2006\<close> and \<open>2006-01-02\<close>\<close>

definition format_dmy :: "datetime \<Rightarrow> string" where
  "format_dmy t = pad2 (dt_day t) @ ''-'' @ pad2 (dt_month t) @ ''-'' @ pad4 (dt_year t)"

definition format_ymd :: "datetime \<Rightarrow> string" where
  "format_ymd t = pad4 (dt_year t) @ ''-'' @ pad2 (dt_month t) @ ''-'' @ pad2 (dt_day t)"

definition format_zone :: "int \<Rightarrow> string" where
  "format_zone offset =
     (if offset = 0 then ''Z''
      else (let m = \<bar>offset\<bar> div 60
            in (if offset < 0 then ''-'' else ''+'') @ pad2 (m div 60) @ '':'' @ pad2 (m mod 60)))"

text \<open>Nanoseconds without trailing zeros, nothing for a whole second.\<close>

definition format_nanos :: "int \<Rightarrow> string" where
  "format_nanos ns =
     (if ns = 0 then []
      else (let s = dec_str ns; s = replicate (9 - length s) CHR ''0'' @ s
            in ''.'' @ rev (dropWhile (\<lambda>c. c = CHR ''0'') (rev s))))"

definition rfc3339 :: "bool \<Rightarrow> tzloc \<Rightarrow> instant \<Rightarrow> string" where
  "rfc3339 nano loc t =
     (let d = in_zone loc t
      in format_ymd d @ ''T'' @ format_time d @ (if nano then format_nanos (t mod 1000000000) else [])
         @ format_zone (offset_at loc (t div 1000000000)))"

subsection \<open>The date of an instant is the right one\<close>

lemma hms_split: "x div 3600 * 3600 + x mod 3600 div 60 * 60 + x mod 60 = (x :: int)"
proof -
  have m: "x mod 3600 mod 60 = x mod 60" by (rule mod_mod_cancel) simp
  have "x mod 3600 div 60 * 60 + x mod 3600 mod 60 = x mod 3600" by (rule div_mult_mod_eq)
  moreover have "x div 3600 * 3600 + x mod 3600 = x" by (rule div_mult_mod_eq)
  ultimately show ?thesis using m by linarith
qed

lemma civil_seconds: "wall_seconds (civil secs) = secs"
proof -
  define x where "x = secs mod 86400"
  define q where "q = secs div 86400"
  have split: "q * 86400 + x = secs" unfolding q_def x_def by (rule div_mult_mod_eq)
  have days: "a + b + (q + 719528 - a - b + 1 - 1) - 719528 = q" for a b :: int
    by simp
  show ?thesis
    unfolding wall_seconds_def civil_def Let_def unix_days_def x_def [symmetric] q_def [symmetric]
      datetime.simps days
    using split hms_split [of x] by linarith
qed

lemma div_step: "0 < k \<Longrightarrow> (y + k) div k = (y + (k - 1)) div k + (if y mod k = 0 then 1 else 0)" for k :: int
proof -
  assume k: "0 < k"
  define q where "q = y div k"
  define r where "r = y mod k"
  have y: "y = r + q * k" unfolding q_def r_def by simp
  have r: "0 \<le> r" "r < k" using k by (simp_all add: r_def)
  have a: "(y + k) div k = q + 1" using k unfolding q_def by (subst div_add_self2) simp_all
  have "y + (k - 1) = (r + (k - 1)) + q * k" using y by simp
  then have "(y + (k - 1)) div k = q + (r + (k - 1)) div k" using k by (simp only: div_mult_self1)
  moreover have "(r + (k - 1)) div k = (if r = 0 then 0 else 1)"
  proof (cases "r = 0")
    case True then show ?thesis using k by (simp add: div_pos_pos_trivial)
  next
    case False
    then have "r + (k - 1) = (r - 1) + k" "0 \<le> r - 1" "r - 1 < k" using r by simp_all
    then have "(r + (k - 1)) div k = (r - 1) div k + 1" using k by (metis div_add_self2 less_irrefl)
    then show ?thesis using False k \<open>0 \<le> r - 1\<close> \<open>r - 1 < k\<close> by (simp add: div_pos_pos_trivial)
  qed
  ultimately show ?thesis using a by (simp add: r_def)
qed

lemma leap_count:
  "(if y mod 4 = 0 then 1 else 0) - (if y mod 100 = 0 then 1 else 0) + (if y mod 400 = 0 then 1 else 0)
    = (if is_leap y then 1 else 0 :: int)"
proof -
  have "(4 :: int) dvd 100" "(100 :: int) dvd 400" by simp_all
  then have pq: "y mod 100 = 0 \<longrightarrow> y mod 4 = 0" "y mod 400 = 0 \<longrightarrow> y mod 100 = 0"
    unfolding mod_eq_0_iff_dvd using dvd_trans [of 4 100 y] dvd_trans [of 100 400 y] by blast+
  have "(b \<longrightarrow> a) \<Longrightarrow> (c \<longrightarrow> b) \<Longrightarrow> (if a then 1 else 0) - (if b then 1 else 0) + (if c then 1 else 0)
      = (if a \<and> (\<not> b \<or> c) then 1 else 0 :: int)" for a b c :: bool
    by (cases a; cases b; cases c) simp_all
  note c = this
  show ?thesis unfolding is_leap_def by (rule c [OF pq])
qed

lemma year_length: "year_days (y + 1) = year_days y + 365 + (if is_leap y then 1 else 0)"
proof -
  have e: "y + 1 + 3 = y + 4" "y + 1 + 99 = y + 100" "y + 1 + 399 = y + 400" by simp_all
  have k: "(4::int) - 1 = 3" "(100::int) - 1 = 99" "(400::int) - 1 = 399" "(0::int) < 4" "(0::int) < 100" "(0::int) < 400"
    by simp_all
  note d = div_step [of 4 y, OF k(4), unfolded k(1)] div_step [of 100 y, OF k(5), unfolded k(2)]
    div_step [of 400 y, OF k(6), unfolded k(3)]
  show ?thesis
    unfolding year_days_def e d leap_count [symmetric] ring_distribs by linarith
qed

lemma div_bounds: "0 < k \<Longrightarrow> k * (x div k) \<le> x" "0 < k \<Longrightarrow> x < k * (x div k) + k" for k :: int
  using mult_div_mod_eq [of k x] pos_mod_bound [of k x] pos_mod_sign [of k x] by linarith+

lemma year_days_bounds: "146097 * y - 396 \<le> 400 * year_days y" "400 * year_days y \<le> 146097 * y + 699"
proof -
  define a b c where "a = (y + 3) div 4" and "b = (y + 99) div 100" and "c = (y + 399) div 400"
  have "4 * a \<le> y + 3" "y + 3 < 4 * a + 4" "100 * b \<le> y + 99" "y + 99 < 100 * b + 100"
    "400 * c \<le> y + 399" "y + 399 < 400 * c + 400"
    using div_bounds [of 4 "y + 3"] div_bounds [of 100 "y + 99"] div_bounds [of 400 "y + 399"]
    unfolding a_def b_def c_def by simp_all
  then show "146097 * y - 396 \<le> 400 * year_days y" "400 * year_days y \<le> 146097 * y + 699"
    unfolding year_days_def a_def [symmetric] b_def [symmetric] c_def [symmetric]
    unfolding ring_distribs by linarith+
qed

lemma year_of_day_bounds: "year_days (year_of_day n) \<le> n \<and> n < year_days (year_of_day n + 1)"
proof -
  define y where "y = n * 400 div 146097"
  have y: "146097 * y \<le> n * 400" "n * 400 < 146097 * y + 146097"
    using div_bounds [of 146097 "n * 400"] unfolding y_def by simp_all
  have one: "year_days (y - 1) \<le> n" using year_days_bounds [of "y - 1"] y unfolding ring_distribs by linarith
  have two: "n < year_days (y + 2)" using year_days_bounds [of "y + 2"] y unfolding ring_distribs by linarith
  then have "n < year_days (2 + y)" by (simp only: add.commute)
  with one show ?thesis
    unfolding year_of_day_def y_def [symmetric] Let_def by (auto split: if_split)
qed

lemma year_days_mono: "y \<le> y' \<Longrightarrow> year_days y \<le> year_days y'"
  by (induction y' rule: int_ge_induct) (auto simp: year_length split: if_splits)

lemma month_of_day_bounds:
  assumes "0 \<le> doy" "doy < 365 + (if is_leap y then 1 else 0)"
  shows "1 \<le> month_of_day y doy \<and> month_of_day y doy \<le> 12
    \<and> days_before (month_of_day y doy) y \<le> doy
    \<and> doy < days_before (month_of_day y doy) y + days_in (month_of_day y doy) y"
proof -
  define l :: int where "l = (if is_leap y then 1 else 0)"
  have l: "0 \<le> l" "l \<le> 1" by (simp_all add: l_def)
  have m: "[2..12] = [2, 3, 4, 5, 6, 7, 8, 9, 10, 11, 12 :: int]" by code_simp
  have b: "days_before m y = [0, 31, 59, 90, 120, 151, 181, 212, 243, 273, 304, 334] ! nat (m - 1)
     + (if m > 2 then l else 0)" for m by (simp add: days_before_def l_def)
  have d: "days_in m y = (if m = 2 then 28 + l else if m = 4 \<or> m = 6 \<or> m = 9 \<or> m = 11 then 30 else 31)" for m
    by (simp add: days_in_def l_def)
  have bs: "days_before 1 y = 0" "days_before 2 y = 31" "days_before 3 y = 59 + l" "days_before 4 y = 90 + l"
    "days_before 5 y = 120 + l" "days_before 6 y = 151 + l" "days_before 7 y = 181 + l" "days_before 8 y = 212 + l"
    "days_before 9 y = 243 + l" "days_before 10 y = 273 + l" "days_before 11 y = 304 + l" "days_before 12 y = 334 + l"
    by (simp_all add: b)
  have doy: "doy < 365 + l" using assms by (simp add: l_def)
  consider "doy < 31" | "31 \<le> doy \<and> doy < 59 + l" | "59 + l \<le> doy \<and> doy < 90 + l" | "90 + l \<le> doy \<and> doy < 120 + l"
    | "120 + l \<le> doy \<and> doy < 151 + l" | "151 + l \<le> doy \<and> doy < 181 + l" | "181 + l \<le> doy \<and> doy < 212 + l"
    | "212 + l \<le> doy \<and> doy < 243 + l" | "243 + l \<le> doy \<and> doy < 273 + l" | "273 + l \<le> doy \<and> doy < 304 + l"
    | "304 + l \<le> doy \<and> doy < 334 + l" | "334 + l \<le> doy" using l by linarith
  then show ?thesis
    by cases (use assms(1) doy l in \<open>simp_all add: month_of_day_def m bs d\<close>)
qed
text \<open>The fields of a date are in range, whatever the instant.\<close>

lemma div_range: "\<lbrakk>0 \<le> x; x < k * n; 0 < k\<rbrakk> \<Longrightarrow> 0 \<le> x div k" "\<lbrakk>0 \<le> x; x < k * n; 0 < k\<rbrakk> \<Longrightarrow> x div k < n" for k :: int
proof -
  assume a: "0 \<le> x" "x < k * n" "0 < k"
  then show "0 \<le> x div k" by (simp add: pos_imp_zdiv_nonneg_iff)
  have "k * (x div k) < k * n" using div_bounds(1) [of k x] a by linarith
  then show "x div k < n" using a(3) by (simp add: mult_less_cancel_left_pos)
qed

lemma civil_valid: "0 \<le> dt_year (civil secs) \<Longrightarrow> valid_datetime (civil secs)"
proof -
  assume y: "0 \<le> dt_year (civil secs)"
  define n where "n = secs div 86400 + 719528"
  define s where "s = secs mod 86400"
  define y' where "y' = year_of_day n"
  have s: "0 \<le> s" "s < 3600 * 24" unfolding s_def by simp_all
  have h: "0 \<le> s div 3600" "s div 3600 < 24" using div_range [OF s] by simp_all
  define r where "r = s mod 3600"
  have r: "0 \<le> r" "r < 60 * 60" unfolding r_def by simp_all
  have mi: "0 \<le> r div 60" "r div 60 < 60" using div_range [OF r] by simp_all
  have sec: "0 \<le> s mod 60" "s mod 60 < 60" by simp_all
  have d: "0 \<le> n - year_days y'" "n - year_days y' < 365 + (if is_leap y' then 1 else 0)"
    using year_of_day_bounds [of n] year_length [of y'] unfolding y'_def by linarith+
  have c: "civil secs = \<lparr>dt_year = y', dt_month = month_of_day y' (n - year_days y'),
      dt_day = n - year_days y' - days_before (month_of_day y' (n - year_days y')) y' + 1,
      dt_hour = s div 3600, dt_min = r div 60, dt_sec = s mod 60\<rparr>"
    unfolding civil_def Let_def n_def s_def y'_def r_def by (rule refl)
  show ?thesis
    using y month_of_day_bounds [OF d] h mi sec unfolding c valid_datetime_def datetime.simps by linarith
qed

end
