(* ===== verification/Onu_Usecase.thy ===== *)
theory Onu_Usecase
  imports Olt_Config Redis_Repo Snmp_Repo Go_Clock
begin

text \<open>
  \<open>internal/usecase/onu.go\<close> and \<open>prewarm.go\<close>: the ONU queries, over the SNMP
  repository and the cache.

  \<^item> A query is a function of the world, which it passes through every SNMP and Redis call
    in the order of the source. A call coalesced by \<open>singleflight\<close> is one call that runs
    its function.
  \<^item> A \<open>for range\<close> over the PDUs of a walk has the visiting order \<open>ord\<close>.
  \<^item> A slice is an option, \<open>None\<close> for nil.
  \<^item> The background refresh of a cached list is an operation of its own; the query tells
    whether it started one.
  \<^item> The zone data base behind \<open>time.LoadLocation\<close> is the argument \<open>uc_tz\<close>: a
    location tells for an instant its offset and the time span in which that offset holds.
\<close>

record 'w onu_uc =
  uc_snmp :: "'w snmp_repo"
  uc_redis :: "'w redis_ops"
  uc_cfg :: Config
  uc_oltID :: bytes
  uc_now :: "'w \<Rightarrow> instant \<times> 'w"
  uc_tz :: "bytes \<Rightarrow> tzloc option"

definition MaxOnuIDPerPon :: int where "MaxOnuIDPerPon = 128"
definition TimezoneOffsetWIB :: int where "TimezoneOffsetWIB = 25200"
definition SNMPOIDSuffix :: bytes where "SNMPOIDSuffix = ''.1''"

subsection \<open>Cache keys\<close>

datatype key_type = RedisKeyTypeONUInfo | RedisKeyTypeEmptyOnuID | RedisKeyTypeONUDetail

definition GenerateRedisKey :: "key_type \<Rightarrow> int \<Rightarrow> int \<Rightarrow> bytes" where
  "GenerateRedisKey keyType boardID ponID =
     (case keyType of
        RedisKeyTypeEmptyOnuID \<Rightarrow> ''board_'' @ itoa boardID @ ''_pon_'' @ itoa ponID @ ''_empty_onu_id''
      | _ \<Rightarrow> ''board_'' @ itoa boardID @ ''_pon_'' @ itoa ponID)"

definition GenerateONUDetailRedisKey :: "int \<Rightarrow> int \<Rightarrow> int \<Rightarrow> bytes" where
  "GenerateONUDetailRedisKey boardID ponID onuID =
     ''board_'' @ itoa boardID @ ''_pon_'' @ itoa ponID @ ''_onu_'' @ itoa onuID @ ''_detail''"

definition serial_list_key :: "int \<Rightarrow> int \<Rightarrow> bytes" where
  "serial_list_key boardID ponID = ''board_'' @ itoa boardID @ ''_pon_'' @ itoa ponID @ ''_serial_list''"

definition cacheKey :: "bytes \<Rightarrow> bytes \<Rightarrow> bytes" where
  "cacheKey oltID base = (if oltID = [] then base else ''olt_'' @ oltID @ ''_'' @ base)"

subsection \<open>The object identifiers of a port\<close>

definition getBoardConfig :: "'w onu_uc \<Rightarrow> int \<Rightarrow> int \<Rightarrow> gerror + OnuOltConfig" where
  "getBoardConfig u boardID ponID =
     (case GetBoardPonConfig (BoardPonMap (uc_cfg u)) boardID ponID of
        Inl err \<Rightarrow> Inl (NewConfigError ''invalid board/pon combination'' err)
      | Inr ponCfg \<Rightarrow>
          Inr \<lparr>mc_BaseOID = oc_BaseOID1 (OltCfg (uc_cfg u)),
               mc_OnuIDNameOID = OnuIDNameOID ponCfg, mc_OnuTypeOID = OnuTypeOID ponCfg,
               mc_OnuSerialNumberOID = OnuSerialNumberOID ponCfg, mc_OnuRxPowerOID = OnuRxPowerOID ponCfg,
               mc_OnuTxPowerOID = OnuTxPowerOID ponCfg, mc_OnuStatusOID = OnuStatusOID ponCfg,
               mc_OnuIPAddressOID = OnuIPAddressOID ponCfg, mc_OnuDescriptionOID = OnuDescriptionOID ponCfg,
               mc_OnuLastOnlineOID = OnuLastOnlineOID ponCfg, mc_OnuLastOfflineOID = OnuLastOfflineOID ponCfg,
               mc_OnuLastOfflineReasonOID = OnuLastOfflineReasonOID ponCfg,
               mc_OnuGponOpticalDistanceOID = OnuGponOpticalDistanceOID ponCfg\<rparr>)"

definition getOltConfig :: "'w onu_uc \<Rightarrow> int \<Rightarrow> int \<Rightarrow> gerror + OnuOltConfig" where
  "getOltConfig u boardID ponID = getBoardConfig u boardID ponID"

abbreviation base1 :: "'w onu_uc \<Rightarrow> bytes" where "base1 u \<equiv> oc_BaseOID1 (OltCfg (uc_cfg u))"
abbreviation base2 :: "'w onu_uc \<Rightarrow> bytes" where "base2 u \<equiv> oc_BaseOID2 (OltCfg (uc_cfg u))"

subsection \<open>The list of a port\<close>

definition collect_pdus :: "snmp_pdu list \<Rightarrow> (bytes, snmp_pdu) gomap" where
  "collect_pdus pdus = fold (\<lambda>pdu m. gm_set (ExtractONUID (pdu_Name pdu)) pdu m) pdus []"

definition info_oids :: "'w onu_uc \<Rightarrow> OnuOltConfig \<Rightarrow> int \<Rightarrow> bytes list" where
  "info_oids u oltConfig onuID =
     [base2 u @ mc_OnuTypeOID oltConfig @ ''.'' @ itoa onuID,
      base1 u @ mc_OnuSerialNumberOID oltConfig @ ''.'' @ itoa onuID,
      base1 u @ mc_OnuRxPowerOID oltConfig @ ''.'' @ itoa onuID @ SNMPOIDSuffix,
      base1 u @ mc_OnuStatusOID oltConfig @ ''.'' @ itoa onuID]"

definition fetch_info :: "'w onu_uc \<Rightarrow> OnuOltConfig \<Rightarrow> int \<Rightarrow> int \<Rightarrow> snmp_pdu \<Rightarrow> 'w \<Rightarrow> ONUInfoPerBoard \<times> 'w" where
  "fetch_info u oltConfig boardID ponID pdu w =
     (let onuInfo = zero_ONUInfoPerBoard\<lparr>oi_Board := boardID, oi_PON := ponID,
            oi_ID := ExtractIDOnuID (pdu_Name pdu), oi_Name := ExtractName (pdu_Value pdu)\<rparr>
      in case snmp_Get (uc_snmp u) (info_oids u oltConfig (oi_ID onuInfo)) w of
           (Inr (a # b # c # d # _), w) \<Rightarrow>
             (let onuInfo = onuInfo\<lparr>oi_OnuType := ExtractName (pdu_Value a),
                    oi_SerialNumber := ExtractSerialNumber (pdu_Value b)\<rparr>;
                  onuInfo = (case ConvertAndMultiply (pdu_Value c) of
                               Inr pw \<Rightarrow> onuInfo\<lparr>oi_RXPower := pw\<rparr> | Inl _ \<Rightarrow> onuInfo)
              in (onuInfo\<lparr>oi_Status := ExtractAndGetStatus (pdu_Value d)\<rparr>, w))
         | (_, w) \<Rightarrow> (onuInfo, w))"

fun fetch_infos ::
    "'w onu_uc \<Rightarrow> OnuOltConfig \<Rightarrow> int \<Rightarrow> int \<Rightarrow> snmp_pdu list \<Rightarrow> 'w \<Rightarrow> ONUInfoPerBoard list \<times> 'w" where
  "fetch_infos u oltConfig b p [] w = ([], w)"
| "fetch_infos u oltConfig b p (pdu # pdus) w =
     (case fetch_info u oltConfig b p pdu w of
        (i, w) \<Rightarrow> (case fetch_infos u oltConfig b p pdus w of (is, w) \<Rightarrow> (i # is, w)))"

text \<open>A slice declared with \<open>var\<close> and extended by \<open>append\<close>: nil until the first entry.\<close>

definition var_slice :: "'a list \<Rightarrow> 'a list option" where
  "var_slice xs = (if xs = [] then None else Some xs)"

definition slice_list :: "'a list option \<Rightarrow> 'a list" where
  "slice_list s = (case s of None \<Rightarrow> [] | Some xs \<Rightarrow> xs)"

definition walk_infos ::
    "(bytes, snmp_pdu) range_ord \<Rightarrow> 'w onu_uc \<Rightarrow> OnuOltConfig \<Rightarrow> int \<Rightarrow> int \<Rightarrow> 'w
     \<Rightarrow> (gerror + ONUInfoPerBoard list option) \<times> 'w" where
  "walk_infos ord u oltConfig boardID ponID w =
     (case snmp_BulkWalk (uc_snmp u) (mc_BaseOID oltConfig @ mc_OnuIDNameOID oltConfig) w of
        ((pdus, Some err), w) \<Rightarrow> (Inl err, w)
      | ((pdus, None), w) \<Rightarrow>
          (case fetch_infos u oltConfig boardID ponID (map snd (ord (collect_pdus pdus))) w of
             (infos, w) \<Rightarrow> (Inr (var_slice (sort_key oi_ID infos)), w)))"

text \<open>The query, and whether a background refresh of the list was started.\<close>

definition GetByBoardIDAndPonID ::
    "(bytes, snmp_pdu) range_ord \<Rightarrow> 'w onu_uc \<Rightarrow> int \<Rightarrow> int \<Rightarrow> 'w
     \<Rightarrow> ((gerror + ONUInfoPerBoard list option) \<times> bool) \<times> 'w" where
  "GetByBoardIDAndPonID ord u boardID ponID w =
     (case getOltConfig u boardID ponID of
        Inl err \<Rightarrow> ((Inl err, False), w)
      | Inr oltConfig \<Rightarrow>
          (let redisKey = cacheKey (uc_oltID u) (GenerateRedisKey RedisKeyTypeONUInfo boardID ponID);
               ttlSetting = ONUInfoTTL (CacheCfg (uc_cfg u))
           in case GetONUInfoList (uc_redis u) redisKey w of
                (Inr (Some cached), w) \<Rightarrow>
                  (case GetTTL (uc_redis u) redisKey w of
                     (Inr ttl, w) \<Rightarrow>
                       ((Inr (Some cached), 0 < ttl \<and> ttl < int64 (ttlSetting sdiv 5 * 1000000000)), w)
                   | (Inl _, w) \<Rightarrow> ((Inr (Some cached), False), w))
              | (_, w) \<Rightarrow>
                  (case walk_infos ord u oltConfig boardID ponID w of
                     (Inl err, w) \<Rightarrow> ((Inl err, False), w)
                   | (Inr l, w) \<Rightarrow>
                       (case SaveONUInfoList (uc_redis u) redisKey ttlSetting l w of
                          (_, w) \<Rightarrow> ((Inr l, False), w)))))"

definition refreshONUInfoCache ::
    "(bytes, snmp_pdu) range_ord \<Rightarrow> 'w onu_uc \<Rightarrow> int \<Rightarrow> int \<Rightarrow> OnuOltConfig \<Rightarrow> bytes \<Rightarrow> 'w \<Rightarrow> 'w" where
  "refreshONUInfoCache ord u boardID ponID oltConfig redisKey w =
     (case walk_infos ord u oltConfig boardID ponID w of
        (Inl err, w) \<Rightarrow> w
      | (Inr l, w) \<Rightarrow> snd (SaveONUInfoList (uc_redis u) redisKey (ONUInfoTTL (CacheCfg (uc_cfg u))) l w))"

subsection \<open>One page of the list\<close>

text \<open>
  A slice expression with a bound out of range makes Go panic. The result is the page (with
  nil as \<open>None\<close>) and the number of all ONUs.
\<close>

datatype 'a page = Panic | Page "'a list option" int

definition slice_range :: "'a list \<Rightarrow> int \<Rightarrow> int \<Rightarrow> 'a list option" where
  "slice_range xs lo hi =
     (if 0 \<le> lo \<and> lo \<le> hi \<and> hi \<le> int (length xs) then Some (take (nat (hi - lo)) (drop (nat lo) xs)) else None)"

definition paginate :: "'a list option \<Rightarrow> int \<Rightarrow> int \<Rightarrow> 'a page" where
  "paginate allOnus pageIndex pageSize =
     (let xs = slice_list allOnus;
          count = int (length xs);
          startIndex = int64 (int64 (pageIndex - 1) * pageSize)
      in if startIndex \<ge> count then Page (Some []) count
         else
           (let endIndex = int64 (startIndex + pageSize);
                endIndex = (if endIndex > count then count else endIndex)
            in case slice_range xs startIndex endIndex of
                 None \<Rightarrow> Panic
               | Some ys \<Rightarrow> Page (Some ys) count))"

definition GetByBoardIDAndPonIDWithPagination ::
    "(bytes, snmp_pdu) range_ord \<Rightarrow> 'w onu_uc \<Rightarrow> int \<Rightarrow> int \<Rightarrow> int \<Rightarrow> int \<Rightarrow> 'w
     \<Rightarrow> ONUInfoPerBoard page \<times> 'w" where
  "GetByBoardIDAndPonIDWithPagination ord u boardID ponID pageIndex pageSize w =
     (case GetByBoardIDAndPonID ord u boardID ponID w of
        ((Inl err, _), w) \<Rightarrow> (Page None 0, w)
      | ((Inr l, _), w) \<Rightarrow> (paginate l pageIndex pageSize, w))"

subsection \<open>One value of one ONU\<close>

definition getFromSNMPWithSingleflight :: "'w onu_uc \<Rightarrow> bytes \<Rightarrow> 'w \<Rightarrow> (gerror + snmp_value) \<times> 'w" where
  "getFromSNMPWithSingleflight u oid w =
     (case snmp_Get (uc_snmp u) [oid] w of
        (Inl err, w) \<Rightarrow> (Inl (NewSNMPError ''Get'' err), w)
      | (Inr [], w) \<Rightarrow> (Inl (NewSNMPError ''Get'' (Plain ''no variables in response'')), w)
      | (Inr (v # _), w) \<Rightarrow> (Inr (pdu_Value v), w))"

definition get_value ::
    "'w onu_uc \<Rightarrow> bytes \<Rightarrow> (snmp_value \<Rightarrow> gerror + bytes) \<Rightarrow> 'w \<Rightarrow> (gerror + bytes) \<times> 'w" where
  "get_value u oid conv w =
     (case getFromSNMPWithSingleflight u oid w of
        (Inl err, w) \<Rightarrow> (Inl err, w)
      | (Inr v, w) \<Rightarrow> (conv v, w))"

text \<open>\<open>power, _ := ConvertAndMultiply(\<dots>)\<close>: a failed conversion leaves the empty text.\<close>

definition power_or_empty :: "snmp_value \<Rightarrow> gerror + bytes" where
  "power_or_empty v = Inr (case ConvertAndMultiply v of Inr s \<Rightarrow> s | Inl _ \<Rightarrow> [])"

definition date_value :: "bytes \<Rightarrow> snmp_value \<Rightarrow> gerror + bytes" where
  "date_value what v =
     (case v of VBytes b \<Rightarrow> ConvertByteArrayToDateTime b
      | _ \<Rightarrow> Inl (Plain (''unexpected SNMP value type for '' @ what)))"

definition getName :: "'w onu_uc \<Rightarrow> bytes \<Rightarrow> bytes \<Rightarrow> 'w \<Rightarrow> (gerror + bytes) \<times> 'w" where
  "getName u oid onuID = get_value u (base1 u @ oid @ ''.'' @ onuID) (\<lambda>v. Inr (ExtractName v))"

definition getONUType :: "'w onu_uc \<Rightarrow> bytes \<Rightarrow> bytes \<Rightarrow> 'w \<Rightarrow> (gerror + bytes) \<times> 'w" where
  "getONUType u oid onuID = get_value u (base2 u @ oid @ ''.'' @ onuID) (\<lambda>v. Inr (ExtractName v))"

definition getSerialNumber :: "'w onu_uc \<Rightarrow> bytes \<Rightarrow> bytes \<Rightarrow> 'w \<Rightarrow> (gerror + bytes) \<times> 'w" where
  "getSerialNumber u oid onuID = get_value u (base1 u @ oid @ ''.'' @ onuID) (\<lambda>v. Inr (ExtractSerialNumber v))"

definition getTxPower :: "'w onu_uc \<Rightarrow> bytes \<Rightarrow> bytes \<Rightarrow> 'w \<Rightarrow> (gerror + bytes) \<times> 'w" where
  "getTxPower u oid onuID = get_value u (base2 u @ oid @ ''.'' @ onuID @ SNMPOIDSuffix) power_or_empty"

definition getRxPower :: "'w onu_uc \<Rightarrow> bytes \<Rightarrow> bytes \<Rightarrow> 'w \<Rightarrow> (gerror + bytes) \<times> 'w" where
  "getRxPower u oid onuID = get_value u (base1 u @ oid @ ''.'' @ onuID @ SNMPOIDSuffix) power_or_empty"

definition getStatus :: "'w onu_uc \<Rightarrow> bytes \<Rightarrow> bytes \<Rightarrow> 'w \<Rightarrow> (gerror + bytes) \<times> 'w" where
  "getStatus u oid onuID = get_value u (base1 u @ oid @ ''.'' @ onuID) (\<lambda>v. Inr (ExtractAndGetStatus v))"

definition getIPAddress :: "'w onu_uc \<Rightarrow> bytes \<Rightarrow> bytes \<Rightarrow> 'w \<Rightarrow> (gerror + bytes) \<times> 'w" where
  "getIPAddress u oid onuID =
     get_value u (base2 u @ oid @ ''.'' @ onuID @ SNMPOIDSuffix) (\<lambda>v. Inr (ExtractName v))"

definition getDescription :: "'w onu_uc \<Rightarrow> bytes \<Rightarrow> bytes \<Rightarrow> 'w \<Rightarrow> (gerror + bytes) \<times> 'w" where
  "getDescription u oid onuID = get_value u (base1 u @ oid @ ''.'' @ onuID) (\<lambda>v. Inr (ExtractName v))"

definition getLastOnline :: "'w onu_uc \<Rightarrow> bytes \<Rightarrow> bytes \<Rightarrow> 'w \<Rightarrow> (gerror + bytes) \<times> 'w" where
  "getLastOnline u oid onuID = get_value u (base1 u @ oid @ ''.'' @ onuID) (date_value ''last online'')"

definition getLastOffline :: "'w onu_uc \<Rightarrow> bytes \<Rightarrow> bytes \<Rightarrow> 'w \<Rightarrow> (gerror + bytes) \<times> 'w" where
  "getLastOffline u oid onuID = get_value u (base1 u @ oid @ ''.'' @ onuID) (date_value ''last offline'')"

definition getLastOfflineReason :: "'w onu_uc \<Rightarrow> bytes \<Rightarrow> bytes \<Rightarrow> 'w \<Rightarrow> (gerror + bytes) \<times> 'w" where
  "getLastOfflineReason u oid onuID =
     get_value u (base1 u @ oid @ ''.'' @ onuID) (\<lambda>v. Inr (ExtractLastOfflineReason v))"

definition getOnuGponOpticalDistance :: "'w onu_uc \<Rightarrow> bytes \<Rightarrow> bytes \<Rightarrow> 'w \<Rightarrow> (gerror + bytes) \<times> 'w" where
  "getOnuGponOpticalDistance u oid onuID =
     get_value u (base1 u @ oid @ ''.'' @ onuID) (\<lambda>v. Inr (ExtractGponOpticalDistance v))"

subsection \<open>Uptime and downtime\<close>

definition fixed_zone :: "int \<Rightarrow> tzloc" where
  "fixed_zone offset t = (offset, - 9223372036854775808, 9223372036854775807)"

definition oltLocation :: "'w onu_uc \<Rightarrow> tzloc" where
  "oltLocation u =
     (let tz = oc_Timezone (OltCfg (uc_cfg u)); tz = (if tz = [] then ''Asia/Jakarta'' else tz)
      in case uc_tz u tz of Some loc \<Rightarrow> loc | None \<Rightarrow> fixed_zone TimezoneOffsetWIB)"

text \<open>\<open>time.Date\<close> in a location: the offset at the wall clock, corrected near a transition.\<close>

definition zoned_seconds :: "tzloc \<Rightarrow> int \<Rightarrow> int" where
  "zoned_seconds loc wall =
     (case loc wall of (offset, start, ende) \<Rightarrow>
        if offset = 0 then wall
        else (let utc = wall - offset in
              if utc < start \<or> ende \<le> utc then (case loc utc of (offset', _, _) \<Rightarrow> wall - offset')
              else utc))"

definition time_error :: "bytes \<Rightarrow> gerror" where
  "time_error s = Plain (''parsing time '' @ go_quote s)"

definition getUptimeDuration :: "'w onu_uc \<Rightarrow> bytes \<Rightarrow> 'w \<Rightarrow> (gerror + bytes) \<times> 'w" where
  "getUptimeDuration u lastOnline w =
     (case parse_datetime lastOnline of
        None \<Rightarrow> (Inl (time_error lastOnline), w)
      | Some (t, ns) \<Rightarrow>
          (case uc_now u w of
             (now, w) \<Rightarrow>
               (let duration = time_sub now (instant_of (zoned_seconds (oltLocation u) (wall_seconds t)) ns);
                    duration = (if duration < 0 then 0 else duration)
                in (Inr (ConvertDurationToString duration), w))))"

definition getLastDownDuration :: "bytes \<Rightarrow> bytes \<Rightarrow> gerror + bytes" where
  "getLastDownDuration lastOffline lastOnline =
     (if trim_space lastOffline = [] \<or> trim_space lastOnline = [] then Inr []
      else case parse_datetime lastOffline of
        None \<Rightarrow> Inl (time_error lastOffline)
      | Some (off, ns) \<Rightarrow>
          (case parse_datetime lastOnline of
             None \<Rightarrow> Inl (time_error lastOnline)
           | Some (on, ns') \<Rightarrow>
               Inr (ConvertDurationToString
                      (time_sub (instant_of (wall_seconds on) ns') (instant_of (wall_seconds off) ns)))))"

subsection \<open>The detail of one ONU\<close>

text \<open>\<open>if v, err := f(); err == nil { r.X = v }\<close>\<close>

definition set_ok :: "('w \<Rightarrow> (gerror + bytes) \<times> 'w) \<Rightarrow> (bytes \<Rightarrow> 'r \<Rightarrow> 'r) \<Rightarrow> 'r \<times> 'w \<Rightarrow> 'r \<times> 'w" where
  "set_ok f upd rw =
     (case f (snd rw) of
        (Inl _, w) \<Rightarrow> (fst rw, w)
      | (Inr v, w) \<Rightarrow> (upd v (fst rw), w))"

definition fetch_detail ::
    "'w onu_uc \<Rightarrow> OnuOltConfig \<Rightarrow> int \<Rightarrow> int \<Rightarrow> snmp_pdu \<Rightarrow> 'w \<Rightarrow> ONUCustomerInfo \<times> 'w" where
  "fetch_detail u c boardID ponID pdu w =
     (let onuInfo = zero_ONUCustomerInfo\<lparr>cu_Board := boardID, cu_PON := ponID,
            cu_ID := ExtractIDOnuID (pdu_Name pdu), cu_Name := ExtractName (pdu_Value pdu)\<rparr>;
          n = itoa (cu_ID onuInfo);
          rw = (onuInfo, w);
          rw = set_ok (getONUType u (mc_OnuTypeOID c) n) (\<lambda>v r. r\<lparr>cu_OnuType := v\<rparr>) rw;
          rw = set_ok (getSerialNumber u (mc_OnuSerialNumberOID c) n) (\<lambda>v r. r\<lparr>cu_SerialNumber := v\<rparr>) rw;
          rw = set_ok (getRxPower u (mc_OnuRxPowerOID c) n) (\<lambda>v r. r\<lparr>cu_RXPower := v\<rparr>) rw;
          rw = set_ok (getTxPower u (mc_OnuTxPowerOID c) n) (\<lambda>v r. r\<lparr>cu_TXPower := v\<rparr>) rw;
          rw = set_ok (getStatus u (mc_OnuStatusOID c) n) (\<lambda>v r. r\<lparr>cu_Status := v\<rparr>) rw;
          rw = set_ok (getIPAddress u (mc_OnuIPAddressOID c) n) (\<lambda>v r. r\<lparr>cu_IPAddress := v\<rparr>) rw;
          rw = set_ok (getDescription u (mc_OnuDescriptionOID c) n) (\<lambda>v r. r\<lparr>cu_Description := v\<rparr>) rw;
          rw = set_ok (getLastOnline u (mc_OnuLastOnlineOID c) n) (\<lambda>v r. r\<lparr>cu_LastOnline := v\<rparr>) rw;
          rw = set_ok (getLastOffline u (mc_OnuLastOfflineOID c) n) (\<lambda>v r. r\<lparr>cu_LastOffline := v\<rparr>) rw;
          rw = set_ok (getUptimeDuration u (cu_LastOnline (fst rw))) (\<lambda>v r. r\<lparr>cu_Uptime := v\<rparr>) rw;
          rw = set_ok (\<lambda>w. (getLastDownDuration (cu_LastOffline (fst rw)) (cu_LastOnline (fst rw)), w))
                      (\<lambda>v r. r\<lparr>cu_LastDownTimeDuration := v\<rparr>) rw;
          rw = set_ok (getLastOfflineReason u (mc_OnuLastOfflineReasonOID c) n)
                      (\<lambda>v r. r\<lparr>cu_LastOfflineReason := v\<rparr>) rw
      in set_ok (getOnuGponOpticalDistance u (mc_OnuGponOpticalDistanceOID c) n)
                (\<lambda>v r. r\<lparr>cu_GponOpticalDistance := v\<rparr>) rw)"

fun fetch_details ::
    "'w onu_uc \<Rightarrow> OnuOltConfig \<Rightarrow> int \<Rightarrow> int \<Rightarrow> snmp_pdu list \<Rightarrow> ONUCustomerInfo \<Rightarrow> 'w \<Rightarrow> ONUCustomerInfo \<times> 'w" where
  "fetch_details u c b p [] d w = (d, w)"
| "fetch_details u c b p (pdu # pdus) d w =
     (case fetch_detail u c b p pdu w of (d', w) \<Rightarrow> fetch_details u c b p pdus d' w)"

definition GetByBoardIDPonIDAndOnuID ::
    "(bytes, snmp_pdu) range_ord \<Rightarrow> 'w onu_uc \<Rightarrow> int \<Rightarrow> int \<Rightarrow> int \<Rightarrow> 'w
     \<Rightarrow> (gerror + ONUCustomerInfo) \<times> 'w" where
  "GetByBoardIDPonIDAndOnuID ord u boardID ponID onuID w =
     (case getOltConfig u boardID ponID of
        Inl err \<Rightarrow> (Inl err, w)
      | Inr c \<Rightarrow>
          (case snmp_BulkWalk (uc_snmp u) (mc_BaseOID c @ mc_OnuIDNameOID c @ ''.'' @ itoa onuID) w of
             ((pdus, Some err), w) \<Rightarrow> (Inl (NewSNMPError ''Walk'' err), w)
           | ((pdus, None), w) \<Rightarrow>
               (case fetch_details u c boardID ponID (map snd (ord (collect_pdus pdus))) zero_ONUCustomerInfo w of
                  (d, w) \<Rightarrow> (Inr d, w))))"

subsection \<open>Free ONU numbers\<close>

definition free_ids :: "int \<Rightarrow> int \<Rightarrow> snmp_pdu list \<Rightarrow> OnuID list" where
  "free_ids boardID ponID pdus =
     (let numbersToRemove = map (\<lambda>pdu. ExtractIDOnuID (pdu_Name pdu)) pdus;
          emptyOnuIDList = map (\<lambda>i. \<lparr>id_Board = boardID, id_PON = ponID, id_ID = i\<rparr>)
                             (filter (\<lambda>i. i \<notin> set numbersToRemove) [1..MaxOnuIDPerPon])
      in sort_key id_ID emptyOnuIDList)"

definition GetEmptyOnuID :: "'w onu_uc \<Rightarrow> int \<Rightarrow> int \<Rightarrow> 'w \<Rightarrow> (gerror + OnuID list option) \<times> 'w" where
  "GetEmptyOnuID u boardID ponID w =
     (case getOltConfig u boardID ponID of
        Inl err \<Rightarrow> (Inl err, w)
      | Inr c \<Rightarrow>
          (let redisKey = cacheKey (uc_oltID u) (GenerateRedisKey RedisKeyTypeEmptyOnuID boardID ponID)
           in case GetOnuIDCtx (uc_redis u) redisKey w of
                (Inr (Some cached), w) \<Rightarrow> (Inr (Some cached), w)
              | (_, w) \<Rightarrow>
                  (case snmp_BulkWalk (uc_snmp u) (mc_BaseOID c @ mc_OnuIDNameOID c) w of
                     ((pdus, Some err), w) \<Rightarrow> (Inl err, w)
                   | ((pdus, None), w) \<Rightarrow>
                       (let ids = Some (free_ids boardID ponID pdus)
                        in case SetOnuIDCtx (uc_redis u) redisKey (EmptyOnuIDTTL (CacheCfg (uc_cfg u))) ids w of
                             (Some err, w) \<Rightarrow> (Inl err, w)
                           | (None, w) \<Rightarrow> (Inr ids, w)))))"

definition UpdateEmptyOnuID :: "'w onu_uc \<Rightarrow> int \<Rightarrow> int \<Rightarrow> 'w \<Rightarrow> gerror option \<times> 'w" where
  "UpdateEmptyOnuID u boardID ponID w =
     (case getOltConfig u boardID ponID of
        Inl err \<Rightarrow> (Some err, w)
      | Inr c \<Rightarrow>
          (case snmp_BulkWalk (uc_snmp u) (mc_BaseOID c @ mc_OnuIDNameOID c) w of
             ((pdus, Some err), w) \<Rightarrow> (Some (NewSNMPError ''Walk'' err), w)
           | ((pdus, None), w) \<Rightarrow>
               (case SetOnuIDCtx (uc_redis u)
                       (cacheKey (uc_oltID u) (GenerateRedisKey RedisKeyTypeEmptyOnuID boardID ponID))
                       (EmptyOnuIDTTL (CacheCfg (uc_cfg u))) (Some (free_ids boardID ponID pdus)) w of
                  (Some err, w) \<Rightarrow> (Some (NewRedisError ''Set'' err), w)
                | (None, w) \<Rightarrow> (None, w))))"

subsection \<open>Serial numbers\<close>

fun fetch_serials ::
    "'w onu_uc \<Rightarrow> OnuOltConfig \<Rightarrow> int \<Rightarrow> int \<Rightarrow> int list \<Rightarrow> 'w \<Rightarrow> OnuSerialNumber list \<times> 'w" where
  "fetch_serials u c b p [] w = ([], w)"
| "fetch_serials u c b p (i # ids) w =
     (case getSerialNumber u (mc_OnuSerialNumberOID c) (itoa i) w of
        (Inl _, w) \<Rightarrow> fetch_serials u c b p ids w
      | (Inr sn, w) \<Rightarrow>
          (case fetch_serials u c b p ids w of
             (l, w) \<Rightarrow> (\<lparr>sn_Board = b, sn_PON = p, sn_ID = i, sn_SerialNumber = sn\<rparr> # l, w)))"

text \<open>
  \<open>sort.Slice\<close> of the serial numbers. The walk delivers every ONU number once; for equal
  numbers Go leaves the order open, and the model keeps the order of the walk.
\<close>

definition GetOnuIDAndSerialNumber ::
    "'w onu_uc \<Rightarrow> bool \<Rightarrow> int \<Rightarrow> int \<Rightarrow> 'w \<Rightarrow> (gerror + OnuSerialNumber list option) \<times> 'w" where
  "GetOnuIDAndSerialNumber u nocache boardID ponID w =
     (case getOltConfig u boardID ponID of
        Inl err \<Rightarrow> (Inl err, w)
      | Inr c \<Rightarrow>
          (let redisKey = cacheKey (uc_oltID u) (serial_list_key boardID ponID)
           in case (if nocache then (Inr None, w) else GetONUSerialList (uc_redis u) redisKey w) of
                (Inr (Some cached), w) \<Rightarrow> (Inr (Some cached), w)
              | (_, w) \<Rightarrow>
                  (case snmp_BulkWalk (uc_snmp u) (mc_BaseOID c @ mc_OnuIDNameOID c) w of
                     ((pdus, Some err), w) \<Rightarrow> (Inl err, w)
                   | ((pdus, None), w) \<Rightarrow>
                       (case fetch_serials u c boardID ponID (map (\<lambda>pdu. ExtractIDOnuID (pdu_Name pdu)) pdus) w of
                          (l, w) \<Rightarrow>
                            (let sl = var_slice (sort_key sn_ID l)
                             in (Inr sl,
                                 snd (SaveONUSerialList (uc_redis u) redisKey (ONUInfoTTL (CacheCfg (uc_cfg u))) sl w)))))))"

subsection \<open>Invalidation\<close>

definition DeleteCache :: "'w onu_uc \<Rightarrow> int \<Rightarrow> int \<Rightarrow> 'w \<Rightarrow> gerror option \<times> 'w" where
  "DeleteCache u boardID ponID w =
     (case getBoardConfig u boardID ponID of
        Inl _ \<Rightarrow> (Some (NewValidationError ''invalid board/pon combination''
                          [(''board_id'', jint boardID), (''pon_id'', jint ponID)]), w)
      | Inr _ \<Rightarrow>
          (case Delete (uc_redis u) (cacheKey (uc_oltID u) (GenerateRedisKey RedisKeyTypeONUInfo boardID ponID)) w of
             (Some err, w) \<Rightarrow> (Some (NewRedisError ''delete cache'' err), w)
           | (None, w) \<Rightarrow>
               (None, snd (Delete (uc_redis u) (cacheKey (uc_oltID u) (serial_list_key boardID ponID)) w))))"

definition InvalidateONUCache :: "'w onu_uc \<Rightarrow> int \<Rightarrow> int \<Rightarrow> int \<Rightarrow> 'w \<Rightarrow> gerror option \<times> 'w" where
  "InvalidateONUCache u boardID ponID onuID w =
     (let w = snd (Delete (uc_redis u) (cacheKey (uc_oltID u) (GenerateONUDetailRedisKey boardID ponID onuID)) w);
          w = snd (Delete (uc_redis u) (cacheKey (uc_oltID u) (GenerateRedisKey RedisKeyTypeONUInfo boardID ponID)) w);
          w = snd (Delete (uc_redis u) (cacheKey (uc_oltID u) (serial_list_key boardID ponID)) w)
      in (None, w))"

subsection \<open>Pre-warming\<close>

text \<open>
  The context is asked before each port and between the two queries of a port. The result
  counts the successes and the failures, and tells whether the run was completed.
\<close>

fun prewarm_loop ::
    "(bytes, snmp_pdu) range_ord \<Rightarrow> 'w onu_uc \<Rightarrow> ('w \<Rightarrow> bool \<times> 'w) \<Rightarrow> BoardPonKey list \<Rightarrow> int \<Rightarrow> int \<Rightarrow> 'w
     \<Rightarrow> (bool \<times> int \<times> int) \<times> 'w" where
  "prewarm_loop ord u done [] good errors w = ((True, good, errors), w)"
| "prewarm_loop ord u done ((b, p) # keys) good errors w =
     (case done w of
        (True, w) \<Rightarrow> ((False, good, errors), w)
      | (False, w) \<Rightarrow>
          (case GetByBoardIDAndPonID ord u b p w of
             ((res, _), w) \<Rightarrow>
               (let good' = (case res of Inl _ \<Rightarrow> good | Inr _ \<Rightarrow> good + 1);
                    errors' = (case res of Inl _ \<Rightarrow> errors + 1 | Inr _ \<Rightarrow> errors)
                in case done w of
                     (True, w) \<Rightarrow> ((False, good', errors'), w)
                   | (False, w) \<Rightarrow>
                       prewarm_loop ord u done keys good' errors' (snd (GetOnuIDAndSerialNumber u False b p w)))))"

definition PreWarmCache ::
    "(bytes, snmp_pdu) range_ord \<Rightarrow> (BoardPonKey, BoardPonConfig) range_ord \<Rightarrow> 'w onu_uc \<Rightarrow> ('w \<Rightarrow> bool \<times> 'w)
     \<Rightarrow> 'w \<Rightarrow> (bool \<times> int \<times> int) \<times> 'w" where
  "PreWarmCache ord ord' u done w =
     prewarm_loop ord u done (map fst (ord' (BoardPonMap (uc_cfg u)))) 0 0 w"

end
