(* ===== verification/Onu_Keys.thy ===== *)
theory Onu_Keys
  imports Onu_Usecase
begin

text \<open>
  The cache keys of \<open>internal/usecase/onu.go\<close>: several OLTs share one Redis, and nothing
  escapes the OLT id in front of a key, so that two entries never share a key is a property of the
  key texts.
\<close>

text \<open>An entry of the cache, and the key the code gives it.\<close>

datatype cache_entry = InfoList int int | FreeIds int int | SerialList int int | Detail int int int

fun entry_key :: "cache_entry \<Rightarrow> bytes" where
  "entry_key (InfoList b p) = GenerateRedisKey RedisKeyTypeONUInfo b p"
| "entry_key (FreeIds b p) = GenerateRedisKey RedisKeyTypeEmptyOnuID b p"
| "entry_key (SerialList b p) = serial_list_key b p"
| "entry_key (Detail b p n) = GenerateONUDetailRedisKey b p n"

subsection \<open>The parts of a key\<close>

lemma itoa_no_b [simp]: "CHR ''b'' \<notin> set (itoa n)"
  using itoa_chars [of "CHR ''b''" n] by (auto simp: is_digit_def)

lemma append_underscore:
  assumes "CHR ''_'' \<notin> set a" "CHR ''_'' \<notin> set a'"
  shows "a @ CHR ''_'' # r = a' @ CHR ''_'' # r' \<longleftrightarrow> a = a' \<and> r = r'"
proof
  assume eq: "a @ CHR ''_'' # r = a' @ CHR ''_'' # r'"
  then have "cut CHR ''_'' (a @ CHR ''_'' # r) = cut CHR ''_'' (a' @ CHR ''_'' # r')" by simp
  then show "a = a' \<and> r = r'" using assms by (simp add: cut_append)
qed simp

lemma append_underscore_end: "CHR ''_'' \<notin> set a' \<Longrightarrow> a @ CHR ''_'' # r \<noteq> a'"
  by auto

text \<open>Every key of an entry is \<open>board_\<close>, the card, \<open>_pon_\<close>, the port and a tail.\<close>

fun entry_tail :: "cache_entry \<Rightarrow> bytes" where
  "entry_tail (InfoList b p) = itoa p"
| "entry_tail (FreeIds b p) = itoa p @ ''_empty_onu_id''"
| "entry_tail (SerialList b p) = itoa p @ ''_serial_list''"
| "entry_tail (Detail b p n) = itoa p @ ''_onu_'' @ itoa n @ ''_detail''"

fun entry_board :: "cache_entry \<Rightarrow> int" where
  "entry_board (InfoList b p) = b"
| "entry_board (FreeIds b p) = b"
| "entry_board (SerialList b p) = b"
| "entry_board (Detail b p n) = b"

lemma entry_key_parts: "entry_key e = ''board_'' @ itoa (entry_board e) @ ''_pon_'' @ entry_tail e"
  by (cases e) (simp_all add: GenerateRedisKey_def serial_list_key_def GenerateONUDetailRedisKey_def)

lemma entry_tail_inj: "entry_tail e = entry_tail e' \<Longrightarrow> entry_board e = entry_board e' \<Longrightarrow> e = e'"
  by (cases e; cases e')
     (auto simp: append_underscore append_underscore_end append_underscore_end [THEN not_sym])

lemma entry_key_inj: "entry_key e = entry_key e' \<longleftrightarrow> e = e'"
proof
  assume "entry_key e = entry_key e'"
  then have "itoa (entry_board e) @ CHR ''_'' # ''pon_'' @ entry_tail e
      = itoa (entry_board e') @ CHR ''_'' # ''pon_'' @ entry_tail e'"
    by (simp add: entry_key_parts)
  then show "e = e'" by (simp add: append_underscore entry_tail_inj)
qed simp

text \<open>The letter \<open>b\<close> occurs in a key once, at its start.\<close>

lemma entry_key_b: "\<exists>r. entry_key e = CHR ''b'' # r \<and> CHR ''b'' \<notin> set r"
  by (cases e) (auto simp: GenerateRedisKey_def serial_list_key_def GenerateONUDetailRedisKey_def)

lemma append_last_b:
  assumes "x @ entry_key e = y @ entry_key e'"
  shows "x = y \<and> entry_key e = entry_key e'"
proof -
  obtain r r' where r: "entry_key e = CHR ''b'' # r" "CHR ''b'' \<notin> set r"
    and r': "entry_key e' = CHR ''b'' # r'" "CHR ''b'' \<notin> set r'"
    using entry_key_b by blast
  have "rev r @ CHR ''b'' # rev x = rev r' @ CHR ''b'' # rev y"
    using arg_cong [OF assms, of rev] r r' by simp
  then have "cut CHR ''b'' (rev r @ CHR ''b'' # rev x) = cut CHR ''b'' (rev r' @ CHR ''b'' # rev y)" by simp
  then have "rev r = rev r' \<and> rev x = rev y" using r r' by (simp add: cut_append)
  then show ?thesis using r r' by simp
qed

definition key_space :: "bytes \<Rightarrow> bytes" where
  "key_space oltID = (if oltID = [] then [] else ''olt_'' @ oltID @ ''_'')"

lemma cacheKey_space: "cacheKey oltID base = key_space oltID @ base"
  by (simp add: cacheKey_def key_space_def)

lemma key_space_inj: "key_space x = key_space y \<longleftrightarrow> x = y"
  by (auto simp: key_space_def)

lemma entry_key_same:
  "cacheKey oltID (entry_key e) = cacheKey oltID' (entry_key e') \<longleftrightarrow> oltID = oltID' \<and> e = e'"
  using append_last_b [of "key_space oltID" e "key_space oltID'" e'] entry_key_inj [of e e']
  by (auto simp: cacheKey_space key_space_inj)

text \<open>
  C34. Two cache entries have the same Redis key only if they belong to the same OLT and
  are the same entry: the same kind, card, port and ONU. This holds for every OLT id, also one
  that looks like part of a key.
\<close>

theorem cacheKey_inj:
  "cacheKey oltID (entry_key e) = cacheKey oltID' (entry_key e') \<longleftrightarrow> oltID = oltID' \<and> e = e'"
  by (rule entry_key_same)

end
