(* ===== verification/Onu_Queries.thy ===== *)
theory Onu_Queries
  imports Onu_Keys Load_Config
begin

text \<open>
  What the queries of \<open>internal/usecase/onu.go\<close> return for a device that answers. The
  documented behaviour of SNMP they rely on is \<open>serves\<close>: \<open>Get\<close> returns one variable per
  requested identifier in the order of the request, and a walk delivers the leaves below its root.
\<close>

subsection \<open>A port of a device\<close>

text \<open>The ONUs of a port with the values of their names, and the value of every other leaf.\<close>

definition name_pdu :: "OnuOltConfig \<Rightarrow> int \<times> snmp_value \<Rightarrow> snmp_pdu" where
  "name_pdu c onu = \<lparr>pdu_Name = mc_BaseOID c @ mc_OnuIDNameOID c @ ''.'' @ itoa (fst onu), pdu_Value = snd onu\<rparr>"

definition serves :: "'w snmp_repo \<Rightarrow> OnuOltConfig \<Rightarrow> (int \<times> snmp_value) list \<Rightarrow> (bytes \<Rightarrow> snmp_value) \<Rightarrow> bool" where
  "serves r c onus val \<longleftrightarrow>
     (\<forall>oids w. fst (snmp_Get r oids w) = Inr (map (\<lambda>oid. \<lparr>pdu_Name = oid, pdu_Value = val oid\<rparr>) oids))
     \<and> (\<forall>w. fst (snmp_BulkWalk r (mc_BaseOID c @ mc_OnuIDNameOID c) w) = (map (name_pdu c) onus, None))
     \<and> (\<forall>i w. fst (snmp_BulkWalk r (mc_BaseOID c @ mc_OnuIDNameOID c @ ''.'' @ itoa i) w)
              = (map (name_pdu c) (filter (\<lambda>onu. fst onu = i) onus), None))"

text \<open>ONU numbers are natural numbers, each at most once on a port.\<close>

definition onu_numbers :: "(int \<times> snmp_value) list \<Rightarrow> bool" where
  "onu_numbers onus \<longleftrightarrow> distinct (map fst onus) \<and> (\<forall>onu \<in> set onus. in_int64 (fst onu))"

lemma name_pdu_id:
  assumes "in_int64 (fst onu)"
  shows "ExtractIDOnuID (pdu_Name (name_pdu c onu)) = fst onu"
    and "ExtractONUID (pdu_Name (name_pdu c onu)) = itoa (fst onu)"
  using assms last_split_on_append [of "CHR ''.''" "itoa (fst onu)" "mc_BaseOID c @ mc_OnuIDNameOID c"]
  by (simp_all add: name_pdu_def ExtractIDOnuID_def ExtractONUID_def)

lemma fold_set_fresh:
  assumes "distinct (map f ps)" "\<forall>p \<in> set ps. f p \<notin> fst ` set m"
  shows "fold (\<lambda>p m. gm_set (f p) p m) ps m = m @ map (\<lambda>p. (f p, p)) ps"
  using assms
proof (induction ps arbitrary: m)
  case (Cons p ps)
  then have "fold (\<lambda>p m. gm_set (f p) p m) ps (m @ [(f p, p)]) = (m @ [(f p, p)]) @ map (\<lambda>p. (f p, p)) ps"
    by (intro Cons.IH) (auto simp: image_iff)
  with Cons.prems show ?case by (simp add: gm_set_fresh)
qed simp

lemma collect_pdus_names:
  assumes "onu_numbers onus"
  shows "collect_pdus (map (name_pdu c) onus) = map (\<lambda>onu. (itoa (fst onu), name_pdu c onu)) onus"
proof -
  let ?ps = "map (name_pdu c) onus"
  have keys: "map (\<lambda>p. ExtractONUID (pdu_Name p)) ?ps = map (\<lambda>onu. itoa (fst onu)) onus"
    using assms by (simp add: onu_numbers_def name_pdu_id)
  have "distinct (map (\<lambda>onu. itoa (fst onu)) onus)"
    using assms by (auto simp: onu_numbers_def distinct_map inj_on_def)
  then have "collect_pdus ?ps = [] @ map (\<lambda>p. (ExtractONUID (pdu_Name p), p)) ?ps"
    unfolding collect_pdus_def keys [symmetric] by (rule fold_set_fresh) simp
  with assms show ?thesis by (simp add: onu_numbers_def name_pdu_id)
qed

text \<open>What a \<open>for range\<close> over the collected PDUs visits: every ONU, in some order.\<close>

lemma ranged_pdus:
  assumes "range_order ord" "onu_numbers onus"
  obtains onus' where "map snd (ord (collect_pdus (map (name_pdu c) onus))) = map (name_pdu c) onus'"
    and "mset onus' = mset onus"
proof -
  let ?f = "\<lambda>onu. (itoa (fst onu), name_pdu c onu)"
  have "mset (ord (collect_pdus (map (name_pdu c) onus))) = image_mset ?f (mset onus)"
    using assms by (simp add: range_order_mset collect_pdus_names)
  then obtain onus' where "ord (collect_pdus (map (name_pdu c) onus)) = map ?f onus'" "mset onus' = mset onus"
    using mset_map_inv [of _ ?f "mset onus"] by blast
  moreover have "map snd (map ?f onus') = map (name_pdu c) onus'" by simp
  ultimately show thesis using that by metis
qed

subsection \<open>The list of a port\<close>

text \<open>The leaves of one ONU, and the entry of an ONU in the list.\<close>

definition leaf :: "bytes \<Rightarrow> bytes \<Rightarrow> int \<Rightarrow> bytes" where
  "leaf base col i = base @ col @ ''.'' @ itoa i"

definition power_text :: "snmp_value \<Rightarrow> bytes" where
  "power_text v = (case ConvertAndMultiply v of Inr s \<Rightarrow> s | Inl _ \<Rightarrow> [])"

definition list_entry ::
    "'w onu_uc \<Rightarrow> OnuOltConfig \<Rightarrow> int \<Rightarrow> int \<Rightarrow> (bytes \<Rightarrow> snmp_value) \<Rightarrow> int \<times> snmp_value \<Rightarrow> ONUInfoPerBoard" where
  "list_entry u c b p val onu =
     \<lparr>oi_Board = b, oi_PON = p, oi_ID = fst onu, oi_Name = ExtractName (snd onu),
      oi_OnuType = ExtractName (val (leaf (base2 u) (mc_OnuTypeOID c) (fst onu))),
      oi_SerialNumber = ExtractSerialNumber (val (leaf (base1 u) (mc_OnuSerialNumberOID c) (fst onu))),
      oi_RXPower = power_text (val (leaf (base1 u) (mc_OnuRxPowerOID c) (fst onu) @ SNMPOIDSuffix)),
      oi_Status = ExtractAndGetStatus (val (leaf (base1 u) (mc_OnuStatusOID c) (fst onu)))\<rparr>"

lemma serves_Get:
  assumes "serves r c onus val"
  obtains w' where "snmp_Get r oids w = (Inr (map (\<lambda>oid. \<lparr>pdu_Name = oid, pdu_Value = val oid\<rparr>) oids), w')"
  by (rule that [of "snd (snmp_Get r oids w)"]) (use assms in \<open>simp add: serves_def prod_eq_iff\<close>)

lemma serves_BulkWalk:
  assumes "serves r c onus val"
  obtains w' where "snmp_BulkWalk r (mc_BaseOID c @ mc_OnuIDNameOID c) w = ((map (name_pdu c) onus, None), w')"
  by (rule that [of "snd (snmp_BulkWalk r (mc_BaseOID c @ mc_OnuIDNameOID c) w)"])
     (use assms in \<open>simp add: serves_def prod_eq_iff\<close>)

lemma fetch_info_got:
  assumes "snmp_Get (uc_snmp u) (info_oids u c (ExtractIDOnuID (pdu_Name pdu))) w = (Inr (v1 # v2 # v3 # v4 # vs), w')"
  shows "fetch_info u c b p pdu w =
     (\<lparr>oi_Board = b, oi_PON = p, oi_ID = ExtractIDOnuID (pdu_Name pdu), oi_Name = ExtractName (pdu_Value pdu),
       oi_OnuType = ExtractName (pdu_Value v1), oi_SerialNumber = ExtractSerialNumber (pdu_Value v2),
       oi_RXPower = power_text (pdu_Value v3), oi_Status = ExtractAndGetStatus (pdu_Value v4)\<rparr>, w')"
  unfolding fetch_info_def Let_def zero_ONUInfoPerBoard_def power_text_def
  unfolding ONUInfoPerBoard.simps assms prod.case sum.case list.case
  by (cases "ConvertAndMultiply (pdu_Value v3)") simp_all

lemma fetch_info_served:
  assumes "serves (uc_snmp u) c onus val" "in_int64 (fst onu)"
  shows "fst (fetch_info u c b p (name_pdu c onu) w) = list_entry u c b p val onu"
proof -
  let ?oids = "info_oids u c (fst onu)"
  obtain w' where "snmp_Get (uc_snmp u) ?oids w
      = (Inr (map (\<lambda>oid. \<lparr>pdu_Name = oid, pdu_Value = val oid\<rparr>) ?oids), w')"
    using serves_Get [OF assms(1)] .
  then have "snmp_Get (uc_snmp u) (info_oids u c (ExtractIDOnuID (pdu_Name (name_pdu c onu)))) w
      = (Inr (map (\<lambda>oid. \<lparr>pdu_Name = oid, pdu_Value = val oid\<rparr>) ?oids), w')"
    by (simp only: name_pdu_id(1) [OF assms(2)])
  also have "map (\<lambda>oid. \<lparr>pdu_Name = oid, pdu_Value = val oid\<rparr>) ?oids
      = [\<lparr>pdu_Name = ?oids ! 0, pdu_Value = val (?oids ! 0)\<rparr>, \<lparr>pdu_Name = ?oids ! 1, pdu_Value = val (?oids ! 1)\<rparr>,
         \<lparr>pdu_Name = ?oids ! 2, pdu_Value = val (?oids ! 2)\<rparr>, \<lparr>pdu_Name = ?oids ! 3, pdu_Value = val (?oids ! 3)\<rparr>]"
    by (simp add: info_oids_def)
  finally show ?thesis
    by (simp add: fetch_info_got name_pdu_id(1) [OF assms(2)] list_entry_def)
       (simp add: info_oids_def leaf_def name_pdu_def)
qed

lemma fetch_infos_served:
  assumes "serves (uc_snmp u) c onus val" "\<forall>onu \<in> set xs. in_int64 (fst onu)"
  shows "fst (fetch_infos u c b p (map (name_pdu c) xs) w) = map (list_entry u c b p val) xs"
  using assms(2)
proof (induction xs arbitrary: w)
  case (Cons x xs)
  obtain i w1 where i: "fetch_info u c b p (name_pdu c x) w = (i, w1)" by (cases "fetch_info u c b p (name_pdu c x) w")
  obtain l w2 where l: "fetch_infos u c b p (map (name_pdu c) xs) w1 = (l, w2)"
    by (cases "fetch_infos u c b p (map (name_pdu c) xs) w1")
  have "i = list_entry u c b p val x" using fetch_info_served [OF assms(1), of x b p w] i Cons.prems by simp
  moreover have "l = map (list_entry u c b p val) xs" using Cons.IH [of w1] Cons.prems l by simp
  ultimately show ?case using i l by simp
qed simp

lemma walk_infos_served:
  assumes "serves (uc_snmp u) c onus val" "onu_numbers onus" "range_order ord"
  shows "fst (walk_infos ord u c b p w) = Inr (var_slice (map (list_entry u c b p val) (sort_key fst onus)))"
proof -
  obtain w1 where w1: "snmp_BulkWalk (uc_snmp u) (mc_BaseOID c @ mc_OnuIDNameOID c) w
      = ((map (name_pdu c) onus, None), w1)"
    using serves_BulkWalk [OF assms(1)] .
  obtain onus' where r: "map snd (ord (collect_pdus (map (name_pdu c) onus))) = map (name_pdu c) onus'"
    and m: "mset onus' = mset onus"
    using ranged_pdus [OF assms(3,2)] .
  have "\<forall>onu \<in> set onus'. in_int64 (fst onu)"
    using assms(2) m by (metis onu_numbers_def set_mset_mset)
  then have f: "fst (fetch_infos u c b p (map (name_pdu c) onus') w1) = map (list_entry u c b p val) onus'"
    by (rule fetch_infos_served [OF assms(1)])
  let ?e = "list_entry u c b p val"
  have inj: "inj_on fst (set onus')"
    using assms(2) m by (metis distinct_map mset_eq_imp_distinct_iff mset_map onu_numbers_def)
  have "sort_key oi_ID (map ?e onus') = map ?e (sort_key fst onus')"
    by (simp add: sort_key_map list_entry_def)
  also have "\<dots> = map ?e (sort_key fst onus)" by (simp add: sort_key_perm_unique [OF m inj])
  finally have "sort_key oi_ID (map ?e onus') = map ?e (sort_key fst onus)" .
  then show ?thesis
    using w1 r f by (auto simp: walk_infos_def split: prod.splits)
qed

lemma var_slice_list [simp]: "slice_list (var_slice xs) = xs"
  by (simp add: slice_list_def var_slice_def)

lemma list_served:
  assumes "getOltConfig u b p = Inr c" "serves (uc_snmp u) c onus val" "onu_numbers onus" "range_order ord"
    and "\<forall>l. fst (GetONUInfoList (uc_redis u) (cacheKey (uc_oltID u) (GenerateRedisKey RedisKeyTypeONUInfo b p)) w)
            \<noteq> Inr (Some l)"
  shows "\<exists>l. fst (GetByBoardIDAndPonID ord u b p w) = (Inr (var_slice l), False)
    \<and> sorted_wrt (<) (map oi_ID l) \<and> set l = list_entry u c b p val ` set onus"
proof -
  let ?k = "cacheKey (uc_oltID u) (GenerateRedisKey RedisKeyTypeONUInfo b p)"
  let ?l = "map (list_entry u c b p val) (sort_key fst onus)"
  obtain res w1 where g: "GetONUInfoList (uc_redis u) ?k w = (res, w1)" by (cases "GetONUInfoList (uc_redis u) ?k w")
  have "fst (walk_infos ord u c b p w1) = Inr (var_slice ?l)"
    by (rule walk_infos_served [OF assms(2-4)])
  then obtain w2 where wk: "walk_infos ord u c b p w1 = (Inr (var_slice ?l), w2)"
    by (metis prod.collapse)
  have res: "fst (GetByBoardIDAndPonID ord u b p w) = (Inr (var_slice ?l), False)"
    using assms(1,5) g wk
    by (auto simp: GetByBoardIDAndPonID_def Let_def split: sum.splits option.splits prod.splits)
  have keys: "map oi_ID ?l = sort (map fst onus)"
    by (simp add: list_entry_def comp_def sort_key_map [of "\<lambda>x. x", symmetric])
  have "sorted_wrt (<) (map oi_ID ?l)"
    unfolding keys using assms(3) by (simp add: onu_numbers_def strict_sorted_iff)
  with res show ?thesis by (intro exI [of _ ?l]) simp
qed

text \<open>
  On a device that answers, a cold list of a port has one entry for every ONU of
  the port and no other, in ascending order of the ONU numbers, each with the values of its own
  leaves: it does not depend on the order in which Go visits the map of the walk.
\<close>

theorem GetByBoardIDAndPonID_list:
  assumes "getOltConfig u b p = Inr c" "serves (uc_snmp u) c onus val" "onu_numbers onus" "range_order ord"
    and "\<forall>l. fst (GetONUInfoList (uc_redis u) (cacheKey (uc_oltID u) (GenerateRedisKey RedisKeyTypeONUInfo b p)) w)
            \<noteq> Inr (Some l)"
  shows "\<exists>l. fst (GetByBoardIDAndPonID ord u b p w) = (Inr (var_slice l), False)
    \<and> sorted_wrt (<) (map oi_ID l) \<and> set l = list_entry u c b p val ` set onus"
  by (rule list_served [OF assms])

subsection \<open>The detail of one ONU\<close>

lemma get_value_served:
  assumes "serves (uc_snmp u) c onus val"
  shows "fst (get_value u oid conv w) = conv (val oid)"
proof -
  obtain w' where "snmp_Get (uc_snmp u) [oid] w
      = (Inr (map (\<lambda>oid. \<lparr>pdu_Name = oid, pdu_Value = val oid\<rparr>) [oid]), w')"
    using serves_Get [OF assms] .
  then show ?thesis by (simp add: get_value_def getFromSNMPWithSingleflight_def)
qed

lemma set_ok_keep: "(\<And>v r. sel (upd v r) = sel r) \<Longrightarrow> sel (fst (set_ok f upd rw)) = sel (fst rw)"
  by (auto simp: set_ok_def split: prod.splits sum.splits)

definition or_else :: "gerror + 'a \<Rightarrow> 'a \<Rightarrow> 'a" where
  "or_else res d = (case res of Inr v \<Rightarrow> v | Inl _ \<Rightarrow> d)"

lemma or_else_Inr [simp]: "or_else (Inr v) d = v"
  by (simp add: or_else_def)

lemma set_ok_get:
  "\<lbrakk>\<And>v r. sel (upd v r) = v; \<And>w. fst (f w) = res\<rbrakk>
   \<Longrightarrow> sel (fst (set_ok f upd rw)) = or_else res (sel (fst rw))"
  by (auto simp: or_else_def set_ok_def split: prod.splits sum.splits) (metis fst_conv sum.inject(2) sum.distinct(1))+

text \<open>A step that sets another field keeps this one; a step that sets it stores the result.\<close>

lemmas customer_keep =
  set_ok_keep [where sel = cu_Board] set_ok_keep [where sel = cu_PON] set_ok_keep [where sel = cu_ID]
  set_ok_keep [where sel = cu_Name] set_ok_keep [where sel = cu_Description] set_ok_keep [where sel = cu_OnuType]
  set_ok_keep [where sel = cu_SerialNumber] set_ok_keep [where sel = cu_RXPower] set_ok_keep [where sel = cu_TXPower]
  set_ok_keep [where sel = cu_Status] set_ok_keep [where sel = cu_IPAddress] set_ok_keep [where sel = cu_LastOnline]
  set_ok_keep [where sel = cu_LastOffline] set_ok_keep [where sel = cu_LastOfflineReason]
  set_ok_keep [where sel = cu_GponOpticalDistance]

lemmas customer_get =
  set_ok_get [where sel = cu_Description] set_ok_get [where sel = cu_OnuType] set_ok_get [where sel = cu_SerialNumber]
  set_ok_get [where sel = cu_RXPower] set_ok_get [where sel = cu_TXPower] set_ok_get [where sel = cu_Status]
  set_ok_get [where sel = cu_IPAddress] set_ok_get [where sel = cu_LastOnline] set_ok_get [where sel = cu_LastOffline]
  set_ok_get [where sel = cu_LastOfflineReason] set_ok_get [where sel = cu_GponOpticalDistance]

lemmas getter_defs = getONUType_def getSerialNumber_def getRxPower_def getTxPower_def getStatus_def getIPAddress_def
  getDescription_def getLastOnline_def getLastOffline_def getLastOfflineReason_def getOnuGponOpticalDistance_def

definition date_text :: "snmp_value \<Rightarrow> bytes" where
  "date_text v = (case v of VBytes bs \<Rightarrow> (case ConvertByteArrayToDateTime bs of Inr s \<Rightarrow> s | Inl _ \<Rightarrow> []) | _ \<Rightarrow> [])"

lemma date_text_value: "or_else (date_value what v) [] = date_text v"
  by (simp add: or_else_def date_value_def date_text_def split: snmp_value.splits)

text \<open>What a detail shows of the leaves of its ONU.\<close>

definition shows_onu ::
    "'w onu_uc \<Rightarrow> OnuOltConfig \<Rightarrow> (bytes \<Rightarrow> snmp_value) \<Rightarrow> int \<times> snmp_value \<Rightarrow> ONUCustomerInfo \<Rightarrow> bool" where
  "shows_onu u c val onu d \<longleftrightarrow>
     (let i = fst onu; v1 = (\<lambda>col. val (leaf (base1 u) col i)); v2 = (\<lambda>col. val (leaf (base2 u) col i)) in
      cu_TXPower d = power_text (val (leaf (base2 u) (mc_OnuTxPowerOID c) i @ SNMPOIDSuffix))
      \<and> cu_IPAddress d = ExtractName (val (leaf (base2 u) (mc_OnuIPAddressOID c) i @ SNMPOIDSuffix))
      \<and> cu_Description d = ExtractName (v1 (mc_OnuDescriptionOID c))
      \<and> cu_LastOnline d = date_text (v1 (mc_OnuLastOnlineOID c))
      \<and> cu_LastOffline d = date_text (v1 (mc_OnuLastOfflineOID c))
      \<and> cu_LastOfflineReason d = ExtractLastOfflineReason (v1 (mc_OnuLastOfflineReasonOID c))
      \<and> cu_GponOpticalDistance d = ExtractGponOpticalDistance (v1 (mc_OnuGponOpticalDistanceOID c)))"

text \<open>The fields the list and the detail have in common.\<close>

definition list_view :: "ONUCustomerInfo \<Rightarrow> ONUInfoPerBoard" where
  "list_view d = \<lparr>oi_Board = cu_Board d, oi_PON = cu_PON d, oi_ID = cu_ID d, oi_Name = cu_Name d,
     oi_OnuType = cu_OnuType d, oi_SerialNumber = cu_SerialNumber d, oi_RXPower = cu_RXPower d,
     oi_Status = cu_Status d\<rparr>"

lemma fetch_detail_fields:
  assumes "serves (uc_snmp u) c onus val" "in_int64 (fst onu)"
  shows "list_view (fst (fetch_detail u c b p (name_pdu c onu) w)) = list_entry u c b p val onu"
    and "shows_onu u c val onu (fst (fetch_detail u c b p (name_pdu c onu) w))"
proof -
  note v = get_value_served [OF assms(1)]
  have n: "pdu_Value (name_pdu c onu) = snd onu" by (simp add: name_pdu_def)
  note simps = fetch_detail_def Let_def customer_keep customer_get getter_defs v name_pdu_id(1) [OF assms(2)] n
    zero_ONUCustomerInfo_def leaf_def date_text_value power_or_empty_def power_text_def
  show "list_view (fst (fetch_detail u c b p (name_pdu c onu) w)) = list_entry u c b p val onu"
    by (simp add: simps list_view_def list_entry_def)
  show "shows_onu u c val onu (fst (fetch_detail u c b p (name_pdu c onu) w))"
    by (simp add: simps shows_onu_def)
qed

lemma serves_leaf_walk:
  assumes "serves r c onus val"
  obtains w' where "snmp_BulkWalk r (mc_BaseOID c @ mc_OnuIDNameOID c @ ''.'' @ itoa i) w
    = ((map (name_pdu c) (filter (\<lambda>onu. fst onu = i) onus), None), w')"
  by (rule that [of "snd (snmp_BulkWalk r (mc_BaseOID c @ mc_OnuIDNameOID c @ ''.'' @ itoa i) w)"])
     (use assms in \<open>simp add: serves_def prod_eq_iff\<close>)

lemma detail_of_walk:
  assumes "getOltConfig u b p = Inr c" "serves (uc_snmp u) c onus val" "onu_numbers onus" "range_order ord"
  obtains onus' w1 where "mset onus' = mset (filter (\<lambda>onu. fst onu = i) onus)"
    and "fst (GetByBoardIDPonIDAndOnuID ord u b p i w)
      = Inr (fst (fetch_details u c b p (map (name_pdu c) onus') zero_ONUCustomerInfo w1))"
proof -
  let ?here = "filter (\<lambda>onu. fst onu = i) onus"
  obtain w1 where w1: "snmp_BulkWalk (uc_snmp u) (mc_BaseOID c @ mc_OnuIDNameOID c @ ''.'' @ itoa i) w
      = ((map (name_pdu c) ?here, None), w1)"
    using serves_leaf_walk [OF assms(2)] .
  have "onu_numbers ?here" using assms(3) by (auto simp: onu_numbers_def distinct_map inj_on_def)
  from ranged_pdus [OF assms(4) this]
  obtain onus' where r: "map snd (ord (collect_pdus (map (name_pdu c) ?here))) = map (name_pdu c) onus'"
    and m: "mset onus' = mset ?here" .
  have "fst (GetByBoardIDPonIDAndOnuID ord u b p i w)
      = Inr (fst (fetch_details u c b p (map (name_pdu c) onus') zero_ONUCustomerInfo w1))"
    using assms(1) w1 r unfolding GetByBoardIDPonIDAndOnuID_def by (simp split: prod.split)
  with m show thesis by (rule that)
qed

lemma single_onu:
  assumes "onu_numbers onus" "onu \<in> set onus" "mset onus' = mset (filter (\<lambda>o1. fst o1 = fst onu) onus)"
  shows "onus' = [onu]"
proof -
  obtain xs ys where o: "onus = xs @ onu # ys" using assms(2) by (meson split_list)
  then have "fst onu \<notin> fst ` set xs" "fst onu \<notin> fst ` set ys" using assms(1) by (simp_all add: onu_numbers_def)
  then have "filter (\<lambda>o1. fst o1 = fst onu) xs = []" "filter (\<lambda>o1. fst o1 = fst onu) ys = []"
    by (auto simp: filter_empty_conv intro: rev_image_eqI)
  then show ?thesis using assms(3) by (simp add: o)
qed

lemma detail_served:
  assumes "getOltConfig u b p = Inr c" "serves (uc_snmp u) c onus val" "onu_numbers onus" "range_order ord"
  shows "(\<forall>onu \<in> set onus. \<exists>d. fst (GetByBoardIDPonIDAndOnuID ord u b p (fst onu) w) = Inr d
            \<and> list_view d = list_entry u c b p val onu \<and> shows_onu u c val onu d)
    \<and> (i \<notin> fst ` set onus \<longrightarrow> fst (GetByBoardIDPonIDAndOnuID ord u b p i w) = Inr zero_ONUCustomerInfo)"
proof (intro conjI ballI impI)
  fix onu assume onu: "onu \<in> set onus"
  obtain onus' w1 where m: "mset onus' = mset (filter (\<lambda>o1. fst o1 = fst onu) onus)"
    and d: "fst (GetByBoardIDPonIDAndOnuID ord u b p (fst onu) w)
      = Inr (fst (fetch_details u c b p (map (name_pdu c) onus') zero_ONUCustomerInfo w1))"
    using detail_of_walk [OF assms] .
  obtain d w2 where f: "fetch_detail u c b p (name_pdu c onu) w1 = (d, w2)" by fastforce
  have "in_int64 (fst onu)" using assms(3) onu by (simp add: onu_numbers_def)
  from fetch_detail_fields [OF assms(2) this, of b p w1] f
  have "list_view d = list_entry u c b p val onu \<and> shows_onu u c val onu d" by simp
  moreover have "fst (GetByBoardIDPonIDAndOnuID ord u b p (fst onu) w) = Inr d"
    using d f by (simp add: single_onu [OF assms(3) onu m])
  ultimately show "\<exists>d. fst (GetByBoardIDPonIDAndOnuID ord u b p (fst onu) w) = Inr d
      \<and> list_view d = list_entry u c b p val onu \<and> shows_onu u c val onu d" by blast
next
  assume i: "i \<notin> fst ` set onus"
  obtain onus' w1 where m: "mset onus' = mset (filter (\<lambda>o1. fst o1 = i) onus)"
    and d: "fst (GetByBoardIDPonIDAndOnuID ord u b p i w)
      = Inr (fst (fetch_details u c b p (map (name_pdu c) onus') zero_ONUCustomerInfo w1))"
    using detail_of_walk [OF assms] .
  have "filter (\<lambda>o1. fst o1 = i) onus = []" using i by (force simp: filter_empty_conv)
  with m d show "fst (GetByBoardIDPonIDAndOnuID ord u b p i w) = Inr zero_ONUCustomerInfo" by simp
qed

text \<open>
  C8. The live detail of an ONU of the port shows the values of that ONU's leaves, and
  agrees with its entry in the list on every field the two have in common; the detail of an ONU
  number that is not on the port is the zero detail.
\<close>

theorem GetByBoardIDPonIDAndOnuID_detail:
  assumes "getOltConfig u b p = Inr c" "serves (uc_snmp u) c onus val" "onu_numbers onus" "range_order ord"
  shows "(\<forall>onu \<in> set onus. \<exists>d. fst (GetByBoardIDPonIDAndOnuID ord u b p (fst onu) w) = Inr d
            \<and> list_view d = list_entry u c b p val onu \<and> shows_onu u c val onu d)
    \<and> (i \<notin> fst ` set onus \<longrightarrow> fst (GetByBoardIDPonIDAndOnuID ord u b p i w) = Inr zero_ONUCustomerInfo)"
  using assms by (rule detail_served)

subsection \<open>Free ONU numbers and serial numbers\<close>

lemma walked_ids:
  "onu_numbers onus \<Longrightarrow> map (\<lambda>pdu. ExtractIDOnuID (pdu_Name pdu)) (map (name_pdu c) onus) = map fst onus"
  by (simp add: onu_numbers_def name_pdu_id)

lemma free_ids_eq:
  "free_ids b p pdus = map (\<lambda>i. \<lparr>id_Board = b, id_PON = p, id_ID = i\<rparr>)
     (filter (\<lambda>i. i \<notin> set (map (\<lambda>pdu. ExtractIDOnuID (pdu_Name pdu)) pdus)) [1..MaxOnuIDPerPon])"
  unfolding free_ids_def Let_def
  by (rule sort_key_id_if_sorted) (simp add: comp_def sorted_wrt_filter)

text \<open>
  C33. On a device that answers, a cold query for free ONU numbers returns exactly the
  numbers from 1 to 128 that no ONU of the port has, in ascending order, with the card and port
  that were asked for; a failed write of the cache makes it an error instead.
\<close>

theorem GetEmptyOnuID_free:
  assumes "getOltConfig u b p = Inr c" "serves (uc_snmp u) c onus val" "onu_numbers onus"
    and "\<forall>l. fst (GetOnuIDCtx (uc_redis u) (cacheKey (uc_oltID u) (GenerateRedisKey RedisKeyTypeEmptyOnuID b p)) w)
            \<noteq> Inr (Some l)"
    and "fst (GetEmptyOnuID u b p w) = Inr res"
  shows "\<exists>ids. res = Some ids \<and> map id_ID ids = filter (\<lambda>i. i \<notin> fst ` set onus) [1..128]
    \<and> (\<forall>x \<in> set ids. id_Board x = b \<and> id_PON x = p)"
proof -
  let ?k = "cacheKey (uc_oltID u) (GenerateRedisKey RedisKeyTypeEmptyOnuID b p)"
  obtain r w1 where g: "GetOnuIDCtx (uc_redis u) ?k w = (r, w1)" by (cases "GetOnuIDCtx (uc_redis u) ?k w")
  obtain w2 where wk: "snmp_BulkWalk (uc_snmp u) (mc_BaseOID c @ mc_OnuIDNameOID c) w1
      = ((map (name_pdu c) onus, None), w2)"
    using serves_BulkWalk [OF assms(2)] .
  have "res = Some (free_ids b p (map (name_pdu c) onus))"
    using assms(1,4,5) g wk
    by (auto simp: GetEmptyOnuID_def Let_def split: sum.splits option.splits prod.splits)
  moreover have "free_ids b p (map (name_pdu c) onus) = map (\<lambda>i. \<lparr>id_Board = b, id_PON = p, id_ID = i\<rparr>)
      (filter (\<lambda>i. i \<notin> fst ` set onus) [1..128])"
    by (simp only: free_ids_eq walked_ids [OF assms(3)] set_map MaxOnuIDPerPon_def)
  ultimately show ?thesis by (simp add: comp_def)
qed

definition serial_entry ::
    "'w onu_uc \<Rightarrow> OnuOltConfig \<Rightarrow> int \<Rightarrow> int \<Rightarrow> (bytes \<Rightarrow> snmp_value) \<Rightarrow> int \<Rightarrow> OnuSerialNumber" where
  "serial_entry u c b p val i = \<lparr>sn_Board = b, sn_PON = p, sn_ID = i,
     sn_SerialNumber = ExtractSerialNumber (val (leaf (base1 u) (mc_OnuSerialNumberOID c) i))\<rparr>"

lemma fetch_serials_served:
  assumes "serves (uc_snmp u) c onus val"
  shows "fst (fetch_serials u c b p ids w) = map (serial_entry u c b p val) ids"
proof (induction ids arbitrary: w)
  case (Cons i ids)
  obtain w1 where "getSerialNumber u (mc_OnuSerialNumberOID c) (itoa i) w
      = (Inr (ExtractSerialNumber (val (leaf (base1 u) (mc_OnuSerialNumberOID c) i))), w1)"
    using get_value_served [OF assms] unfolding getSerialNumber_def leaf_def by (metis append_assoc prod.collapse)
  with Cons.IH [of w1] show ?case by (auto simp: serial_entry_def split: prod.split)
qed simp

text \<open>
  On a device that answers, a forced read of the serial numbers returns one entry
  for each ONU of the port, in ascending order, whatever the cache holds; a read that is not
  forced returns the same when the cache has no list.
\<close>

theorem GetOnuIDAndSerialNumber_fresh:
  assumes "getOltConfig u b p = Inr c" "serves (uc_snmp u) c onus val" "onu_numbers onus"
    and "nocache \<or> (\<forall>l. fst (GetONUSerialList (uc_redis u) (cacheKey (uc_oltID u) (serial_list_key b p)) w) \<noteq> Inr (Some l))"
  shows "fst (GetOnuIDAndSerialNumber u nocache b p w)
    = Inr (var_slice (map (serial_entry u c b p val) (sort (map fst onus))))"
proof -
  let ?k = "cacheKey (uc_oltID u) (serial_list_key b p)"
  let ?read = "if nocache then (Inr None, w) else GetONUSerialList (uc_redis u) ?k w"
  obtain r w1 where g: "?read = (r, w1)" by (cases ?read)
  have miss: "r \<noteq> Inr (Some l)" for l using assms(4) g by (auto split: if_splits)
  obtain w2 where wk: "snmp_BulkWalk (uc_snmp u) (mc_BaseOID c @ mc_OnuIDNameOID c) w1
      = ((map (name_pdu c) onus, None), w2)"
    using serves_BulkWalk [OF assms(2)] .
  obtain l w3 where l: "fetch_serials u c b p (map fst onus) w2 = (l, w3)" by fastforce
  then have "l = map (serial_entry u c b p val) (map fst onus)"
    using fetch_serials_served [OF assms(2), of b p "map fst onus" w2] by simp
  then have "sort_key sn_ID l = map (serial_entry u c b p val) (sort (map fst onus))"
    by (simp only: sort_key_map) (simp add: serial_entry_def)
  moreover have "fst (GetOnuIDAndSerialNumber u nocache b p w) = Inr (var_slice (sort_key sn_ID l))"
    unfolding GetOnuIDAndSerialNumber_def Let_def g assms(1) sum.case prod.case
    using miss by (cases r) (auto simp: wk l walked_ids [OF assms(3)] simp del: map_map split: option.split)
  ultimately show ?thesis by simp
qed

subsection \<open>A device and a cache for the witnesses\<close>

text \<open>A device given by a table serves the ONUs of the table.\<close>

definition table_device :: "OnuOltConfig \<Rightarrow> (int \<times> snmp_value) list \<Rightarrow> (bytes \<Rightarrow> snmp_value) \<Rightarrow> 'w snmp_repo" where
  "table_device c onus val =
     (let walk = (\<lambda>oid w. ((map (name_pdu c)
                    (if oid = mc_BaseOID c @ mc_OnuIDNameOID c then onus
                     else filter (\<lambda>onu. pdu_Name (name_pdu c onu) = oid) onus), None), w))
      in \<lparr>sr_conn = \<lparr>cn_Get = (\<lambda>oids w. (Inr (map (\<lambda>oid. \<lparr>pdu_Name = oid, pdu_Value = val oid\<rparr>) oids), w)),
                     cn_Walk = walk, cn_BulkWalk = walk\<rparr>,
          sr_acquire = (\<lambda>w. (True, w)), sr_useWalk = False\<rparr>)"

lemma table_device_serves: "serves (table_device c onus val) c onus val"
  by (simp add: serves_def table_device_def snmp_Get_def snmp_BulkWalk_def name_pdu_def Let_def)

definition ex_port :: BoardPonConfig where
  "ex_port = \<lparr>OnuIDNameOID = ''.1'', OnuTypeOID = ''.2'', OnuSerialNumberOID = ''.3'', OnuRxPowerOID = ''.4'',
     OnuTxPowerOID = ''.5'', OnuStatusOID = ''.6'', OnuIPAddressOID = ''.7'', OnuDescriptionOID = ''.8'',
     OnuLastOnlineOID = ''.9'', OnuLastOfflineOID = ''.10'', OnuLastOfflineReasonOID = ''.11'',
     OnuGponOpticalDistanceOID = ''.12''\<rparr>"

definition ex_cfg :: Config where
  "ex_cfg = (let env = (\<lambda>_. []) in
     \<lparr>SnmpCfg = load_SnmpConfig env, RedisCfg = load_RedisConfig env, OltCfg = load_OltCfg env,
      TrapCfg = load_TrapConfig env [], CacheCfg = load_CacheConfig env, Boards = [1], BoardPons = [(1, 1)],
      PonsPerBoard = 1, BoardPonMap = [((1, 1), ex_port)], OLTs = [], DefaultOLT = [], APIKey = [],
      APIUsers = None, TrustedProxies = []\<rparr>)"

definition ex_olt :: OnuOltConfig where
  "ex_olt = \<lparr>mc_BaseOID = BaseOID1, mc_OnuIDNameOID = ''.1'', mc_OnuTypeOID = ''.2'', mc_OnuSerialNumberOID = ''.3'',
     mc_OnuRxPowerOID = ''.4'', mc_OnuTxPowerOID = ''.5'', mc_OnuStatusOID = ''.6'', mc_OnuIPAddressOID = ''.7'',
     mc_OnuDescriptionOID = ''.8'', mc_OnuLastOnlineOID = ''.9'', mc_OnuLastOfflineOID = ''.10'',
     mc_OnuLastOfflineReasonOID = ''.11'', mc_OnuGponOpticalDistanceOID = ''.12''\<rparr>"

text \<open>Two ONUs on port 1/1, an empty cache.\<close>

definition ex_onus :: "(int \<times> snmp_value) list" where
  "ex_onus = [(7, VBytes ''bob''), (3, VString ''alice'')]"

definition ex_val :: "bytes \<Rightarrow> snmp_value" where
  "ex_val oid = VInt 4"

definition ex_uc :: "(bytes, bytes) gomap onu_uc" where
  "ex_uc = \<lparr>uc_snmp = table_device ex_olt ex_onus ex_val, uc_redis = plain_redis, uc_cfg = ex_cfg, uc_oltID = ''c320'',
     uc_now = (\<lambda>w. (0, w)), uc_tz = (\<lambda>_. None)\<rparr>"

lemma ex_uc_config: "getOltConfig ex_uc 1 1 = Inr ex_olt"
  by (simp add: ex_olt_def getOltConfig_def getBoardConfig_def GetBoardPonConfig_def ex_uc_def ex_cfg_def ex_port_def
      load_OltCfg_def getEnv_def Let_def)

lemma ex_uc_serves: "serves (uc_snmp ex_uc) ex_olt ex_onus ex_val"
  by (simp add: ex_uc_def table_device_serves)

lemma ex_uc_numbers: "onu_numbers ex_onus"
  by (simp add: onu_numbers_def ex_onus_def in_int64_def)

lemma ex_uc_cold: "fst (get_key (uc_redis ex_uc) dec what k []) \<noteq> Inr (Some l)"
  by (simp add: ex_uc_def get_key_def plain_redis_def NewRedisError_def)

lemmas ex_uc_facts = ex_uc_config ex_uc_serves ex_uc_numbers

theorem GetByBoardIDAndPonID_list_witness:
  "\<exists>l. fst (GetByBoardIDAndPonID rev ex_uc 1 1 []) = (Inr (var_slice l), False)
     \<and> sorted_wrt (<) (map oi_ID l) \<and> set l = list_entry ex_uc ex_olt 1 1 ex_val ` set ex_onus"
  by (rule GetByBoardIDAndPonID_list [OF ex_uc_facts range_order_rev])
     (simp add: GetONUInfoList_def ex_uc_cold)

theorem GetByBoardIDPonIDAndOnuID_detail_witness:
  "(\<exists>d. fst (GetByBoardIDPonIDAndOnuID rev ex_uc 1 1 7 []) = Inr d \<and> cu_ID d = 7 \<and> cu_Name d = ''bob'')
   \<and> fst (GetByBoardIDPonIDAndOnuID rev ex_uc 1 1 8 []) = Inr zero_ONUCustomerInfo"
proof -
  note w = GetByBoardIDPonIDAndOnuID_detail [OF ex_uc_facts range_order_rev, of "[]" 8]
  have 7: "(7, VBytes ''bob'') \<in> set ex_onus" by (simp add: ex_onus_def)
  have "\<exists>d. fst (GetByBoardIDPonIDAndOnuID rev ex_uc 1 1 7 []) = Inr d
      \<and> list_view d = list_entry ex_uc ex_olt 1 1 ex_val (7, VBytes ''bob'')"
    using bspec [OF conjunct1 [OF w] 7] by auto
  then obtain d where d: "fst (GetByBoardIDPonIDAndOnuID rev ex_uc 1 1 7 []) = Inr d"
    "list_view d = list_entry ex_uc ex_olt 1 1 ex_val (7, VBytes ''bob'')" by blast
  then have "oi_ID (list_view d) = 7 \<and> oi_Name (list_view d) = ''bob''" by (simp add: list_entry_def)
  then have "cu_ID d = 7 \<and> cu_Name d = ''bob''" by (simp add: list_view_def)
  with d conjunct2 [OF w] show ?thesis by (simp add: ex_onus_def)
qed

theorem GetEmptyOnuID_free_witness:
  "\<exists>res ids. fst (GetEmptyOnuID ex_uc 1 1 []) = Inr res \<and> res = Some ids
     \<and> map id_ID ids = filter (\<lambda>i. i \<notin> fst ` set ex_onus) [1..128]"
proof -
  obtain w2 where wk: "snmp_BulkWalk (uc_snmp ex_uc) (mc_BaseOID ex_olt @ mc_OnuIDNameOID ex_olt) []
      = ((map (name_pdu ex_olt) ex_onus, None), w2)"
    using serves_BulkWalk [OF ex_uc_serves] .
  have g: "GetOnuIDCtx (uc_redis ex_uc) k [] = (Inl (NewRedisError ''Get'' (Plain ''redis: nil'')), [])" for k
    by (simp add: ex_uc_def GetOnuIDCtx_def get_key_def plain_redis_def)
  have st: "SetOnuIDCtx (uc_redis ex_uc) k t ids w2 = (None, snd (SetOnuIDCtx (uc_redis ex_uc) k t ids w2))" for k t ids
    by (simp add: ex_uc_def SetOnuIDCtx_def set_key_def plain_redis_def)
  have "\<exists>res. fst (GetEmptyOnuID ex_uc 1 1 []) = Inr res"
    unfolding GetEmptyOnuID_def ex_uc_config Let_def g wk sum.case prod.case option.case
    by (subst st) simp
  then obtain res where r: "fst (GetEmptyOnuID ex_uc 1 1 []) = Inr res" ..
  with GetEmptyOnuID_free [OF ex_uc_facts _ r] show ?thesis
    by (auto simp: GetOnuIDCtx_def ex_uc_cold)
qed

theorem GetOnuIDAndSerialNumber_fresh_witness:
  "fst (GetOnuIDAndSerialNumber ex_uc True 1 1 [(''olt_c320_board_1_pon_1_serial_list'', ''stale'')])
    = Inr (var_slice (map (serial_entry ex_uc ex_olt 1 1 ex_val) (sort (map fst ex_onus))))"
  by (rule GetOnuIDAndSerialNumber_fresh [OF ex_uc_facts]) simp

end
