(* ===== verification/Uplink.thy ===== *)
theory Uplink
  imports Onu_Queries "HOL-Library.Product_Lexorder"
begin

text \<open>
  \<open>internal/usecase/uplink.go\<close> and \<open>internal/model/uplink.go\<close>: detecting the
  cards and uplink ports of an OLT by walking IF-MIB and ENTITY-MIB. Coalescing of concurrent
  calls, metrics and log output are left out.
\<close>

record UplinkPort =
  up_Name :: bytes
  up_Shelf :: int
  up_Slot :: int
  up_Port :: int
  up_Kind :: bytes
  up_AdminStatus :: bytes
  up_OperStatus :: bytes
  up_SpeedMbps :: int

record UplinkCard =
  cd_EntIndex :: int
  cd_Slot :: int
  cd_Type :: bytes
  cd_Role :: bytes

record UplinkTopology =
  ut_Cards :: "UplinkCard list"
  ut_Ports :: "UplinkPort list"

definition entPhysicalClassModule :: int where "entPhysicalClassModule = 3"

subsection \<open>Reading PDUs\<close>

text \<open>A 64-bit unsigned value is converted to \<open>int\<close> with wrap-around.\<close>

fun toInt :: "snmp_value \<Rightarrow> int" where
  "toInt (VInt n) = n"
| "toInt (VUint n) = int64 n"
| "toInt _ = 0"

fun pduString :: "snmp_value \<Rightarrow> bytes" where
  "pduString (VBytes b) = b"
| "pduString (VString s) = s"
| "pduString _ = []"

definition trailingIndex :: "bytes \<Rightarrow> int" where
  "trailingIndex oid =
     (case atoi (last (split_on CHR ''.'' (trim_suffix oid ''.''))) of None \<Rightarrow> - 1 | Some n \<Rightarrow> n)"

definition statusString :: "int \<Rightarrow> bytes" where
  "statusString v = (if v = 1 then ''up'' else if v = 2 then ''down'' else itoa v)"

definition cardRole :: "bytes \<Rightarrow> bytes" where
  "cardRole descr =
     (let d = to_lower descr in
      if contains d ''gpon'' then ''gpon''
      else if contains d ''control'' then ''control''
      else if contains d ''ethernet interface'' then ''uplink''
      else if contains d ''power'' then ''power''
      else ''other'')"

subsection \<open>The place of a port\<close>

text \<open>
  \<open>uplinkNameRegex\<close>: three numbers separated by slashes at the start. The error of
  \<open>strconv.Atoi\<close> is ignored; the value it returns with it is the largest \<open>int\<close>.
\<close>

definition digits_of :: "bytes \<Rightarrow> (bytes \<times> bytes) option" where
  "digits_of s = (let ds = takeWhile is_digit s in if ds = [] then None else Some (ds, dropWhile is_digit s))"

definition slash_digits :: "bytes \<Rightarrow> (bytes \<times> bytes) option" where
  "slash_digits s = (case s of c # r \<Rightarrow> if c = CHR ''/'' then digits_of r else None | [] \<Rightarrow> None)"

definition uplinkNameMatch :: "bytes \<Rightarrow> (bytes \<times> bytes \<times> bytes) option" where
  "uplinkNameMatch s =
     (case digits_of s of
        None \<Rightarrow> None
      | Some (a, s) \<Rightarrow>
          (case slash_digits s of
             None \<Rightarrow> None
           | Some (b, s) \<Rightarrow> (case slash_digits s of None \<Rightarrow> None | Some (c, _) \<Rightarrow> Some (a, b, c))))"

definition atoi_digits :: "bytes \<Rightarrow> int" where
  "atoi_digits ds = (case digits_int 0 ds of None \<Rightarrow> 0 | Some n \<Rightarrow> min n 9223372036854775807)"

text \<open>Shelf, slot and port of an interface name.\<close>

definition uplink_place :: "bytes \<Rightarrow> int \<times> int \<times> int" where
  "uplink_place name =
     (case cut CHR ''_'' name of
        (_, rest, True) \<Rightarrow>
          (case uplinkNameMatch rest of
             Some (a, b, c) \<Rightarrow> (atoi_digits a, atoi_digits b, atoi_digits c)
           | None \<Rightarrow> (0, 0, 0))
      | (_, _, False) \<Rightarrow> (0, 0, 0))"

subsection \<open>The walks\<close>

text \<open>A callback that stores a value under the index of the PDU, or skips it.\<close>

definition collect_rows :: "(snmp_pdu \<Rightarrow> (int \<times> 'a) option) \<Rightarrow> snmp_pdu list \<Rightarrow> (int, 'a) gomap" where
  "collect_rows f pdus = fold (\<lambda>pdu m. case f pdu of None \<Rightarrow> m | Some (i, x) \<Rightarrow> gm_set i x m) pdus []"

definition name_row :: "snmp_pdu \<Rightarrow> (int \<times> bytes \<times> bytes) option" where
  "name_row pdu =
     (let idx = trailingIndex (pdu_Name pdu); name = pduString (pdu_Value pdu) in
      if idx < 0 then None
      else if has_prefix name ''xgei_'' then Some (idx, name, ''10G'')
      else if has_prefix name ''gei_'' then Some (idx, name, ''1G'')
      else None)"

definition port_int :: "(int, 'a) gomap \<Rightarrow> snmp_pdu \<Rightarrow> (int \<times> int) option" where
  "port_int ports pdu =
     (let idx = trailingIndex (pdu_Name pdu) in
      if idx \<ge> 0 \<and> gm_get ports idx \<noteq> None then Some (idx, toInt (pdu_Value pdu)) else None)"

definition int_row :: "snmp_pdu \<Rightarrow> (int \<times> int) option" where
  "int_row pdu = (let idx = trailingIndex (pdu_Name pdu) in if idx \<ge> 0 then Some (idx, toInt (pdu_Value pdu)) else None)"

definition string_row :: "snmp_pdu \<Rightarrow> (int \<times> bytes) option" where
  "string_row pdu = (let idx = trailingIndex (pdu_Name pdu) in if idx \<ge> 0 then Some (idx, pduString (pdu_Value pdu)) else None)"

text \<open>The walks in their order; the first that fails ends the query.\<close>

fun uplink_walks :: "'w snmp_repo \<Rightarrow> bytes list \<Rightarrow> 'w \<Rightarrow> (gerror + snmp_pdu list list) \<times> 'w" where
  "uplink_walks r [] w = (Inr [], w)"
| "uplink_walks r (oid # oids) w =
     (case snmp_BulkWalk r oid w of
        ((_, Some err), w) \<Rightarrow> (Inl (NewSNMPError ''walk'' err), w)
      | ((pdus, None), w) \<Rightarrow>
          (case uplink_walks r oids w of
             (Inl err, w) \<Rightarrow> (Inl err, w)
           | (Inr rest, w) \<Rightarrow> (Inr (pdus # rest), w)))"

definition uplink_oids :: "bytes list" where
  "uplink_oids = [OidIfName, OidIfAdminStatus, OidIfOperStatus, OidIfHighSpeed, OidEntPhysicalClass, OidEntPhysicalDescr]"

subsection \<open>Building the topology\<close>

definition int_at :: "(int, int) gomap \<Rightarrow> int \<Rightarrow> int" where
  "int_at m i = (case gm_get m i of None \<Rightarrow> 0 | Some v \<Rightarrow> v)"

definition string_at :: "(int, bytes) gomap \<Rightarrow> int \<Rightarrow> bytes" where
  "string_at m i = (case gm_get m i of None \<Rightarrow> [] | Some v \<Rightarrow> v)"

definition uplink_port ::
    "(int, int) gomap \<Rightarrow> (int, int) gomap \<Rightarrow> (int, int) gomap \<Rightarrow> int \<times> bytes \<times> bytes \<Rightarrow> UplinkPort" where
  "uplink_port admin oper speed row =
     (case row of (idx, name, kind) \<Rightarrow>
        case uplink_place name of (shelf, slot, port) \<Rightarrow>
          \<lparr>up_Name = name, up_Shelf = shelf, up_Slot = slot, up_Port = port, up_Kind = kind,
           up_AdminStatus = statusString (int_at admin idx), up_OperStatus = statusString (int_at oper idx),
           up_SpeedMbps = int_at speed idx\<rparr>)"

definition uplink_card :: "(int, bytes) gomap \<Rightarrow> int \<Rightarrow> UplinkCard" where
  "uplink_card descrs idx =
     (let descr = string_at descrs idx in
      \<lparr>cd_EntIndex = idx, cd_Slot = idx sdiv 10 - 1, cd_Type = descr, cd_Role = cardRole descr\<rparr>)"

definition port_order :: "UplinkPort \<Rightarrow> int \<times> int" where
  "port_order p = (up_Slot p, up_Port p)"

definition build_topology ::
    "(int, bytes \<times> bytes) range_ord \<Rightarrow> (int, int) range_ord \<Rightarrow> snmp_pdu list list \<Rightarrow> UplinkTopology" where
  "build_topology ordp ordc tables =
     (let ports = collect_rows name_row (tables ! 0);
          admin = collect_rows (port_int ports) (tables ! 1);
          oper = collect_rows (port_int ports) (tables ! 2);
          speed = collect_rows (port_int ports) (tables ! 3);
          classes = collect_rows int_row (tables ! 4);
          descrs = collect_rows string_row (tables ! 5)
      in \<lparr>ut_Cards = sort_key cd_Slot
            (map (\<lambda>(idx, _). uplink_card descrs idx) (filter (\<lambda>(_, class). class = entPhysicalClassModule) (ordc classes))),
          ut_Ports = sort_key port_order (map (uplink_port admin oper speed) (ordp ports))\<rparr>)"

definition GetUplinkTopology ::
    "(int, bytes \<times> bytes) range_ord \<Rightarrow> (int, int) range_ord \<Rightarrow> 'w onu_uc \<Rightarrow> 'w \<Rightarrow> (gerror + UplinkTopology) \<times> 'w" where
  "GetUplinkTopology ordp ordc u w =
     (case uplink_walks (uc_snmp u) uplink_oids w of
        (Inl err, w) \<Rightarrow> (Inl err, w)
      | (Inr tables, w) \<Rightarrow> (Inr (build_topology ordp ordc tables), w))"

subsection \<open>Indices and places\<close>

lemma trailing_join:
  assumes "in_int64 i"
  shows "trailingIndex (oid @ ''.'' @ itoa i) = i"
proof -
  have "last (itoa i) \<noteq> CHR ''.''"
    using itoa_no_dot [of i] by (metis itoa_nonempty last_in_set)
  moreover have "last (itoa i) = CHR ''.''" if "oid @ ''.'' @ itoa i = r @ ''.''" for r
    using arg_cong [OF that, of last] by simp
  ultimately have "\<not> has_suffix (oid @ ''.'' @ itoa i) ''.''" unfolding has_suffix_iff by blast
  then have "trim_suffix (oid @ ''.'' @ itoa i) ''.'' = oid @ ''.'' @ itoa i" by (simp add: trim_suffix_def)
  then show ?thesis
    using assms by (simp add: trailingIndex_def split_on_append_sep split_on_no_sep atoi_itoa)
qed


lemma takeWhile_digits: "\<lbrakk>\<forall>c \<in> set a. is_digit c; r = [] \<or> \<not> is_digit (hd r)\<rbrakk>
    \<Longrightarrow> takeWhile is_digit (a @ r) = a \<and> dropWhile is_digit (a @ r) = r"
  by (cases r) (auto simp: takeWhile_append2 dropWhile_append2)

lemma digits_of_itoa:
  "\<lbrakk>0 \<le> n; r = [] \<or> \<not> is_digit (hd r)\<rbrakk> \<Longrightarrow> digits_of (itoa n @ r) = Some (itoa n, r)"
  using takeWhile_digits [of "itoa n" r] itoa_nonneg_digits by (simp add: digits_of_def)

lemma atoi_digits_itoa: "\<lbrakk>0 \<le> n; in_int64 n\<rbrakk> \<Longrightarrow> atoi_digits (itoa n) = n"
  by (simp add: atoi_digits_def itoa_def digits_int_dec_str in_int64_def)

text \<open>The place in the name of an uplink port is read back.\<close>

lemma uplink_place_named:
  assumes "prefix \<in> {''xgei'', ''gei''}" "0 \<le> shelf" "0 \<le> slot" "0 \<le> port"
    and "in_int64 shelf" "in_int64 slot" "in_int64 port" "r = [] \<or> \<not> is_digit (hd r)"
  shows "uplink_place (prefix @ ''_'' @ itoa shelf @ ''/'' @ itoa slot @ ''/'' @ itoa port @ r) = (shelf, slot, port)"
proof -
  have "CHR ''_'' \<notin> set prefix" using assms(1) by auto
  then have c: "cut CHR ''_'' (prefix @ CHR ''_'' # x) = (prefix, x, True)" for x by (rule cut_append)
  have s: "\<not> is_digit CHR ''/''" by code_simp
  have "uplinkNameMatch (itoa shelf @ CHR ''/'' # itoa slot @ CHR ''/'' # itoa port @ r) = Some (itoa shelf, itoa slot, itoa port)"
    unfolding uplinkNameMatch_def
    by (simp add: digits_of_itoa [OF assms(2)] digits_of_itoa [OF assms(3)] digits_of_itoa [OF assms(4)] s slash_digits_def assms(8))
  then show ?thesis
    using assms by (simp add: uplink_place_def c atoi_digits_itoa)
qed

subsection \<open>The topology of a device that answers\<close>

text \<open>A table of a device: a row for each index, every index at most once.\<close>

type_synonym snmp_table = "(int \<times> snmp_value) list"

definition table_pdus :: "bytes \<Rightarrow> snmp_table \<Rightarrow> snmp_pdu list" where
  "table_pdus oid rows = map (\<lambda>(i, v). \<lparr>pdu_Name = oid @ ''.'' @ itoa i, pdu_Value = v\<rparr>) rows"

definition good_table :: "snmp_table \<Rightarrow> bool" where
  "good_table rows \<longleftrightarrow> gm_wf rows \<and> (\<forall>(i, v) \<in> set rows. 0 \<le> i \<and> in_int64 i)"

definition answers_tables :: "'w snmp_repo \<Rightarrow> snmp_table list \<Rightarrow> bool" where
  "answers_tables r tables \<longleftrightarrow> length tables = length uplink_oids \<and> list_all good_table tables
     \<and> (\<forall>i < length tables. \<forall>w. fst (snmp_BulkWalk r (uplink_oids ! i) w) = (table_pdus (uplink_oids ! i) (tables ! i), None))"

lemma uplink_walks_answered:
  assumes "length tables = length oids"
    and "\<forall>i < length tables. \<forall>w. fst (snmp_BulkWalk r (oids ! i) w) = (table_pdus (oids ! i) (tables ! i), None)"
  shows "\<exists>w'. uplink_walks r oids w = (Inr (map2 table_pdus oids tables), w')"
  using assms
proof (induction oids tables arbitrary: w rule: list_induct2')
  case (4 oid oids rows tables)
  obtain w1 where w1: "snmp_BulkWalk r oid w = ((table_pdus oid rows, None), w1)"
    using spec [OF 4(3), of 0] by (simp add: prod_eq_iff)
  have "\<forall>i < length tables. \<forall>w. fst (snmp_BulkWalk r (oids ! i) w) = (table_pdus (oids ! i) (tables ! i), None)"
    using 4(3) by (metis Suc_less_eq length_Cons nth_Cons_Suc)
  then obtain w2 where "uplink_walks r oids w1 = (Inr (map2 table_pdus oids tables), w2)"
    using 4(1) [of w1] 4(2) by auto
  then show ?case by (simp add: w1)
qed auto

text \<open>Collecting the rows of a good table: the rows the callback keeps, in their order.\<close>

lemma collect_rows_table:
  assumes "good_table rows"
    and "\<And>i v. (i, v) \<in> set rows \<Longrightarrow> f \<lparr>pdu_Name = oid @ ''.'' @ itoa i, pdu_Value = v\<rparr> = map_option (Pair i) (g i v)"
  shows "collect_rows f (table_pdus oid rows) = concat (map (\<lambda>(i, v). case g i v of None \<Rightarrow> [] | Some x \<Rightarrow> [(i, x)]) rows)"
proof -
  let ?step = "\<lambda>pdu m. case f pdu of None \<Rightarrow> m | Some (i, x) \<Rightarrow> gm_set i x m"
  have "fold ?step (table_pdus oid rs) m = m @ concat (map (\<lambda>(i, v). case g i v of None \<Rightarrow> [] | Some x \<Rightarrow> [(i, x)]) rs)"
    if "set rs \<subseteq> set rows" "gm_wf rs" "fst ` set m \<inter> fst ` set rs = {}" for rs m
    using that
  proof (induction rs arbitrary: m)
    case (Cons x rs)
    obtain i v where x: "x = (i, v)" by (cases x)
    have f: "f \<lparr>pdu_Name = oid @ ''.'' @ itoa i, pdu_Value = v\<rparr> = map_option (Pair i) (g i v)"
      using assms(2) Cons.prems(1) by (simp add: x)
    have i: "i \<notin> fst ` set m" using Cons.prems(3) by (auto simp: x)
    have r: "set rs \<subseteq> set rows" "gm_wf rs" "i \<notin> fst ` set rs" using Cons.prems by (auto simp: x)
    show ?case
    proof (cases "g i v")
      case None
      then show ?thesis using Cons.IH [OF r(1,2)] Cons.prems(3) f by (simp add: table_pdus_def x)
    next
      case (Some y)
      have "gm_set i y m = m @ [(i, y)]" using i by (induction m) auto
      moreover have "fst ` set (m @ [(i, y)]) \<inter> fst ` set rs = {}" using Cons.prems(3) r(3) by (auto simp: x)
      ultimately show ?thesis using Cons.IH [OF r(1,2)] f Some by (simp add: table_pdus_def x)
    qed
  qed (simp add: table_pdus_def)
  from this [of rows "[]"] assms(1) show ?thesis by (simp add: collect_rows_def good_table_def)
qed


text \<open>The reference: what the tables of a device say of its uplink ports and cards.\<close>

definition kind_of :: "bytes \<Rightarrow> bytes option" where
  "kind_of name = (if has_prefix name ''xgei_'' then Some ''10G'' else if has_prefix name ''gei_'' then Some ''1G'' else None)"

definition cell :: "snmp_table \<Rightarrow> int \<Rightarrow> int" where
  "cell rows i = (case map_of rows i of None \<Rightarrow> 0 | Some v \<Rightarrow> toInt v)"

definition device_ports :: "snmp_table list \<Rightarrow> UplinkPort list" where
  "device_ports tables = concat (map (\<lambda>(i, v). case kind_of (pduString v) of
     None \<Rightarrow> []
   | Some kind \<Rightarrow> (case uplink_place (pduString v) of (shelf, slot, port) \<Rightarrow>
       [\<lparr>up_Name = pduString v, up_Shelf = shelf, up_Slot = slot, up_Port = port, up_Kind = kind,
         up_AdminStatus = statusString (cell (tables ! 1) i), up_OperStatus = statusString (cell (tables ! 2) i),
         up_SpeedMbps = cell (tables ! 3) i\<rparr>])) (tables ! 0))"

definition device_cards :: "snmp_table list \<Rightarrow> UplinkCard list" where
  "device_cards tables = concat (map (\<lambda>(i, v). if toInt v = entPhysicalClassModule
     then [let descr = (case map_of (tables ! 5) i of None \<Rightarrow> [] | Some d \<Rightarrow> pduString d) in
           \<lparr>cd_EntIndex = i, cd_Slot = i div 10 - 1, cd_Type = descr, cd_Role = cardRole descr\<rparr>]
     else []) (tables ! 4))"

lemma gm_get_rows:
  "gm_wf rows \<Longrightarrow> gm_get (concat (map (\<lambda>(i, v). case g i v of None \<Rightarrow> [] | Some x \<Rightarrow> [(i, x)]) rows)) j
     = Option.bind (map_of rows j) (g j)"
proof (induction rows)
  case (Cons x rows)
  obtain i v where x: "x = (i, v)" by (cases x)
  show ?case
  proof (cases "j = i")
    case True
    have "map_of rows i = None" using Cons.prems by (simp add: x map_of_eq_None_iff)
    then show ?thesis using Cons True by (cases "g i v") (simp_all add: x)
  next
    case False
    then show ?thesis using Cons by (cases "g i v") (simp_all add: x)
  qed
qed simp

lemma table_index:
  assumes "good_table rows" "(i, v) \<in> set rows"
  shows "trailingIndex (oid @ ''.'' @ itoa i) = i" "0 \<le> i" "\<not> i < 0"
  using assms trailing_join [of i oid] by (auto simp: good_table_def)

lemma name_rows:
  assumes "good_table rows"
  shows "collect_rows name_row (table_pdus oid rows)
    = concat (map (\<lambda>(i, v). case map_option (Pair (pduString v)) (kind_of (pduString v)) of None \<Rightarrow> [] | Some x \<Rightarrow> [(i, x)]) rows)"
  using table_index [OF assms] by (intro collect_rows_table [OF assms]) (auto simp: name_row_def kind_of_def Let_def)

lemma rows_kept: "concat (map (\<lambda>(i, v). [(i, f v)]) rows) = map (\<lambda>(i, v). (i, f v)) rows"
  by (induction rows) auto

lemma int_rows:
  assumes "good_table rows"
  shows "gm_get (collect_rows int_row (table_pdus oid rows)) j = map_option toInt (map_of rows j)"
    "collect_rows int_row (table_pdus oid rows) = map (\<lambda>(i, v). (i, toInt v)) rows"
proof -
  have "collect_rows int_row (table_pdus oid rows)
      = concat (map (\<lambda>(i, v). case Some (toInt v) of None \<Rightarrow> [] | Some x \<Rightarrow> [(i, x)]) rows)"
    using table_index [OF assms] by (intro collect_rows_table [OF assms]) (auto simp: int_row_def Let_def)
  also have "\<dots> = map (\<lambda>(i, v). (i, toInt v)) rows" by (simp add: rows_kept)
  finally show e: "collect_rows int_row (table_pdus oid rows) = map (\<lambda>(i, v). (i, toInt v)) rows" .
  show "gm_get (collect_rows int_row (table_pdus oid rows)) j = map_option toInt (map_of rows j)"
    unfolding e by (simp add: map_of_map)
qed

lemma string_rows:
  assumes "good_table rows"
  shows "gm_get (collect_rows string_row (table_pdus oid rows)) j = map_option pduString (map_of rows j)"
proof -
  have "collect_rows string_row (table_pdus oid rows)
      = concat (map (\<lambda>(i, v). case Some (pduString v) of None \<Rightarrow> [] | Some x \<Rightarrow> [(i, x)]) rows)"
    using table_index [OF assms] by (intro collect_rows_table [OF assms]) (auto simp: string_row_def Let_def)
  then show ?thesis using gm_get_rows [of rows "\<lambda>i v. Some (pduString v)" j] assms
    by (cases "map_of rows j") (simp_all add: good_table_def)
qed

lemma port_rows:
  assumes "good_table rows" "gm_get ports i \<noteq> None"
  shows "int_at (collect_rows (port_int ports) (table_pdus oid rows)) i = cell rows i"
proof -
  let ?g = "\<lambda>i v. if gm_get ports i \<noteq> None then Some (toInt v) else None"
  have "collect_rows (port_int ports) (table_pdus oid rows)
      = concat (map (\<lambda>(i, v). case ?g i v of None \<Rightarrow> [] | Some x \<Rightarrow> [(i, x)]) rows)"
    using table_index [OF assms(1)] by (intro collect_rows_table [OF assms(1)]) (auto simp: port_int_def Let_def)
  then have "gm_get (collect_rows (port_int ports) (table_pdus oid rows)) i = Option.bind (map_of rows i) (?g i)"
    using gm_get_rows [of rows ?g i] assms(1) by (simp add: good_table_def)
  then show ?thesis using assms(2) by (cases "map_of rows i") (simp_all add: int_at_def cell_def)
qed


lemma built_ports:
  assumes "list_all good_table tables" "length tables = 6"
    and "ports = collect_rows name_row (table_pdus o0 (tables ! 0))"
  shows "map (uplink_port (collect_rows (port_int ports) (table_pdus o1 (tables ! 1)))
      (collect_rows (port_int ports) (table_pdus o2 (tables ! 2))) (collect_rows (port_int ports) (table_pdus o3 (tables ! 3)))) ports
    = device_ports tables"
proof -
  have t: "good_table (tables ! k)" if "k < 6" for k using assms(1,2) that by (simp add: list_all_length)
  let ?row = "\<lambda>(i, v). case map_option (Pair (pduString v)) (kind_of (pduString v)) of None \<Rightarrow> [] | Some x \<Rightarrow> [(i, x)]"
  have p: "ports = concat (map ?row (tables ! 0))" using name_rows [OF t [of 0]] assms(3) by simp
  have c: "int_at (collect_rows (port_int ports) (table_pdus oid (tables ! k))) i = cell (tables ! k) i"
    if "k < 6" "(i, x) \<in> set ports" for k i x oid
    using port_rows [OF t [OF that(1)]] that(2) by (metis map_of_eq_None_iff fst_conv image_eqI)
  have "map (uplink_port (collect_rows (port_int ports) (table_pdus o1 (tables ! 1)))
      (collect_rows (port_int ports) (table_pdus o2 (tables ! 2))) (collect_rows (port_int ports) (table_pdus o3 (tables ! 3)))) ports
    = map (\<lambda>(i, name, kind). case uplink_place name of (shelf, slot, port) \<Rightarrow>
       \<lparr>up_Name = name, up_Shelf = shelf, up_Slot = slot, up_Port = port, up_Kind = kind,
         up_AdminStatus = statusString (cell (tables ! 1) i), up_OperStatus = statusString (cell (tables ! 2) i),
         up_SpeedMbps = cell (tables ! 3) i\<rparr>) ports"
    using c [of 1] c [of 2] c [of 3] by (intro map_cong refl) (auto simp: uplink_port_def split: prod.splits)
  also have "\<dots> = device_ports tables"
    unfolding p device_ports_def map_concat map_map
    by (intro arg_cong [of _ _ concat] map_cong refl) (auto split: option.splits prod.splits)
  finally show ?thesis .
qed

lemma built_cards:
  assumes "list_all good_table tables" "length tables = 6"
    and "classes = collect_rows int_row (table_pdus o4 (tables ! 4))"
  shows "map (\<lambda>(idx, _). uplink_card (collect_rows string_row (table_pdus o5 (tables ! 5))) idx)
      (filter (\<lambda>(_, class). class = entPhysicalClassModule) classes) = device_cards tables"
proof -
  have t: "good_table (tables ! k)" if "k < 6" for k using assms(1,2) that by (simp add: list_all_length)
  have d: "string_at (collect_rows string_row (table_pdus o5 (tables ! 5))) i
      = (case map_of (tables ! 5) i of None \<Rightarrow> [] | Some d \<Rightarrow> pduString d)" for i
    using string_rows [OF t [of 5]] by (simp add: string_at_def split: option.split)
  have nn: "\<forall>(i, v) \<in> set (tables ! 4). i sdiv 10 = i div 10"
    using t [of 4] sdiv_nonneg [of _ 10] by (auto simp: good_table_def)
  have "map (\<lambda>(idx, _). uplink_card (collect_rows string_row (table_pdus o5 (tables ! 5))) idx)
      (filter (\<lambda>(_, class). class = entPhysicalClassModule) (map (\<lambda>(i, v). (i, toInt v)) rows))
    = concat (map (\<lambda>(i, v). if toInt v = entPhysicalClassModule
     then [let descr = (case map_of (tables ! 5) i of None \<Rightarrow> [] | Some d \<Rightarrow> pduString d) in
           \<lparr>cd_EntIndex = i, cd_Slot = i div 10 - 1, cd_Type = descr, cd_Role = cardRole descr\<rparr>]
     else []) rows)" if "set rows \<subseteq> set (tables ! 4)" for rows
    using that nn by (induction rows) (auto simp: uplink_card_def d Let_def)
  then show ?thesis
    unfolding assms(3) int_rows(2) [OF t [of 4, simplified]] device_cards_def by blast
qed

lemma device_ports_place:
  assumes "q \<in> set (device_ports tables)" "prefix \<in> {''xgei'', ''gei''}" "0 \<le> a" "0 \<le> b" "0 \<le> c"
    and "in_int64 a" "in_int64 b" "in_int64 c" "up_Name q = prefix @ ''_'' @ itoa a @ ''/'' @ itoa b @ ''/'' @ itoa c"
  shows "up_Shelf q = a \<and> up_Slot q = b \<and> up_Port q = c"
proof -
  have "uplink_place (up_Name q) = (up_Shelf q, up_Slot q, up_Port q)"
    using assms(1) by (auto simp: device_ports_def split: option.splits prod.splits)
  then show ?thesis using uplink_place_named [OF assms(2-8), of "[]"] assms(9) by simp
qed

text \<open>
  C38. The detected topology is the device's. Over a device whose six tables answer, whatever
  order the maps are visited in, the ports are the interfaces named as uplinks, each once with
  its own kind, place, states and speed, sorted by slot and port, and the cards are the entities
  of the module class with their own description and role, sorted by slot; a name
  \<open>xgei_shelf/slot/port\<close> or \<open>gei_shelf/slot/port\<close> places its port there.
\<close>

theorem uplink_topology_detected:
  assumes "answers_tables (uc_snmp u) tables" "range_order ordp" "range_order ordc"
  shows "\<exists>topo w'. GetUplinkTopology ordp ordc u w = (Inr topo, w')
    \<and> mset (ut_Ports topo) = mset (device_ports tables) \<and> sorted (map port_order (ut_Ports topo))
    \<and> mset (ut_Cards topo) = mset (device_cards tables) \<and> sorted (map cd_Slot (ut_Cards topo))
    \<and> (\<forall>p \<in> set (ut_Ports topo). \<forall>prefix \<in> {''xgei'', ''gei''}. \<forall>a b c.
        in_int64 a \<and> in_int64 b \<and> in_int64 c \<and> 0 \<le> a \<and> 0 \<le> b \<and> 0 \<le> c
        \<and> up_Name p = prefix @ ''_'' @ itoa a @ ''/'' @ itoa b @ ''/'' @ itoa c
        \<longrightarrow> up_Shelf p = a \<and> up_Slot p = b \<and> up_Port p = c)"
proof -
  have n: "length tables = 6" and good: "list_all good_table tables"
    using assms(1) by (simp_all add: answers_tables_def uplink_oids_def)
  obtain w' where w: "uplink_walks (uc_snmp u) uplink_oids w = (Inr (map2 table_pdus uplink_oids tables), w')"
    using uplink_walks_answered [of tables uplink_oids "uc_snmp u" w] assms(1) unfolding answers_tables_def by auto
  let ?pdus = "map2 table_pdus uplink_oids tables"
  have nth: "?pdus ! k = table_pdus (uplink_oids ! k) (tables ! k)" if "k < 6" for k
    using that n by (simp add: uplink_oids_def)
  define ports where "ports = collect_rows name_row (table_pdus (uplink_oids ! 0) (tables ! 0))"
  define classes where "classes = collect_rows int_row (table_pdus (uplink_oids ! 4) (tables ! 4))"
  let ?f = "uplink_port (collect_rows (port_int ports) (table_pdus (uplink_oids ! 1) (tables ! 1)))
      (collect_rows (port_int ports) (table_pdus (uplink_oids ! 2) (tables ! 2)))
      (collect_rows (port_int ports) (table_pdus (uplink_oids ! 3) (tables ! 3)))"
  let ?g = "\<lambda>(idx, _). uplink_card (collect_rows string_row (table_pdus (uplink_oids ! 5) (tables ! 5))) idx"
  let ?module = "\<lambda>(_, class). class = entPhysicalClassModule"
  let ?topo = "build_topology ordp ordc ?pdus"
  have topo: "ut_Ports ?topo = sort_key port_order (map ?f (ordp ports))"
    "ut_Cards ?topo = sort_key cd_Slot (map ?g (filter ?module (ordc classes)))"
    by (simp_all add: build_topology_def Let_def nth ports_def classes_def)
  have "mset (map ?f (ordp ports)) = mset (map ?f ports)" by (simp add: range_order_mset [OF assms(2)])
  then have p: "mset (ut_Ports ?topo) = mset (device_ports tables)"
    by (simp only: topo mset_sort built_ports [OF good n ports_def])
  have "mset (filter ?module (ordc classes)) = mset (filter ?module classes)"
    by (simp add: range_order_mset [OF assms(3)])
  then have "mset (map ?g (filter ?module (ordc classes))) = mset (map ?g (filter ?module classes))"
    by (simp only: mset_map)
  then have c: "mset (ut_Cards ?topo) = mset (device_cards tables)"
    by (simp only: topo mset_sort built_cards [OF good n classes_def])
  have "\<forall>q \<in> set (ut_Ports ?topo). q \<in> set (device_ports tables)" using p by (metis mset_eq_setD)
  then have place: "\<forall>p \<in> set (ut_Ports ?topo). \<forall>prefix \<in> {''xgei'', ''gei''}. \<forall>a b c.
        in_int64 a \<and> in_int64 b \<and> in_int64 c \<and> 0 \<le> a \<and> 0 \<le> b \<and> 0 \<le> c
        \<and> up_Name p = prefix @ ''_'' @ itoa a @ ''/'' @ itoa b @ ''/'' @ itoa c
        \<longrightarrow> up_Shelf p = a \<and> up_Slot p = b \<and> up_Port p = c"
    using device_ports_place by blast
  have "sorted (map port_order (ut_Ports ?topo))" "sorted (map cd_Slot (ut_Cards ?topo))"
    by (simp_all only: topo sorted_sort_key)
  moreover have "GetUplinkTopology ordp ordc u w = (Inr ?topo, w')" by (simp add: GetUplinkTopology_def w)
  ultimately show ?thesis using p c place by blast
qed

subsection \<open>Example\<close>

definition sample_tables :: "snmp_table list" where
  "sample_tables =
     [[(7, VBytes ''xgei_1/19/2''), (3, VString ''gei_1/3/1''), (9, VBytes ''gpon_1/1/1'')],
      [(7, VInt 1), (3, VInt 2), (9, VInt 1)], [(7, VInt 1), (3, VInt 2)], [(7, VUint 10000)],
      [(30, VInt 3), (31, VInt 5)], [(30, VBytes ''GTGO GPON card'')]]"

text \<open>A device that answers the six walks with the tables.\<close>

definition tables_device :: "snmp_table list \<Rightarrow> 'w snmp_repo" where
  "tables_device tables =
     (let walk = (\<lambda>oid w. ((concat (map (\<lambda>(o1, rows). if o1 = oid then table_pdus oid rows else []) (zip uplink_oids tables)), None), w))
      in \<lparr>sr_conn = \<lparr>cn_Get = (\<lambda>_ w. (Inr [], w)), cn_Walk = walk, cn_BulkWalk = walk\<rparr>,
          sr_acquire = (\<lambda>w. (True, w)), sr_useWalk = False\<rparr>)"

lemma sample_answers: "answers_tables (tables_device sample_tables :: 'w snmp_repo) sample_tables"
proof -
  have "\<forall>w. fst (snmp_BulkWalk (tables_device sample_tables :: 'w snmp_repo) (uplink_oids ! i) w)
      = (table_pdus (uplink_oids ! i) (sample_tables ! i), None)" if "i < 6" for i
    using that by (auto simp: less_Suc_eq numeral_eq_Suc tables_device_def snmp_BulkWalk_def Let_def sample_tables_def
        uplink_oids_def oid_consts OidIfName_def OidIfAdminStatus_def OidIfOperStatus_def OidIfHighSpeed_def
        OidEntPhysicalClass_def OidEntPhysicalDescr_def)
  moreover have "length sample_tables = 6" "length uplink_oids = 6"
    by (simp_all add: sample_tables_def uplink_oids_def)
  moreover have "list_all good_table sample_tables"
    by (simp add: sample_tables_def good_table_def in_int64_def)
  ultimately show ?thesis by (simp add: answers_tables_def)
qed

theorem uplink_topology_detected_witness:
  "\<exists>topo w'. GetUplinkTopology rev rev
     (ex_uc\<lparr>uc_snmp := tables_device sample_tables\<rparr>) [] = (Inr topo, w')
   \<and> mset (ut_Ports topo) = {#\<lparr>up_Name = ''xgei_1/19/2'', up_Shelf = 1, up_Slot = 19, up_Port = 2, up_Kind = ''10G'',
        up_AdminStatus = ''up'', up_OperStatus = ''up'', up_SpeedMbps = 10000\<rparr>,
       \<lparr>up_Name = ''gei_1/3/1'', up_Shelf = 1, up_Slot = 3, up_Port = 1, up_Kind = ''1G'',
        up_AdminStatus = ''down'', up_OperStatus = ''down'', up_SpeedMbps = 0\<rparr>#}"
proof -
  let ?u = "ex_uc\<lparr>uc_snmp := tables_device sample_tables\<rparr>"
  have "device_ports sample_tables = [\<lparr>up_Name = ''xgei_1/19/2'', up_Shelf = 1, up_Slot = 19, up_Port = 2, up_Kind = ''10G'',
        up_AdminStatus = ''up'', up_OperStatus = ''up'', up_SpeedMbps = 10000\<rparr>,
       \<lparr>up_Name = ''gei_1/3/1'', up_Shelf = 1, up_Slot = 3, up_Port = 1, up_Kind = ''1G'',
        up_AdminStatus = ''down'', up_OperStatus = ''down'', up_SpeedMbps = 0\<rparr>]"
    by code_simp
  moreover have "answers_tables (uc_snmp ?u) sample_tables" using sample_answers by simp
  note uplink_topology_detected [OF this range_order_rev range_order_rev, of "[]"]
  ultimately show ?thesis by auto
qed

end
