(* ===== verification/Onu_Handler.thy ===== *)
theory Onu_Handler
  imports Middleware Uplink
begin

text \<open>
  \<open>internal/handler/onu.go\<close> and \<open>pkg/pagination\<close>: the HTTP handlers of the ONU queries.
  A handler reads the ids the validation has stored in the context, calls the query and answers
  with the JSON envelope, or with the error's HTTP form.
\<close>

subsection \<open>Pagination\<close>

record Pages =
  pg_Page :: int
  pg_PageSize :: int
  pg_PageCount :: int
  pg_TotalRows :: int

definition DefaultPageSize :: int where "DefaultPageSize = 10"
definition MaxPageSize :: int where "MaxPageSize = 100"

definition New :: "int \<Rightarrow> int \<Rightarrow> int \<Rightarrow> Pages" where
  "New page pageSize rows =
     (let page = (if page \<le> 0 then 0 else page);
          pageSize = (if pageSize \<le> 0 then DefaultPageSize else pageSize);
          pageSize = (if pageSize > MaxPageSize then MaxPageSize else pageSize);
          pageCount = (if rows \<ge> 0 then int64 (rows + pageSize - 1) sdiv pageSize else - 1)
      in \<lparr>pg_Page = page, pg_PageSize = pageSize, pg_PageCount = pageCount, pg_TotalRows = rows\<rparr>)"

definition parseInt :: "bytes \<Rightarrow> int \<Rightarrow> int" where
  "parseInt v dflt = (case atoi v of Some n \<Rightarrow> n | None \<Rightarrow> dflt)"

definition GetPaginationParametersFromRequest :: "request \<Rightarrow> int \<times> int" where
  "GetPaginationParametersFromRequest r =
     (parseInt (query_get r ''page'') 1, parseInt (query_get r ''limit'') DefaultPageSize)"

subsection \<open>Answers\<close>

text \<open>\<open>utils.WebResponse\<close> with the status \<open>success\<close>.\<close>

definition json_Meta :: "Pages \<Rightarrow> json" where
  "json_Meta p = JObj [(''page'', jint (pg_Page p)), (''limit'', jint (pg_PageSize p)),
     (''page_count'', jint (pg_PageCount p)), (''total_rows'', jint (pg_TotalRows p))]"

definition json_WebResponse :: "json \<Rightarrow> Pages option \<Rightarrow> json" where
  "json_WebResponse dat meta = JObj ([(''code'', jint 200), (''status'', JStr ''success''), (''data'', dat)]
     @ (case meta of None \<Rightarrow> [] | Some p \<Rightarrow> [(''meta'', json_Meta p)]))"

definition success :: "json \<Rightarrow> reply" where
  "success dat = SendJSONResponse 200 (json_WebResponse dat None)"

definition failed :: "'e req_ctx \<Rightarrow> gerror \<Rightarrow> reply" where
  "failed cx err = HandleError (RequestIDFromContext cx) (Some err)"

definition json_UplinkPort :: "UplinkPort \<Rightarrow> json" where
  "json_UplinkPort p = JObj [(''name'', JStr (up_Name p)), (''shelf'', jint (up_Shelf p)), (''slot'', jint (up_Slot p)),
     (''port'', jint (up_Port p)), (''kind'', JStr (up_Kind p)), (''admin_status'', JStr (up_AdminStatus p)),
     (''oper_status'', JStr (up_OperStatus p)), (''speed_mbps'', jint (up_SpeedMbps p))]"

definition json_UplinkCard :: "UplinkCard \<Rightarrow> json" where
  "json_UplinkCard c = JObj [(''ent_index'', jint (cd_EntIndex c)), (''slot'', jint (cd_Slot c)),
     (''type'', JStr (cd_Type c)), (''role'', JStr (cd_Role c))]"

definition json_UplinkTopology :: "UplinkTopology \<Rightarrow> json" where
  "json_UplinkTopology t = JObj [(''cards'', JArr (map json_UplinkCard (ut_Cards t))),
     (''ports'', JArr (map json_UplinkPort (ut_Ports t)))]"

definition board_id :: "'e req_ctx \<Rightarrow> int" where "board_id cx = fst (GetBoardID cx)"
definition pon_id :: "'e req_ctx \<Rightarrow> int" where "pon_id cx = fst (GetPonID cx)"
definition onu_id :: "'e req_ctx \<Rightarrow> int" where "onu_id cx = fst (GetOnuID cx)"

definition port_json :: "'e req_ctx \<Rightarrow> (bytes \<times> json) list" where
  "port_json cx = [(''board_id'', jint (board_id cx)), (''pon_id'', jint (pon_id cx))]"

subsection \<open>The handlers\<close>

type_synonym ('e, 'w) onu_handler = "'w onu_uc \<Rightarrow> request \<Rightarrow> 'e req_ctx \<Rightarrow> 'w \<Rightarrow> reply \<times> 'w"

definition json_query :: "(bytes, bytes list) gomap \<Rightarrow> json" where
  "json_query q = json_of_map (map (\<lambda>(k, vs). (k, JArr (map JStr vs))) q)"

definition h_GetByBoardIDAndPonID :: "(bytes, snmp_pdu) range_ord \<Rightarrow> ('e, 'w) onu_handler" where
  "h_GetByBoardIDAndPonID ord u r cx w =
     (if rq_Query r \<noteq> [] \<and> gm_get (rq_Query r) ''onu_id'' = None
      then (failed cx (NewValidationError
              (''invalid query parameter - only '' @ [CHR 0x27] @ ''onu_id'' @ [CHR 0x27] @ '' is allowed'')
              [(''received'', json_query (rq_Query r))]), w)
      else (case GetByBoardIDAndPonID ord u (board_id cx) (pon_id cx) w of
              ((Inl err, _), w) \<Rightarrow> (failed cx err, w)
            | ((Inr l, _), w) \<Rightarrow>
                (if slice_list l = [] then (failed cx (NewNotFoundError ''ONU info'' (json_of_map (port_json cx))), w)
                 else (success (json_slice json_ONUInfoPerBoard l), w))))"

definition h_GetByBoardIDPonIDAndOnuID :: "(bytes, snmp_pdu) range_ord \<Rightarrow> ('e, 'w) onu_handler" where
  "h_GetByBoardIDPonIDAndOnuID ord u r cx w =
     (case GetByBoardIDPonIDAndOnuID ord u (board_id cx) (pon_id cx) (onu_id cx) w of
        (Inl err, w) \<Rightarrow> (failed cx err, w)
      | (Inr d, w) \<Rightarrow>
          (if cu_Board d = 0 \<and> cu_PON d = 0 \<and> cu_ID d = 0
           then (failed cx (NewNotFoundError ''ONU'' (json_of_map (port_json cx @ [(''onu_id'', jint (onu_id cx))]))), w)
           else (success (json_ONUCustomerInfo d), w)))"

definition h_GetEmptyOnuID :: "('e, 'w) onu_handler" where
  "h_GetEmptyOnuID u r cx w =
     (case GetEmptyOnuID u (board_id cx) (pon_id cx) w of
        (Inl err, w) \<Rightarrow> (failed cx err, w)
      | (Inr l, w) \<Rightarrow> (success (json_slice json_OnuID l), w))"

definition h_GetOnuIDAndSerialNumber :: "('e, 'w) onu_handler" where
  "h_GetOnuIDAndSerialNumber u r cx w =
     (case GetOnuIDAndSerialNumber u (query_get r ''nocache'' = ''true'') (board_id cx) (pon_id cx) w of
        (Inl err, w) \<Rightarrow> (failed cx err, w)
      | (Inr l, w) \<Rightarrow> (success (json_slice json_OnuSerialNumber l), w))"

definition h_UpdateEmptyOnuID :: "('e, 'w) onu_handler" where
  "h_UpdateEmptyOnuID u r cx w =
     (case UpdateEmptyOnuID u (board_id cx) (pon_id cx) w of
        (Some err, w) \<Rightarrow> (failed cx err, w)
      | (None, w) \<Rightarrow> (success (JStr ''Success Update Empty ONU_ID''), w))"

text \<open>\<open>None\<close> is a panic.\<close>

definition h_GetByBoardIDAndPonIDWithPaginate ::
    "(bytes, snmp_pdu) range_ord \<Rightarrow> 'w onu_uc \<Rightarrow> request \<Rightarrow> 'e req_ctx \<Rightarrow> 'w \<Rightarrow> reply option \<times> 'w" where
  "h_GetByBoardIDAndPonIDWithPaginate ord u r cx w =
     (case GetPaginationParametersFromRequest r of
        (pageIndex, pageSize) \<Rightarrow>
          (case GetByBoardIDAndPonIDWithPagination ord u (board_id cx) (pon_id cx) pageIndex pageSize w of
             (Panic, w) \<Rightarrow> (None, w)
           | (Page item rows, w) \<Rightarrow>
               (if slice_list item = []
                then (Some (failed cx (NewNotFoundError ''ONU data'' (json_of_map (port_json cx @ [(''page'', jint pageIndex)])))), w)
                else (Some (SendJSONResponse 200 (json_WebResponse (json_slice json_ONUInfoPerBoard item)
                       (Some (New pageIndex pageSize rows)))), w))))"

definition h_DeleteCache :: "('e, 'w) onu_handler" where
  "h_DeleteCache u r cx w =
     (case DeleteCache u (board_id cx) (pon_id cx) w of
        (Some err, w) \<Rightarrow> (failed cx err, w)
      | (None, w) \<Rightarrow> (success (json_of_map ((''message'', JStr ''Cache deleted successfully'') # port_json cx)), w))"

definition h_GetUplinkTopology ::
    "(int, bytes \<times> bytes) range_ord \<Rightarrow> (int, int) range_ord \<Rightarrow> ('e, 'w) onu_handler" where
  "h_GetUplinkTopology ordp ordc u r cx w =
     (case GetUplinkTopology ordp ordc u w of
        (Inl err, w) \<Rightarrow> (failed cx err, w)
      | (Inr topo, w) \<Rightarrow> (success (json_UplinkTopology topo), w))"

definition h_InvalidateOnuCache :: "('e, 'w) onu_handler" where
  "h_InvalidateOnuCache u r cx w =
     (case InvalidateONUCache u (board_id cx) (pon_id cx) (onu_id cx) w of
        (Some err, w) \<Rightarrow> (failed cx err, w)
      | (None, w) \<Rightarrow> (success (json_of_map ((''message'', JStr ''ONU cache invalidated'') # port_json cx
                        @ [(''onu_id'', jint (onu_id cx))])), w))"

end
