(* ===== verification/Snmp_Setup.thy ===== *)
theory Snmp_Setup
  imports Load_Config Snmp_Repo
begin

text \<open>
  \<open>pkg/snmp/snmp.go\<close>: the connection to an OLT and its tunables, and the constructor of
  the repository in \<open>internal/repository/snmp.go\<close>. \<open>gosnmp\<close> itself is the
  argument \<open>dial\<close>: connecting to a target gives the operations of the connection or an error.
\<close>

record snmp_target =
  st_Target :: bytes
  st_Port :: int
  st_Community :: bytes
  st_Timeout :: int
  st_Retries :: int
  st_MaxOids :: int
  st_MaxRepetitions :: int

type_synonym 'w dialer = "snmp_target \<Rightarrow> 'w \<Rightarrow> (gerror + 'w conn_ops) \<times> 'w"

subsection \<open>The tunables\<close>

text \<open>Durations are nanoseconds, and a product of two durations wraps around.\<close>

definition snmpTimeout :: "env \<Rightarrow> int" where
  "snmpTimeout env =
     (case atoi (env ''SNMP_TIMEOUT_SECONDS'') of
        Some n \<Rightarrow> if n > 0 then int64 (n * 1000000000) else 5 * 1000000000
      | None \<Rightarrow> 5 * 1000000000)"

definition snmpRetries :: "env \<Rightarrow> int" where
  "snmpRetries env =
     (case atoi (env ''SNMP_RETRIES'') of Some n \<Rightarrow> if n \<ge> 0 then n else 2 | None \<Rightarrow> 2)"

definition snmpMaxRepetitions :: "env \<Rightarrow> int" where
  "snmpMaxRepetitions env =
     (case atoi (env ''SNMP_MAX_REPETITIONS'') of
        Some n \<Rightarrow> if n > 0 then n mod 4294967296 else DefaultMaxRepetitions
      | None \<Rightarrow> DefaultMaxRepetitions)"

subsection \<open>Connecting\<close>

definition snmp_target_for :: "env \<Rightarrow> bytes \<Rightarrow> int \<Rightarrow> bytes \<Rightarrow> snmp_target" where
  "snmp_target_for env host port community =
     \<lparr>st_Target = host, st_Port = port, st_Community = community, st_Timeout = snmpTimeout env,
      st_Retries = snmpRetries env, st_MaxOids = 60, st_MaxRepetitions = snmpMaxRepetitions env\<rparr>"

definition SetupSnmpConnectionWith ::
    "env \<Rightarrow> 'w dialer \<Rightarrow> bytes \<Rightarrow> int \<Rightarrow> bytes \<Rightarrow> 'w \<Rightarrow> (gerror + 'w conn_ops) \<times> 'w" where
  "SetupSnmpConnectionWith env dial host port community w =
     (if host = [] \<or> port = 0 \<or> community = [] then (Inl (Plain ''konfigurasi SNMP tidak valid''), w)
      else (case dial (snmp_target_for env host port community) w of
              (Inl err, w) \<Rightarrow> (Inl (Wrap ''gagal terhubung ke SNMP: '' err), w)
            | (Inr conn, w) \<Rightarrow> (Inr conn, w)))"

definition SetupSnmpConnection ::
    "env \<Rightarrow> 'w dialer \<Rightarrow> Config \<Rightarrow> 'w \<Rightarrow> (gerror + 'w conn_ops) \<times> 'w" where
  "SetupSnmpConnection env dial cfg w =
     (if env ''APP_ENV'' = ''development'' \<or> env ''APP_ENV'' = ''production''
      then SetupSnmpConnectionWith env dial (env ''SNMP_HOST'') (ConvertStringToUint16 (env ''SNMP_PORT''))
             (env ''SNMP_COMMUNITY'') w
      else SetupSnmpConnectionWith env dial (snmp_IP (SnmpCfg cfg)) (snmp_Port (SnmpCfg cfg))
             (snmp_Community (SnmpCfg cfg)) w)"

text \<open>
  The further connections of the pool are made to the same target, with the default
  max-repetitions if the seed has none. All of them reach one device, so the repository
  shows the operations of the seed.
\<close>

definition pool_target :: "snmp_target \<Rightarrow> snmp_target" where
  "pool_target t = t\<lparr>st_MaxRepetitions := pool_max_repetitions (st_MaxRepetitions t)\<rparr>"

definition createConnection :: "'w dialer \<Rightarrow> snmp_target \<Rightarrow> 'w \<Rightarrow> 'w conn_ops option \<times> 'w" where
  "createConnection dial t w =
     (case dial t w of (Inl _, w) \<Rightarrow> (None, w) | (Inr conn, w) \<Rightarrow> (Some conn, w))"

definition NewPonRepositoryWithConcurrency ::
    "'w dialer \<Rightarrow> snmp_target \<Rightarrow> 'w conn_ops \<Rightarrow> bool \<Rightarrow> 'w \<Rightarrow> 'w snmp_repo \<times> 'w" where
  "NewPonRepositoryWithConcurrency dial t seed useWalk w =
     (case new_pool (createConnection dial (pool_target t)) seed w of
        (_, w) \<Rightarrow> (\<lparr>sr_conn = seed, sr_acquire = (\<lambda>w. (True, w)), sr_useWalk = useWalk\<rparr>, w))"

text \<open>
  The comment of \<open>snmpMaxRepetitions\<close> says that 0 can never come from the configuration.
  The conversion to 32 bits lets it: a multiple of \<open>2\<^sup>32\<close> is positive as an \<open>int\<close>
  and 0 as an \<open>uint32\<close>.
\<close>

lemma snmpMaxRepetitions_range: "0 \<le> snmpMaxRepetitions env \<and> snmpMaxRepetitions env < 4294967296"
  by (simp add: snmpMaxRepetitions_def DefaultMaxRepetitions_def split: option.split)

lemma snmpMaxRepetitions_wraps:
  "snmpMaxRepetitions (\<lambda>k. if k = ''SNMP_MAX_REPETITIONS'' then ''4294967296'' else []) = 0"
  by code_simp

lemma pool_target_repetitions: "st_MaxRepetitions (pool_target t) \<noteq> 0"
  by (simp add: pool_target_def pool_max_repetitions_def DefaultMaxRepetitions_def)

end
