(* ===== verification/Trap_Listener.thy ===== *)
theory Trap_Listener
  imports Oid_Generator Extractors
begin

text \<open>
  \<open>internal/trap/listener.go\<close>: from an SNMP trap packet to a \<open>TrapEvent\<close>. The socket
  of \<open>gosnmp.TrapListener\<close> is outside; \<open>handleTrap\<close> is given the time, the address
  of the sender and the variables of the packet, and returns the event that it hands to
  the callback \<open>OnEvent\<close>.
\<close>

definition OIDSnmpTrapOID :: bytes where "OIDSnmpTrapOID = ''.1.3.6.1.6.3.1.1.4.1.0''"
definition OIDTrapOnuOffline :: bytes where "OIDTrapOnuOffline = ''.1.3.6.1.4.1.3902.1082.500.10.3.1.9''"
definition OIDTrapOnuOnline :: bytes where "OIDTrapOnuOnline = ''.1.3.6.1.4.1.3902.1082.500.10.3.1.10''"
definition OIDOnuName :: bytes where "OIDOnuName = ''.1.3.6.1.4.1.3902.1082.500.10.2.3.3.1.2''"
definition OIDOnuType :: bytes where "OIDOnuType = ''.1.3.6.1.4.1.3902.1082.500.10.2.3.3.1.1''"
definition OIDOnuDescription :: bytes where "OIDOnuDescription = ''.1.3.6.1.4.1.3902.1082.500.10.2.3.3.1.3''"
definition OIDOnuSerial :: bytes where "OIDOnuSerial = ''.1.3.6.1.4.1.3902.1082.500.10.2.3.3.1.18''"
definition OIDOnuStatus :: bytes where "OIDOnuStatus = ''.1.3.6.1.4.1.3902.1082.500.10.2.3.8.1.4''"
definition OIDOnuOffReason :: bytes where "OIDOnuOffReason = ''.1.3.6.1.4.1.3902.1082.500.10.2.3.8.1.7''"

record TrapEvent =
  ev_Timestamp :: instant
  ev_Source :: bytes
  ev_Board :: int
  ev_PON :: int
  ev_OnuID :: int
  ev_EventType :: bytes
  ev_Status :: bytes
  ev_Name :: bytes
  ev_Description :: bytes
  ev_OnuType :: bytes
  ev_SerialNumber :: bytes
  ev_RXPower :: bytes
  ev_LastOffline :: bytes
  ev_LastOnline :: bytes

definition zero_event :: TrapEvent where
  "zero_event = \<lparr>ev_Timestamp = 0, ev_Source = [], ev_Board = 0, ev_PON = 0, ev_OnuID = 0,
     ev_EventType = [], ev_Status = [], ev_Name = [], ev_Description = [], ev_OnuType = [],
     ev_SerialNumber = [], ev_RXPower = [], ev_LastOffline = [], ev_LastOnline = []\<rparr>"

fun extractString :: "snmp_value \<Rightarrow> bytes" where
  "extractString (VBytes v) = v"
| "extractString (VString v) = v"
| "extractString _ = []"

definition mapTrapOID :: "bytes \<Rightarrow> bytes \<times> bytes" where
  "mapTrapOID trapOID =
     (if trapOID = OIDTrapOnuOffline \<or> trapOID = OIDTrapOnuOnline then (''StatusChange'', []) else ([], []))"

definition parseOnuIndex :: "bytes \<Rightarrow> bytes \<Rightarrow> int \<times> int \<times> int" where
  "parseOnuIndex fullOID prefix =
     (let suffix = trim_prefix (trim_prefix fullOID prefix) ''.'';
          parts = split_on CHR ''.'' suffix
      in case atoi (hd parts) of
        None \<Rightarrow> (0, 0, 0)
      | Some encoded \<Rightarrow>
          (let n = int64 (encoded - OnuIDIfIndexBase);
               slot = n sdiv OnuIDSlotStride;
               ponVal = n smod OnuIDSlotStride
           in if n < 1 \<or> slot < 1 \<or> slot > MaxBoardID \<or> ponVal < 1 \<or> ponVal > MaxPonID
              then (0, 0, case atoi (last parts) of Some i \<Rightarrow> i | None \<Rightarrow> 0)
              else (slot, ponVal,
                    if length parts \<ge> 2
                    then (case atoi (parts ! 1) of Some i \<Rightarrow> i | None \<Rightarrow> 0) else 0)))"

definition mapStatus :: "int \<Rightarrow> bytes \<times> bytes" where
  "mapStatus status =
     (if status = 1 then (''logging'', ''Logging'')
      else if status = 2 then (''offline'', ''LOS'')
      else if status = 3 then (''syncing'', ''Synchronization'')
      else if status = 4 then (''online'', ''Online'')
      else if status = 5 then (''offline'', ''DyingGasp'')
      else if status = 6 then (''offline'', ''AuthFailed'')
      else if status = 7 then (''offline'', ''Offline'')
      else (''unknown'', ''Unknown''))"

definition mapOfflineReason :: "int \<Rightarrow> bytes" where
  "mapOfflineReason reason =
     (if reason = 1 then ''Unknown'' else if reason = 2 then ''LOS'' else if reason = 3 then ''LOSi''
      else if reason = 4 then ''LOFi'' else if reason = 5 then ''SFi'' else if reason = 6 then ''LOAi''
      else if reason = 7 then ''LOAMi'' else if reason = 8 then ''AuthFail''
      else if reason = 9 then ''PowerOff'' else if reason = 10 then ''DeactivateSuccess''
      else if reason = 11 then ''DeactivateFail'' else if reason = 12 then ''Reboot''
      else if reason = 13 then ''Shutdown'' else ''Unknown'')"

subsection \<open>The two passes over the variables\<close>

fun trap_pass1 :: "snmp_pdu list \<Rightarrow> TrapEvent \<Rightarrow> TrapEvent" where
  "trap_pass1 [] event = event"
| "trap_pass1 (v # vs) event =
     (if pdu_Name v = OIDSnmpTrapOID
      then (case pdu_Value v of
              VString trapOID \<Rightarrow>
                event\<lparr>ev_EventType := fst (mapTrapOID trapOID), ev_Status := snd (mapTrapOID trapOID)\<rparr>
            | _ \<Rightarrow> event)
      else trap_pass1 vs event)"

definition set_location :: "int \<times> int \<times> int \<Rightarrow> TrapEvent \<Rightarrow> TrapEvent" where
  "set_location loc event =
     (case loc of (b, p, i) \<Rightarrow> event\<lparr>ev_Board := b, ev_PON := p, ev_OnuID := i\<rparr>)"

definition trap_var :: "snmp_pdu \<Rightarrow> TrapEvent \<Rightarrow> TrapEvent" where
  "trap_var v event =
     (let oid = pdu_Name v in
      if has_prefix oid (OIDOnuSerial @ ''.'')
      then (let serial = extractString (pdu_Value v);
                serial = (case index_byte CHR '','' serial of Some idx \<Rightarrow> drop (idx + 1) serial | None \<Rightarrow> serial)
            in event\<lparr>ev_SerialNumber := serial\<rparr>)
      else if has_prefix oid (OIDOnuDescription @ ''.'')
      then event\<lparr>ev_Description := extractString (pdu_Value v)\<rparr>
      else if has_prefix oid (OIDOnuName @ ''.'')
      then (set_location (parseOnuIndex oid OIDOnuName) event)\<lparr>ev_Name := extractString (pdu_Value v)\<rparr>
      else if has_prefix oid (OIDOnuType @ ''.'')
      then event\<lparr>ev_OnuType := extractString (pdu_Value v)\<rparr>
      else if has_prefix oid (OIDOnuStatus @ ''.'')
      then (let event = (if ev_Board event = 0 then set_location (parseOnuIndex oid OIDOnuStatus) event else event)
            in case pdu_Value v of
                 VInt status \<Rightarrow> event\<lparr>ev_Status := fst (mapStatus status), ev_EventType := snd (mapStatus status)\<rparr>
               | _ \<Rightarrow> event)
      else if has_prefix oid (OIDOnuOffReason @ ''.'')
      then (case pdu_Value v of VInt reason \<Rightarrow> event\<lparr>ev_EventType := mapOfflineReason reason\<rparr> | _ \<Rightarrow> event)
      else event)"

definition handleTrap :: "instant \<Rightarrow> bytes \<Rightarrow> snmp_pdu list \<Rightarrow> TrapEvent" where
  "handleTrap now source variables =
     (let event = zero_event\<lparr>ev_Timestamp := now, ev_Source := source\<rparr>;
          event = trap_pass1 variables event;
          event = fold trap_var variables event
      in if ev_Board event = 0 \<and> ev_PON event = 0 \<and> ev_OnuID event = 0
         then (let event = event\<lparr>ev_EventType := ''unknown''\<rparr>
               in if ev_Description event = []
                  then event\<lparr>ev_Description := ''Unrecognized trap from '' @ source @ '' with ''
                              @ itoa (int (length variables)) @ '' variables''\<rparr>
                  else event)
         else event)"

subsection \<open>Decoding inverts the encoding\<close>

lemma onu_id_suffix_decode:
  assumes "valid_slot b" "valid_pon p"
  shows "int64 (onu_id_suffix b p - OnuIDIfIndexBase) = b * 256 + p"
    and "(b * 256 + p) sdiv OnuIDSlotStride = b" and "(b * 256 + p) smod OnuIDSlotStride = p"
    and "in_int64 (onu_id_suffix b p)"
  using assms
  by (auto simp: onu_id_suffix_def valid_slot_def valid_pon_def oid_consts sdiv_nonneg smod_nonneg in_int64_def)

lemma split_oid_tail:
  assumes "rest = [] \<or> (\<exists>r. rest = CHR ''.'' # r)"
  shows "\<exists>ps. split_on CHR ''.'' (itoa n @ rest) = itoa n # ps"
  using assms split_on_append [of "CHR ''.''" "itoa n"] by (auto simp: split_on_no_sep)

lemma parseOnuIndex_generated:
  assumes "valid_slot b" "valid_pon p" "in_int64 onu" "rest = [] \<or> (\<exists>r. rest = CHR ''.'' # r)"
  shows "parseOnuIndex (oid_join prefix (onu_id_suffix b p) @ ''.'' @ itoa onu @ rest) prefix = (b, p, onu)"
proof -
  let ?tail = "itoa (onu_id_suffix b p) @ ''.'' @ itoa onu @ rest"
  obtain ps where ps: "split_on CHR ''.'' (itoa onu @ rest) = itoa onu # ps"
    using split_oid_tail [OF assms(4)] by blast
  have parts: "split_on CHR ''.'' ?tail = itoa (onu_id_suffix b p) # itoa onu # ps"
    using split_on_append [of "CHR ''.''" "itoa (onu_id_suffix b p)" "itoa onu @ rest"] ps by simp
  have trim: "trim_prefix (trim_prefix (oid_join prefix (onu_id_suffix b p) @ ''.'' @ itoa onu @ rest) prefix) ''.'' = ?tail"
    by (simp add: oid_join_def trim_prefix_def)
  show ?thesis
    unfolding parseOnuIndex_def Let_def trim parts
    using onu_id_suffix_decode [OF assms(1, 2)] assms
    by (auto simp: valid_slot_def valid_pon_def)
qed

lemma sdiv_smod_decode:
  assumes "\<not> n < 1" "n sdiv OnuIDSlotStride = b" "n smod OnuIDSlotStride = p"
  shows "n = b * 256 + p"
  using assms by (auto simp: OnuIDSlotStride_def sdiv_nonneg smod_nonneg)

lemma parseOnuIndex_valid:
  assumes "parseOnuIndex oid prefix = (b, p, i)"
  shows "b = 0 \<and> p = 0 \<or> valid_slot b \<and> valid_pon p"
  using assms
  by (auto simp: parseOnuIndex_def Let_def valid_slot_def valid_pon_def split: option.splits if_splits)

lemma int64_below: "\<lbrakk>- 27670116110564327424 \<le> x; x < - 9223372036854775808\<rbrakk> \<Longrightarrow> int64 x = x + 18446744073709551616"
proof -
  assume x: "- 27670116110564327424 \<le> x" "x < - 9223372036854775808"
  have "(x + 9223372036854775808) mod 18446744073709551616
    = (x + 9223372036854775808 + 18446744073709551616) mod 18446744073709551616" by (simp only: mod_add_self2)
  also have "\<dots> = x + 9223372036854775808 + 18446744073709551616"
    using x by (intro mod_pos_pos_trivial) auto
  finally show ?thesis by (simp add: int64_def)
qed

lemma small_difference:
  assumes "in_int64 e" "int64 (e - OnuIDIfIndexBase) = k" "0 \<le> k" "k < 65536"
  shows "e = OnuIDIfIndexBase + k"
proof (cases "- 9223372036854775808 \<le> e - OnuIDIfIndexBase")
  case True
  with assms show ?thesis by (simp add: in_int64_def OnuIDIfIndexBase_def)
next
  case False
  with assms int64_below [of "e - OnuIDIfIndexBase"] show ?thesis
    by (simp add: in_int64_def OnuIDIfIndexBase_def)
qed

definition index_component :: "bytes \<Rightarrow> bytes \<Rightarrow> bytes" where
  "index_component oid prefix = hd (split_on CHR ''.'' (trim_prefix (trim_prefix oid prefix) ''.''))"

lemma parseOnuIndex_decoded:
  assumes "parseOnuIndex oid prefix = (b, p, i)" "b \<noteq> 0"
  shows "atoi (index_component oid prefix) = Some (onu_id_suffix b p)"
proof -
  let ?part = "index_component oid prefix"
  obtain e where e: "atoi ?part = Some e"
    using assms by (auto simp: parseOnuIndex_def index_component_def Let_def split: option.splits)
  let ?n = "int64 (e - OnuIDIfIndexBase)"
  have n: "\<not> ?n < 1" "?n sdiv OnuIDSlotStride = b" "?n smod OnuIDSlotStride = p" and v: "valid_slot b \<and> valid_pon p"
    using assms e parseOnuIndex_valid [OF assms(1)]
    by (auto simp: parseOnuIndex_def index_component_def Let_def split: if_splits)
  have "?n = b * 256 + p" using sdiv_smod_decode [OF n] .
  then have "e = OnuIDIfIndexBase + (b * 256 + p)"
    using v by (intro small_difference [OF atoi_range [OF e]]) (auto simp: valid_slot_def valid_pon_def oid_consts)
  then show ?thesis by (simp add: e onu_id_suffix_def oid_consts)
qed

text \<open>
  A trap variable below the name (or status) column decodes to the slot, the
  PON port and the ONU number it was generated for, for every slot and port of the chassis;
  and every triple with a slot that decoding returns is a valid slot and port whose
  generated suffix is the component that was decoded.
\<close>

theorem parseOnuIndex_roundtrip:
  "(valid_slot b \<and> valid_pon p \<and> in_int64 onu \<and> (rest = [] \<or> (\<exists>r. rest = CHR ''.'' # r))
      \<longrightarrow> parseOnuIndex (oid_join prefix (onu_id_suffix b p) @ ''.'' @ itoa onu @ rest) prefix = (b, p, onu))
   \<and> (parseOnuIndex oid prefix = (b', p', i') \<and> b' \<noteq> 0
      \<longrightarrow> valid_slot b' \<and> valid_pon p' \<and> atoi (index_component oid prefix) = Some (onu_id_suffix b' p'))"
  using parseOnuIndex_generated [of b p onu rest prefix] parseOnuIndex_valid [of oid prefix b' p' i']
    parseOnuIndex_decoded [of oid prefix b' p' i']
  by blast

theorem parseOnuIndex_roundtrip_witness:
  "parseOnuIndex ''.1.3.6.1.4.1.3902.1082.500.10.2.3.3.1.2.285278977.7'' OIDOnuName = (3, 1, 7)"
proof -
  have "oid_join OIDOnuName (onu_id_suffix 3 1) @ ''.'' @ itoa 7 @ [] =
    ''.1.3.6.1.4.1.3902.1082.500.10.2.3.3.1.2.285278977.7''" by code_simp
  then show ?thesis
    using parseOnuIndex_roundtrip [of 3 1 7 "[]" OIDOnuName "[]" 0 0 0]
    by (simp add: valid_slot_def valid_pon_def oid_consts in_int64_def)
qed

subsection \<open>The column prefixes exclude each other\<close>

definition onu_columns :: "bytes list" where
  "onu_columns = [OIDOnuSerial, OIDOnuDescription, OIDOnuName, OIDOnuType, OIDOnuStatus, OIDOnuOffReason]"

lemma has_prefix_compare:
  "\<lbrakk>has_prefix s p; has_prefix s q\<rbrakk> \<Longrightarrow> has_prefix p q \<or> has_prefix q p"
  by (auto simp: has_prefix_iff append_eq_append_conv2)

lemma onu_columns_no_prefix:
  "list_all (\<lambda>p. list_all (\<lambda>q. p = q \<or> \<not> has_prefix (p @ ''.'') (q @ ''.'')) onu_columns) onu_columns"
  by code_simp

lemma columns_distinct: "OIDOnuSerial \<noteq> OIDOnuName" "OIDOnuDescription \<noteq> OIDOnuName"
  by code_simp+

lemma columns_exclusive:
  assumes "p \<in> set onu_columns" "q \<in> set onu_columns"
    and "has_prefix oid (p @ ''.'')" "has_prefix oid (q @ ''.'')"
  shows "p = q"
  using onu_columns_no_prefix has_prefix_compare [OF assms(3, 4)] assms(1, 2)
  by (auto simp: list_all_iff)

subsection \<open>What an event says\<close>

definition located :: "TrapEvent \<Rightarrow> bool" where
  "located e \<longleftrightarrow> ev_Board e = 0 \<and> ev_PON e = 0 \<or> valid_slot (ev_Board e) \<and> valid_pon (ev_PON e)"

lemma set_location_located:
  "located (set_location (parseOnuIndex oid prefix) e)"
  using parseOnuIndex_valid [of oid prefix]
  by (auto simp: set_location_def located_def split: prod.splits)

lemma trap_var_located: "located e \<Longrightarrow> located (trap_var v e)"
  using set_location_located [of "pdu_Name v" OIDOnuName e] set_location_located [of "pdu_Name v" OIDOnuStatus e]
  by (auto simp: trap_var_def Let_def located_def split: snmp_value.splits)

lemma fold_trap_var_located: "located e \<Longrightarrow> located (fold trap_var vs e)"
  by (induction vs arbitrary: e) (auto intro: trap_var_located)

lemma trap_pass1_location:
  "ev_Board (trap_pass1 vs e) = ev_Board e \<and> ev_PON (trap_pass1 vs e) = ev_PON e
   \<and> ev_OnuID (trap_pass1 vs e) = ev_OnuID e \<and> ev_Source (trap_pass1 vs e) = ev_Source e
   \<and> ev_Timestamp (trap_pass1 vs e) = ev_Timestamp e"
  by (induction vs arbitrary: e) (auto split: snmp_value.splits)

text \<open>
  Whatever packet arrives, the event names either no slot at all or a slot and a
  PON port that exist on the chassis; a packet that names no ONU becomes an event of type
  \<open>unknown\<close>, whose description is never empty.
\<close>

theorem handleTrap_located:
  "located (handleTrap now source vars)
   \<and> (ev_Board (handleTrap now source vars) = 0 \<and> ev_PON (handleTrap now source vars) = 0
        \<and> ev_OnuID (handleTrap now source vars) = 0
      \<longrightarrow> ev_EventType (handleTrap now source vars) = ''unknown''
        \<and> ev_Description (handleTrap now source vars) \<noteq> [])"
proof -
  define e where "e = fold trap_var vars (trap_pass1 vars (zero_event\<lparr>ev_Timestamp := now, ev_Source := source\<rparr>))"
  have "located e"
    unfolding e_def
    by (rule fold_trap_var_located) (simp add: located_def trap_pass1_location zero_event_def)
  moreover have "handleTrap now source vars =
    (if ev_Board e = 0 \<and> ev_PON e = 0 \<and> ev_OnuID e = 0
     then (let event = e\<lparr>ev_EventType := ''unknown''\<rparr> in
           if ev_Description event = []
           then event\<lparr>ev_Description := ''Unrecognized trap from '' @ source @ '' with ''
                       @ itoa (int (length vars)) @ '' variables''\<rparr>
           else event)
     else e)"
    by (simp add: handleTrap_def e_def Let_def)
  ultimately show ?thesis by (auto simp: located_def Let_def)
qed

theorem handleTrap_located_witness:
  "ev_Board (handleTrap 5 ''10.0.0.1'' []) = 0 \<and> ev_EventType (handleTrap 5 ''10.0.0.1'' []) = ''unknown''"
proof -
  have "ev_Board (handleTrap 5 ''10.0.0.1'' []) = 0" "ev_PON (handleTrap 5 ''10.0.0.1'' []) = 0"
    "ev_OnuID (handleTrap 5 ''10.0.0.1'' []) = 0"
    by (simp_all add: handleTrap_def zero_event_def)
  then show ?thesis using handleTrap_located [of 5 "''10.0.0.1''" "[]"] by simp
qed

text \<open>The name column sets location and name, whatever was read before.\<close>

lemma trap_var_name:
  assumes "has_prefix (pdu_Name v) (OIDOnuName @ ''.'')"
  shows "trap_var v e = (set_location (parseOnuIndex (pdu_Name v) OIDOnuName) e)\<lparr>ev_Name := extractString (pdu_Value v)\<rparr>"
proof -
  have "\<not> has_prefix (pdu_Name v) (OIDOnuSerial @ ''.'')"
    using columns_exclusive [OF _ _ assms, of OIDOnuSerial] by (auto simp: onu_columns_def columns_distinct columns_distinct [symmetric])
  moreover have "\<not> has_prefix (pdu_Name v) (OIDOnuDescription @ ''.'')"
    using columns_exclusive [OF _ _ assms, of OIDOnuDescription] by (auto simp: onu_columns_def columns_distinct columns_distinct [symmetric])
  ultimately show ?thesis using assms by (simp add: trap_var_def)
qed

definition keeps_location :: "snmp_pdu \<Rightarrow> bool" where
  "keeps_location v \<longleftrightarrow> \<not> has_prefix (pdu_Name v) (OIDOnuName @ ''.'')"

lemma trap_var_keeps:
  "\<lbrakk>keeps_location v; ev_Board e \<noteq> 0\<rbrakk> \<Longrightarrow>
   ev_Board (trap_var v e) = ev_Board e \<and> ev_PON (trap_var v e) = ev_PON e
   \<and> ev_OnuID (trap_var v e) = ev_OnuID e \<and> ev_Name (trap_var v e) = ev_Name e"
  by (auto simp: trap_var_def Let_def keeps_location_def split: snmp_value.splits)

lemma fold_trap_var_keeps:
  "\<lbrakk>\<forall>v \<in> set vs. keeps_location v; ev_Board e \<noteq> 0\<rbrakk> \<Longrightarrow>
   ev_Board (fold trap_var vs e) = ev_Board e \<and> ev_PON (fold trap_var vs e) = ev_PON e
   \<and> ev_OnuID (fold trap_var vs e) = ev_OnuID e \<and> ev_Name (fold trap_var vs e) = ev_Name e"
proof (induction vs arbitrary: e)
  case (Cons v vs)
  have k: "ev_Board (trap_var v e) = ev_Board e \<and> ev_PON (trap_var v e) = ev_PON e
   \<and> ev_OnuID (trap_var v e) = ev_OnuID e \<and> ev_Name (trap_var v e) = ev_Name e"
    using Cons.prems by (intro trap_var_keeps) auto
  then show ?case using Cons.IH [of "trap_var v e"] Cons.prems by simp
qed simp

lemma handleTrap_locates:
  assumes "vars = before @ \<lparr>pdu_Name = oid_join OIDOnuName (onu_id_suffix b p) @ ''.'' @ itoa onu, pdu_Value = x\<rparr> # after"
    and "\<forall>v \<in> set after. \<not> has_prefix (pdu_Name v) (OIDOnuName @ ''.'')"
    and "valid_slot b" "valid_pon p" "in_int64 onu"
  shows "ev_Board (handleTrap now source vars) = b \<and> ev_PON (handleTrap now source vars) = p
    \<and> ev_OnuID (handleTrap now source vars) = onu \<and> ev_Name (handleTrap now source vars) = extractString x"
proof -
  let ?v = "\<lparr>pdu_Name = oid_join OIDOnuName (onu_id_suffix b p) @ ''.'' @ itoa onu, pdu_Value = x\<rparr>"
  define e0 where "e0 = fold trap_var before (trap_pass1 vars (zero_event\<lparr>ev_Timestamp := now, ev_Source := source\<rparr>))"
  have name: "has_prefix (pdu_Name ?v) (OIDOnuName @ ''.'')" by (auto simp: has_prefix_iff oid_join_def)
  have parse: "parseOnuIndex (pdu_Name ?v) OIDOnuName = (b, p, onu)"
    using parseOnuIndex_generated [OF assms(3, 4, 5), of "[]" OIDOnuName] by simp
  define e1 where "e1 = trap_var ?v e0"
  have e1: "ev_Board e1 = b" "ev_PON e1 = p" "ev_OnuID e1 = onu" "ev_Name e1 = extractString x"
    using trap_var_name [OF name, of e0] parse by (simp_all add: e1_def set_location_def)
  have b: "b \<noteq> 0" using assms(3) by (auto simp: valid_slot_def)
  have "fold trap_var vars (trap_pass1 vars (zero_event\<lparr>ev_Timestamp := now, ev_Source := source\<rparr>)) = fold trap_var after e1"
    unfolding e1_def e0_def by (subst assms(1)) (simp add: assms(1))
  moreover have "ev_Board (fold trap_var after e1) = b \<and> ev_PON (fold trap_var after e1) = p
    \<and> ev_OnuID (fold trap_var after e1) = onu \<and> ev_Name (fold trap_var after e1) = extractString x"
    using fold_trap_var_keeps [of after e1] assms(2) b e1 by (simp add: keeps_location_def)
  ultimately show ?thesis using b by (simp add: handleTrap_def Let_def)
qed

text \<open>
  C28. A trap that carries exactly one name variable, generated for slot \<open>b\<close>, port
  \<open>p\<close> and ONU \<open>onu\<close>, becomes an event for exactly that ONU with that name, wherever
  in the packet the variable stands and whatever the other variables say.
\<close>

theorem handleTrap_identifies_onu:
  assumes "vars = before @ \<lparr>pdu_Name = oid_join OIDOnuName (onu_id_suffix b p) @ ''.'' @ itoa onu, pdu_Value = x\<rparr> # after"
    and "\<forall>v \<in> set after. \<not> has_prefix (pdu_Name v) (OIDOnuName @ ''.'')"
    and "valid_slot b" "valid_pon p" "in_int64 onu"
  shows "ev_Board (handleTrap now source vars) = b \<and> ev_PON (handleTrap now source vars) = p
    \<and> ev_OnuID (handleTrap now source vars) = onu \<and> ev_Name (handleTrap now source vars) = extractString x"
  using assms by (rule handleTrap_locates)

theorem handleTrap_identifies_onu_witness:
  "ev_Board (handleTrap 5 ''10.0.0.1''
      [\<lparr>pdu_Name = ''.1.3.6.1.4.1.3902.1082.500.10.2.3.3.1.2.285278977.7'', pdu_Value = VBytes ''onu''\<rparr>]) = 3"
proof -
  have v: "''.1.3.6.1.4.1.3902.1082.500.10.2.3.3.1.2.285278977.7'' =
    oid_join OIDOnuName (onu_id_suffix 3 1) @ ''.'' @ itoa 7" by code_simp
  show ?thesis
    unfolding v
    using handleTrap_identifies_onu [of _ "[]" 3 1 7 "VBytes ''onu''" "[]" 5 "''10.0.0.1''"]
    by (simp add: valid_slot_def valid_pon_def oid_consts in_int64_def)
qed

end
