(* ===== verification/Trap_Severity.thy ===== *)
theory Trap_Severity
  imports Trap_Listener Onu_Model
begin

text \<open>
  The classification of trap events: \<open>alertEventTypes\<close>, \<open>resolveEventType\<close> of
  \<open>internal/trap/handler.go\<close>, and the severities of \<open>internal/trap/formatter.go\<close>
  with their labels, colours, actions and intervals.
\<close>

datatype Severity = SeverityCritical | SeverityHigh | SeverityMedium | SeverityLow | SeverityUnknown

definition eventSeverity :: "bytes \<Rightarrow> Severity" where
  "eventSeverity eventType =
     (if eventType \<in> set [''LOS'', ''LOSi'', ''LOFi'', ''Offline'', ''AuthFailed'', ''PowerOff''] then SeverityCritical
      else if eventType \<in> set [''Logging'', ''Synchronization''] then SeverityHigh
      else if eventType \<in> set [''HighRxPower'', ''LowRxPower''] then SeverityMedium
      else if eventType = ''DyingGasp'' then SeverityLow
      else SeverityUnknown)"

fun severityEmoji :: "Severity \<Rightarrow> bytes" where
  "severityEmoji SeverityCritical = [CHR 0xF0, CHR 0x9F, CHR 0x94, CHR 0xB4]"
| "severityEmoji SeverityHigh = [CHR 0xF0, CHR 0x9F, CHR 0x9F, CHR 0xA0]"
| "severityEmoji SeverityMedium = [CHR 0xF0, CHR 0x9F, CHR 0x9F, CHR 0xA1]"
| "severityEmoji SeverityLow = [CHR 0xF0, CHR 0x9F, CHR 0x94, CHR 0xB5]"
| "severityEmoji SeverityUnknown = [CHR 0xE2, CHR 0x9A, CHR 0xAA]"

fun severityLabel :: "Severity \<Rightarrow> bytes" where
  "severityLabel SeverityCritical = ''CRITICAL''"
| "severityLabel SeverityHigh = ''HIGH''"
| "severityLabel SeverityMedium = ''MEDIUM''"
| "severityLabel SeverityLow = ''LOW''"
| "severityLabel SeverityUnknown = ''UNKNOWN''"

text \<open>The package variable \<open>actionMessages\<close> is a value the formatters are given.\<close>

type_synonym actions = "(Severity, bytes) gomap"

definition actionMessages :: actions where
  "actionMessages =
     [(SeverityCritical, ''Mandatory customer visit within 1x24 hours''),
      (SeverityHigh, ''Mandatory visit within 1x24 hours if Hard Restart does not resolve''),
      (SeverityMedium, ''Mandatory visit within 2x24 hours after notification''),
      (SeverityLow, ''Coordinate with customer to ensure no electrical issues'')]"

definition SetActionMessages :: "bytes \<Rightarrow> bytes \<Rightarrow> bytes \<Rightarrow> bytes \<Rightarrow> actions \<Rightarrow> actions" where
  "SetActionMessages critical high medium low m =
     (let m = (if critical \<noteq> [] then gm_set SeverityCritical critical m else m);
          m = (if high \<noteq> [] then gm_set SeverityHigh high m else m);
          m = (if medium \<noteq> [] then gm_set SeverityMedium medium m else m)
      in if low \<noteq> [] then gm_set SeverityLow low m else m)"

definition severityAction :: "actions \<Rightarrow> Severity \<Rightarrow> bytes" where
  "severityAction m s = (case gm_get m s of Some a \<Rightarrow> a | None \<Rightarrow> [])"

fun severityColorDiscord :: "Severity \<Rightarrow> int" where
  "severityColorDiscord SeverityCritical = 0xFF0000"
| "severityColorDiscord SeverityHigh = 0xFF8C00"
| "severityColorDiscord SeverityMedium = 0xFFD700"
| "severityColorDiscord SeverityLow = 0x3498DB"
| "severityColorDiscord SeverityUnknown = 0x95A5A6"

fun severityColorHex :: "Severity \<Rightarrow> bytes" where
  "severityColorHex SeverityCritical = ''#FF0000''"
| "severityColorHex SeverityHigh = ''#FF8C00''"
| "severityColorHex SeverityMedium = ''#FFD700''"
| "severityColorHex SeverityLow = ''#3498DB''"
| "severityColorHex SeverityUnknown = ''#95A5A6''"

text \<open>\<open>BuildIntervals\<close> counts in seconds, \<open>BuildRepeatIntervals\<close> in minutes.\<close>

definition interval_map :: "int \<Rightarrow> int \<Rightarrow> int \<Rightarrow> int \<Rightarrow> int \<Rightarrow> (Severity, int) gomap" where
  "interval_map unit critical high medium low =
     (let m = (if critical > 0 then gm_set SeverityCritical (int64 (critical * unit)) [] else []);
          m = (if high > 0 then gm_set SeverityHigh (int64 (high * unit)) m else m);
          m = (if medium > 0 then gm_set SeverityMedium (int64 (medium * unit)) m else m)
      in if low > 0 then gm_set SeverityLow (int64 (low * unit)) m else m)"

definition BuildRepeatIntervals :: "int \<Rightarrow> int \<Rightarrow> int \<Rightarrow> int \<Rightarrow> (Severity, int) gomap" where
  "BuildRepeatIntervals critical high medium low = interval_map 60000000000 critical high medium low"

definition BuildIntervals :: "int \<Rightarrow> int \<Rightarrow> int \<Rightarrow> int \<Rightarrow> (Severity, int) gomap" where
  "BuildIntervals critical high medium low = interval_map 1000000000 critical high medium low"

subsection \<open>The verified event type\<close>

definition alertEventTypes :: "bytes list" where
  "alertEventTypes = [''LOS'', ''DyingGasp'', ''PowerOff'', ''Offline'', ''AuthFailed'', ''LOSi'', ''LOFi'',
     ''Logging'', ''Synchronization'']"

definition normalizeOfflineReason :: "bytes \<Rightarrow> bytes" where
  "normalizeOfflineReason reason =
     (let r = to_lower reason in
      if contains r ''losi'' then ''LOSi''
      else if contains r ''lofi'' then ''LOFi''
      else if contains r ''los'' then ''LOS''
      else if contains r ''dyinggasp'' \<or> contains r ''dying'' then ''DyingGasp''
      else if contains r ''poweroff'' \<or> contains r ''power'' then ''PowerOff''
      else if contains r ''authfail'' \<or> contains r ''auth'' then ''AuthFailed''
      else ''Offline'')"

definition resolveEventType :: "bytes \<Rightarrow> bytes \<Rightarrow> bytes" where
  "resolveEventType status offlineReason =
     (let s = to_lower status in
      if contains s ''online'' then ''Online''
      else if contains s ''dying'' then ''DyingGasp''
      else if contains s ''los'' then ''LOS''
      else if contains s ''power'' then ''PowerOff''
      else if contains s ''auth'' then ''AuthFailed''
      else if contains s ''logging'' then ''Logging''
      else if contains s ''sync'' then ''Synchronization''
      else if contains s ''offline''
        then (if offlineReason \<noteq> [] then normalizeOfflineReason offlineReason else ''Offline'')
      else ''Online'')"

lemma normalizeOfflineReason_alerts:
  "normalizeOfflineReason r \<in> set alertEventTypes \<and> eventSeverity (normalizeOfflineReason r) \<in> {SeverityCritical, SeverityLow}"
  by (simp add: normalizeOfflineReason_def alertEventTypes_def eventSeverity_def Let_def)

lemma status_lower:
  "to_lower (ExtractAndGetStatus (VInt 1)) = ''logging''" "to_lower (ExtractAndGetStatus (VInt 2)) = ''los''"
  "to_lower (ExtractAndGetStatus (VInt 3)) = ''synchronization''" "to_lower (ExtractAndGetStatus (VInt 4)) = ''online''"
  "to_lower (ExtractAndGetStatus (VInt 5)) = ''dying gasp''" "to_lower (ExtractAndGetStatus (VInt 6)) = ''auth failed''"
  "to_lower (ExtractAndGetStatus (VInt 7)) = ''offline''" "to_lower ''Unknown'' = ''unknown''"
  by code_simp+

lemma resolve_status_codes:
  "resolveEventType (ExtractAndGetStatus (VInt 1)) r = ''Logging''"
  "resolveEventType (ExtractAndGetStatus (VInt 2)) r = ''LOS''"
  "resolveEventType (ExtractAndGetStatus (VInt 3)) r = ''Synchronization''"
  "resolveEventType (ExtractAndGetStatus (VInt 4)) r = ''Online''"
  "resolveEventType (ExtractAndGetStatus (VInt 5)) r = ''DyingGasp''"
  "resolveEventType (ExtractAndGetStatus (VInt 6)) r = ''AuthFailed''"
  "resolveEventType (ExtractAndGetStatus (VInt 7)) r = (if r = [] then ''Offline'' else normalizeOfflineReason r)"
  "resolveEventType ''Unknown'' r = ''Online''"
  unfolding resolveEventType_def status_lower Let_def by simp_all

text \<open>
  The two ways the service reads the status code of an ONU agree: for every code
  but 7 the event type resolved from the status text of a live read is the one the listener takes
  from the trap, for 7 it is refined by the offline reason, and a code outside the table is no
  alert. A status is alerted exactly for the codes 1, 2, 3, 5, 6 and 7.
\<close>

theorem resolveEventType_status:
  "(n \<in> {1..6} \<longrightarrow> resolveEventType (ExtractAndGetStatus (VInt n)) r = snd (mapStatus n))
   \<and> (resolveEventType (ExtractAndGetStatus (VInt n)) r \<in> set alertEventTypes \<longleftrightarrow> n \<in> {1, 2, 3, 5, 6, 7})"
proof -
  consider "n = 1" | "n = 2" | "n = 3" | "n = 4" | "n = 5" | "n = 6" | "n = 7" | "n \<notin> {1..7}"
    by fastforce
  then show ?thesis
  proof cases
    case 8
    then have "ExtractAndGetStatus (VInt n) = ''Unknown''" by auto
    with 8 show ?thesis by (auto simp: resolve_status_codes(8) alertEventTypes_def)
  qed (use normalizeOfflineReason_alerts [of r] in
      \<open>auto simp: resolve_status_codes mapStatus_def alertEventTypes_def simp del: ExtractAndGetStatus.simps\<close>)
qed

theorem resolveEventType_status_witness:
  "resolveEventType (ExtractAndGetStatus (VInt 5)) [] = snd (mapStatus 5)"
  using resolveEventType_status [of 5 "[]"] by simp

end
