(* ===== verification/Webhook_Format.thy ===== *)
theory Webhook_Format
  imports Trap_Severity Go_Clock
begin

text \<open>
  \<open>internal/trap/formatter*.go\<close>: the payloads of the four notification platforms.

  A payload is a JSON value that is printed at the end. What the formatters read beside their
  arguments is a record: the action texts, the local zone of the process, and the zone database's
  answer for \<open>Asia/Jakarta\<close> (\<open>None\<close> when it has none). Reading the clock threads
  the world. Timestamps of events carry the local zone, as \<open>time.Now\<close> sets it.
\<close>

record fmt_env =
  fe_actions :: actions
  fe_local :: tzloc
  fe_jakarta :: "tzloc option"

type_synonym 'w clock = "'w \<Rightarrow> instant \<times> 'w"

subsection \<open>Shared texts\<close>

definition warn_sign :: bytes where
  "warn_sign = [CHR 0xE2, CHR 0x9A, CHR 0xA0, CHR 0xEF, CHR 0xB8, CHR 0x8F]"

definition nl :: bytes where
  "nl = [CHR 0x0A]"

definition eventTitle :: "TrapEvent \<Rightarrow> bytes" where
  "eventTitle event =
     (let sev = eventSeverity (ev_EventType event);
          category = (if sev = SeverityHigh then ''STUCK'' else ev_EventType event);
          category = (if category = [] then ''Event'' else category)
      in severityEmoji sev @ '' '' @ severityLabel sev @ '' - ONU '' @ category)"

definition now_if_zero :: "'w clock \<Rightarrow> instant \<Rightarrow> 'w \<Rightarrow> instant \<times> 'w" where
  "now_if_zero clock t w = (if t = zero_time then clock w else (t, w))"

definition fixed_zone :: "int \<Rightarrow> tzloc" where
  "fixed_zone offset t = (offset, - 9223372036854775808, 9223372036854775807)"

definition wib_zone :: "fmt_env \<Rightarrow> tzloc" where
  "wib_zone env = (case fe_jakarta env of Some loc \<Rightarrow> loc | None \<Rightarrow> fixed_zone (7 * 60 * 60))"

definition formatTimestampWIB :: "fmt_env \<Rightarrow> 'w clock \<Rightarrow> instant \<Rightarrow> 'w \<Rightarrow> bytes \<times> 'w" where
  "formatTimestampWIB env clock t w =
     (case now_if_zero clock t w of
        (t, w) \<Rightarrow>
          (let d = in_zone (wib_zone env) t
           in (format_dmy d @ '' / '' @ format_time d @ '' WIB'', w)))"

text \<open>\<open>truncate\<close> slices the string; \<open>None\<close> is the panic of a negative bound.\<close>

definition truncate :: "bytes \<Rightarrow> int \<Rightarrow> bytes option" where
  "truncate s m =
     (if int (length s) \<le> m then Some s
      else if m < 1 then None
      else Some (take (nat (m - 1)) s @ [CHR 0xE2, CHR 0x80, CHR 0xA6]))"

definition batchCategory :: "Severity \<Rightarrow> TrapEvent list \<Rightarrow> bytes" where
  "batchCategory sev events =
     (if sev = SeverityHigh then ''STUCK''
      else case events of e # _ \<Rightarrow> ev_EventType e | [] \<Rightarrow> ''Event'')"

definition formatLastOnline :: "fmt_env \<Rightarrow> 'w clock \<Rightarrow> TrapEvent \<Rightarrow> 'w \<Rightarrow> bytes \<times> 'w" where
  "formatLastOnline env clock event w =
     (let raw = (if ev_LastOnline event = [] then ev_LastOffline event else ev_LastOnline event) in
      if raw = [] then formatTimestampWIB env clock (ev_Timestamp event) w
      else (case parse_datetime raw of
              None \<Rightarrow> (raw, w)
            | Some (t, ns) \<Rightarrow> (format_dmy t @ ''/'' @ format_time t, w)))"

definition fieldOrDash :: "bytes \<Rightarrow> bytes" where
  "fieldOrDash s = (if s = [] then ''-'' else s)"

text \<open>\<open>%d/%d/%d\<close> of the slot, the port and the ONU.\<close>

definition onu_place :: "TrapEvent \<Rightarrow> bytes" where
  "onu_place e = itoa (ev_Board e) @ ''/'' @ itoa (ev_PON e) @ ''/'' @ itoa (ev_OnuID e)"

definition batch_title :: "Severity \<Rightarrow> TrapEvent list \<Rightarrow> bytes" where
  "batch_title sev events =
     severityEmoji sev @ '' '' @ severityLabel sev @ '' - '' @ itoa (int (length events)) @ '' ONU ''
     @ batchCategory sev events"

subsection \<open>The platform of a URL\<close>

definition DetectPlatform :: "bytes \<Rightarrow> bytes" where
  "DetectPlatform url =
     (if contains url ''discord.com/api/webhooks'' then ''discord''
      else if contains url ''hooks.slack.com'' then ''slack''
      else if contains url ''api.telegram.org/bot'' then ''telegram''
      else ''generic'')"

definition buildTelegramURL :: "bytes \<Rightarrow> bytes" where
  "buildTelegramURL url =
     (let url = trim_right_chars ''/'' url
      in if has_suffix url ''/sendMessage'' then url else url @ ''/sendMessage'')"

datatype formatter = Generic | Discord | Slack | Telegram bytes

definition NewFormatter :: "bytes \<Rightarrow> bytes \<Rightarrow> bytes \<Rightarrow> formatter \<times> bytes" where
  "NewFormatter url webhookType chatID =
     (let platform = (if webhookType = [] then DetectPlatform url else webhookType) in
      if platform = ''discord'' then (Discord, url)
      else if platform = ''slack'' then (Slack, url)
      else if platform = ''telegram''
      then (if chatID = [] then (Generic, url) else (Telegram chatID, buildTelegramURL url))
      else (Generic, url))"

subsection \<open>Generic: the events themselves\<close>

text \<open>\<open>Time.MarshalJSON\<close> fails outside the years 0 to 9999 and for offsets from 24 hours.\<close>

definition json_time :: "tzloc \<Rightarrow> instant \<Rightarrow> json option" where
  "json_time loc t =
     (let y = dt_year (in_zone loc t) in
      if 0 \<le> y \<and> y \<le> 9999 \<and> \<bar>offset_at loc (t div 1000000000)\<bar> < 24 * 3600
      then Some (JStr (rfc3339 True loc t)) else None)"

definition opt_str :: "bytes \<Rightarrow> bytes \<Rightarrow> (bytes \<times> json) list" where
  "opt_str k v = (if v = [] then [] else [(k, JStr v)])"

definition json_TrapEvent :: "tzloc \<Rightarrow> TrapEvent \<Rightarrow> json option" where
  "json_TrapEvent loc e =
     map_option (\<lambda>t. JObj
       ([(''timestamp'', t), (''source'', JStr (ev_Source e)), (''board'', jint (ev_Board e)),
         (''pon'', jint (ev_PON e)), (''onu_id'', jint (ev_OnuID e)),
         (''event_type'', JStr (ev_EventType e)), (''status'', JStr (ev_Status e))]
        @ opt_str ''name'' (ev_Name e) @ opt_str ''description'' (ev_Description e)
        @ opt_str ''onu_type'' (ev_OnuType e) @ opt_str ''serial_number'' (ev_SerialNumber e)
        @ opt_str ''rx_power'' (ev_RXPower e) @ opt_str ''last_offline'' (ev_LastOffline e)
        @ opt_str ''last_online'' (ev_LastOnline e)))
       (json_time loc (ev_Timestamp e))"

definition marshal :: "json option \<Rightarrow> gerror + bytes" where
  "marshal j = (case j of Some j \<Rightarrow> Inr (json_print j)
     | None \<Rightarrow> Inl (Plain ''json: error calling MarshalJSON for type time.Time''))"

definition Generic_Format :: "fmt_env \<Rightarrow> TrapEvent \<Rightarrow> gerror + bytes" where
  "Generic_Format env event = marshal (json_TrapEvent (fe_local env) event)"

definition Generic_FormatBatch :: "fmt_env \<Rightarrow> TrapEvent list \<Rightarrow> gerror + bytes" where
  "Generic_FormatBatch env events = marshal (map_option JArr (those_all (json_TrapEvent (fe_local env)) events))"

subsection \<open>Discord\<close>

record discordField =
  df_Name :: bytes
  df_Value :: bytes
  df_Inline :: bool

record discordEmbed =
  de_Title :: bytes
  de_Description :: bytes
  de_Color :: int
  de_Fields :: "discordField list option"
  de_Footer :: bytes
  de_Timestamp :: bytes

definition json_discordField :: "discordField \<Rightarrow> json" where
  "json_discordField f = JObj
     [(''name'', JStr (df_Name f)), (''value'', JStr (df_Value f)), (''inline'', JBool (df_Inline f))]"

definition json_discordEmbed :: "discordEmbed \<Rightarrow> json" where
  "json_discordEmbed e = JObj
     ([(''title'', JStr (de_Title e))] @ opt_str ''description'' (de_Description e)
      @ [(''color'', jint (de_Color e)), (''fields'', json_slice json_discordField (de_Fields e)),
         (''footer'', JObj [(''text'', JStr (de_Footer e))]), (''timestamp'', JStr (de_Timestamp e))])"

definition json_discordPayload :: "discordEmbed list \<Rightarrow> json" where
  "json_discordPayload embeds = JObj [(''embeds'', JArr (map json_discordEmbed embeds))]"

definition discord_fields :: "fmt_env \<Rightarrow> TrapEvent \<Rightarrow> bytes \<Rightarrow> discordField list" where
  "discord_fields env e offline =
     (let field = (\<lambda>n v i. \<lparr>df_Name = n, df_Value = v, df_Inline = i\<rparr>);
          action = severityAction (fe_actions env) (eventSeverity (ev_EventType e))
      in [field ''Name'' (fieldOrDash (ev_Name e)) True,
          field ''Event'' (fieldOrDash (ev_EventType e)) True,
          field ''Last Offline'' offline True,
          field ''Board/PON/ONU'' (onu_place e) True]
         @ (if ev_SerialNumber e \<noteq> [] then [field ''Serial Number'' (ev_SerialNumber e) True] else [])
         @ (if ev_OnuType e \<noteq> [] then [field ''ONU Type'' (ev_OnuType e) True] else [])
         @ (if ev_RXPower e \<noteq> [] then [field ''RX Power'' (ev_RXPower e @ '' dBm'') True] else [])
         @ (if ev_Description e \<noteq> [] then [field ''Address'' (ev_Description e) False] else [])
         @ (if action \<noteq> [] then [field (warn_sign @ '' Action'') action False] else []))"

definition Discord_Format :: "fmt_env \<Rightarrow> 'w clock \<Rightarrow> TrapEvent \<Rightarrow> 'w \<Rightarrow> json \<times> 'w" where
  "Discord_Format env clock event w =
     (case now_if_zero clock (ev_Timestamp event) w of (ts, w) \<Rightarrow>
      case formatTimestampWIB env clock ts w of (offline, w) \<Rightarrow>
      case formatTimestampWIB env clock ts w of (footer, w) \<Rightarrow>
        (json_discordPayload
          [\<lparr>de_Title = eventTitle event, de_Description = [],
            de_Color = severityColorDiscord (eventSeverity (ev_EventType event)),
            de_Fields = Some (discord_fields env event offline), de_Footer = footer,
            de_Timestamp = rfc3339 False zone_UTC ts\<rparr>], w))"

text \<open>The lines of the events of a batch; \<open>sep\<close> stands between two events.\<close>

fun discord_desc :: "fmt_env \<Rightarrow> 'w clock \<Rightarrow> TrapEvent list \<Rightarrow> 'w \<Rightarrow> bytes \<times> 'w" where
  "discord_desc env clock [] w = ([], w)"
| "discord_desc env clock (e # es) w =
     (case formatLastOnline env clock e w of (online, w) \<Rightarrow>
      case discord_desc env clock es w of (rest, w) \<Rightarrow>
        (''**Full Name** : '' @ fieldOrDash (ev_Name e) @ nl
         @ ''**Address** : '' @ fieldOrDash (ev_Description e) @ nl
         @ ''**Event** : '' @ ev_EventType e @ nl
         @ ''**Board/PON/ONU** : '' @ onu_place e @ nl
         @ (if ev_RXPower e \<noteq> [] then ''**RX Power** : '' @ ev_RXPower e @ '' dBm'' @ nl else [])
         @ ''**Last Online** : '' @ online @ nl
         @ (if es \<noteq> [] then nl @ ''> '' @ [CHR 0xE2, CHR 0x80, CHR 0x8B] @ nl else [])
         @ rest, w))"

definition Discord_FormatBatch ::
    "fmt_env \<Rightarrow> 'w clock \<Rightarrow> Severity \<Rightarrow> TrapEvent list \<Rightarrow> 'w \<Rightarrow> json \<times> 'w" where
  "Discord_FormatBatch env clock sev events w =
     (case clock w of (ts, w) \<Rightarrow>
      case discord_desc env clock events w of (desc, w) \<Rightarrow>
      case formatTimestampWIB env clock ts w of (footer, w) \<Rightarrow>
        (let action = severityAction (fe_actions env) sev;
             desc = (if action \<noteq> [] then desc @ nl @ nl @ warn_sign @ '' **Action**'' @ nl @ action else desc)
         in (json_discordPayload
              [\<lparr>de_Title = batch_title sev events, de_Description = desc,
                de_Color = severityColorDiscord sev, de_Fields = None, de_Footer = footer,
                de_Timestamp = rfc3339 False zone_UTC ts\<rparr>], w)))"

subsection \<open>Slack\<close>

record slackText =
  st_Type :: bytes
  st_Text :: bytes

record slackBlock =
  sb_Type :: bytes
  sb_Text :: "slackText option"
  sb_Fields :: "slackText list"

definition json_slackText :: "slackText \<Rightarrow> json" where
  "json_slackText t = JObj [(''type'', JStr (st_Type t)), (''text'', JStr (st_Text t))]"

definition json_slackBlock :: "slackBlock \<Rightarrow> json" where
  "json_slackBlock b = JObj
     ([(''type'', JStr (sb_Type b))]
      @ (case sb_Text b of Some t \<Rightarrow> [(''text'', json_slackText t)] | None \<Rightarrow> [])
      @ (if sb_Fields b = [] then [] else [(''fields'', JArr (map json_slackText (sb_Fields b)))]))"

text \<open>Every payload has one attachment, of a colour and a list of blocks.\<close>

definition json_slackPayload :: "bytes \<Rightarrow> slackBlock list \<Rightarrow> json" where
  "json_slackPayload color blocks = JObj [(''attachments'', JArr
     [JObj [(''color'', JStr color), (''blocks'', JArr (map json_slackBlock blocks))]])]"

definition mrkdwn :: "bytes \<Rightarrow> slackText" where
  "mrkdwn t = \<lparr>st_Type = ''mrkdwn'', st_Text = t\<rparr>"

definition header_block :: "bytes \<Rightarrow> slackBlock" where
  "header_block t = \<lparr>sb_Type = ''header'', sb_Text = Some \<lparr>st_Type = ''plain_text'', st_Text = t\<rparr>, sb_Fields = []\<rparr>"

definition text_block :: "bytes \<Rightarrow> bytes \<Rightarrow> slackBlock" where
  "text_block ty t = \<lparr>sb_Type = ty, sb_Text = Some (mrkdwn t), sb_Fields = []\<rparr>"

definition slack_fields :: "TrapEvent \<Rightarrow> bytes \<Rightarrow> slackText list" where
  "slack_fields e offline =
     [mrkdwn (''*Name:*'' @ nl @ fieldOrDash (ev_Name e)),
      mrkdwn (''*Event:*'' @ nl @ fieldOrDash (ev_EventType e)),
      mrkdwn (''*Last Offline:*'' @ nl @ offline),
      mrkdwn (''*Board/PON/ONU:*'' @ nl @ onu_place e)]
     @ (if ev_SerialNumber e \<noteq> [] then [mrkdwn (''*Serial:*'' @ nl @ ev_SerialNumber e)] else [])
     @ (if ev_OnuType e \<noteq> [] then [mrkdwn (''*ONU Type:*'' @ nl @ ev_OnuType e)] else [])
     @ (if ev_RXPower e \<noteq> [] then [mrkdwn (''*RX Power:*'' @ nl @ ev_RXPower e @ '' dBm'')] else [])"

definition slack_action :: "fmt_env \<Rightarrow> Severity \<Rightarrow> slackBlock list" where
  "slack_action env sev =
     (let action = severityAction (fe_actions env) sev
      in if action \<noteq> [] then [text_block ''section'' (warn_sign @ '' *Action:* '' @ action)] else [])"

definition Slack_Format :: "fmt_env \<Rightarrow> 'w clock \<Rightarrow> TrapEvent \<Rightarrow> 'w \<Rightarrow> json \<times> 'w" where
  "Slack_Format env clock event w =
     (case now_if_zero clock (ev_Timestamp event) w of (ts, w) \<Rightarrow>
      case formatTimestampWIB env clock ts w of (offline, w) \<Rightarrow>
      case formatTimestampWIB env clock ts w of (footer, w) \<Rightarrow>
        (let sev = eventSeverity (ev_EventType event) in
         (json_slackPayload (severityColorHex sev)
           ([header_block (eventTitle event),
             \<lparr>sb_Type = ''section'', sb_Text = None, sb_Fields = slack_fields event offline\<rparr>]
            @ (if ev_Description event \<noteq> []
               then [text_block ''section'' (''*Address:* '' @ ev_Description event)] else [])
            @ slack_action env sev @ [text_block ''context'' footer]), w)))"

fun slack_body :: "fmt_env \<Rightarrow> 'w clock \<Rightarrow> TrapEvent list \<Rightarrow> 'w \<Rightarrow> bytes \<times> 'w" where
  "slack_body env clock [] w = ([], w)"
| "slack_body env clock (e # es) w =
     (case formatLastOnline env clock e w of (online, w) \<Rightarrow>
      case slack_body env clock es w of (rest, w) \<Rightarrow>
        (''*Full Name* : '' @ fieldOrDash (ev_Name e) @ nl
         @ ''*Address* : '' @ fieldOrDash (ev_Description e) @ nl
         @ ''*Event* : '' @ ev_EventType e @ nl
         @ ''*Board/PON/ONU* : '' @ onu_place e @ nl
         @ (if ev_RXPower e \<noteq> [] then ''*RX Power* : '' @ ev_RXPower e @ '' dBm'' @ nl else [])
         @ ''*Last Online* : '' @ online @ nl
         @ (if es \<noteq> [] then nl @ ''========================'' @ nl @ nl else [])
         @ rest, w))"

definition Slack_FormatBatch ::
    "fmt_env \<Rightarrow> 'w clock \<Rightarrow> Severity \<Rightarrow> TrapEvent list \<Rightarrow> 'w \<Rightarrow> json \<times> 'w" where
  "Slack_FormatBatch env clock sev events w =
     (case clock w of (ts, w) \<Rightarrow>
      case slack_body env clock events w of (body, w) \<Rightarrow>
      case formatTimestampWIB env clock ts w of (footer, w) \<Rightarrow>
        (json_slackPayload (severityColorHex sev)
          ([header_block (batch_title sev events), text_block ''section'' body]
           @ slack_action env sev @ [text_block ''context'' footer]), w))"

subsection \<open>Telegram\<close>

definition json_telegramPayload :: "bytes \<Rightarrow> bytes \<Rightarrow> json" where
  "json_telegramPayload chatID txt = JObj
     [(''chat_id'', JStr chatID), (''text'', JStr txt), (''parse_mode'', JStr ''HTML'')]"

definition Telegram_Format :: "fmt_env \<Rightarrow> bytes \<Rightarrow> 'w clock \<Rightarrow> TrapEvent \<Rightarrow> 'w \<Rightarrow> json \<times> 'w" where
  "Telegram_Format env chatID clock e w =
     (case now_if_zero clock (ev_Timestamp e) w of (ts, w) \<Rightarrow>
      case formatTimestampWIB env clock ts w of (offline, w) \<Rightarrow>
      case formatTimestampWIB env clock ts w of (footer, w) \<Rightarrow>
        (let action = severityAction (fe_actions env) (eventSeverity (ev_EventType e)) in
         (json_telegramPayload chatID
           (''<b>'' @ eventTitle e @ ''</b>'' @ nl @ nl
            @ ''<b>Name:</b> '' @ fieldOrDash (ev_Name e) @ nl
            @ ''<b>Event:</b> '' @ fieldOrDash (ev_EventType e) @ nl
            @ ''<b>Last Offline:</b> '' @ offline @ nl
            @ ''<b>Board/PON/ONU:</b> '' @ onu_place e @ nl
            @ (if ev_SerialNumber e \<noteq> [] then ''<b>Serial:</b> '' @ ev_SerialNumber e @ nl else [])
            @ (if ev_OnuType e \<noteq> [] then ''<b>ONU Type:</b> '' @ ev_OnuType e @ nl else [])
            @ (if ev_RXPower e \<noteq> [] then ''<b>RX Power:</b> '' @ ev_RXPower e @ '' dBm'' @ nl else [])
            @ (if ev_Description e \<noteq> [] then ''<b>Address:</b> '' @ ev_Description e @ nl else [])
            @ (if action \<noteq> [] then nl @ warn_sign @ '' <b>Action:</b> '' @ action @ nl else [])
            @ nl @ ''<code>'' @ footer @ ''</code>''), w)))"

fun telegram_body :: "fmt_env \<Rightarrow> 'w clock \<Rightarrow> TrapEvent list \<Rightarrow> 'w \<Rightarrow> bytes \<times> 'w" where
  "telegram_body env clock [] w = ([], w)"
| "telegram_body env clock (e # es) w =
     (case formatLastOnline env clock e w of (online, w) \<Rightarrow>
      case telegram_body env clock es w of (rest, w) \<Rightarrow>
        (''<b>Full Name</b> : '' @ fieldOrDash (ev_Name e) @ nl
         @ ''<b>Address</b> : '' @ fieldOrDash (ev_Description e) @ nl
         @ ''<b>Event</b> : '' @ ev_EventType e @ nl
         @ ''<b>Board/PON/ONU</b> : '' @ onu_place e @ nl
         @ (if ev_RXPower e \<noteq> [] then ''<b>RX Power</b> : '' @ ev_RXPower e @ '' dBm'' @ nl else [])
         @ ''<b>Last Online</b> : '' @ online @ nl
         @ (if es \<noteq> [] then nl @ ''========================'' @ nl @ nl else [])
         @ rest, w))"

definition Telegram_FormatBatch ::
    "fmt_env \<Rightarrow> bytes \<Rightarrow> 'w clock \<Rightarrow> Severity \<Rightarrow> TrapEvent list \<Rightarrow> 'w \<Rightarrow> json \<times> 'w" where
  "Telegram_FormatBatch env chatID clock sev events w =
     (case clock w of (ts, w) \<Rightarrow>
      case telegram_body env clock events w of (body, w) \<Rightarrow>
      case formatTimestampWIB env clock ts w of (footer, w) \<Rightarrow>
        (let action = severityAction (fe_actions env) sev in
         (json_telegramPayload chatID
           (''<b>'' @ batch_title sev events @ ''</b>'' @ nl @ nl @ body
            @ (if action \<noteq> [] then nl @ nl @ warn_sign @ '' <b>Action</b>'' @ nl @ action else [])
            @ nl @ nl @ ''<code>'' @ footer @ ''</code>''), w)))"

subsection \<open>The interface \<open>WebhookFormatter\<close>\<close>

definition Format :: "fmt_env \<Rightarrow> 'w clock \<Rightarrow> formatter \<Rightarrow> TrapEvent \<Rightarrow> 'w \<Rightarrow> (gerror + bytes) \<times> 'w" where
  "Format env clock f event w =
     (case f of
        Generic \<Rightarrow> (Generic_Format env event, w)
      | Discord \<Rightarrow> apfst (Inr \<circ> json_print) (Discord_Format env clock event w)
      | Slack \<Rightarrow> apfst (Inr \<circ> json_print) (Slack_Format env clock event w)
      | Telegram chatID \<Rightarrow> apfst (Inr \<circ> json_print) (Telegram_Format env chatID clock event w))"

definition FormatBatch ::
    "fmt_env \<Rightarrow> 'w clock \<Rightarrow> formatter \<Rightarrow> Severity \<Rightarrow> TrapEvent list \<Rightarrow> 'w \<Rightarrow> (gerror + bytes) \<times> 'w" where
  "FormatBatch env clock f sev events w =
     (case f of
        Generic \<Rightarrow> (Generic_FormatBatch env events, w)
      | Discord \<Rightarrow> apfst (Inr \<circ> json_print) (Discord_FormatBatch env clock sev events w)
      | Slack \<Rightarrow> apfst (Inr \<circ> json_print) (Slack_FormatBatch env clock sev events w)
      | Telegram chatID \<Rightarrow> apfst (Inr \<circ> json_print) (Telegram_FormatBatch env chatID clock sev events w))"

subsection \<open>The texts are UTF-8\<close>

named_theorems utf8 "texts that are well-formed UTF-8"

lemma in_range_Some: "in_range lo hi p = Some (n, r) \<longleftrightarrow> p = Some (n, r) \<and> lo \<le> n \<and> n \<le> hi"
  by (auto simp: in_range_def split: option.splits)

lemma get4_nonneg: "get4 s = Some (n, r) \<Longrightarrow> 0 \<le> n"
  by (cases s rule: get4.cases) (auto simp: digit_val_nonneg split: if_splits)

lemma parse_datetime_valid: "parse_datetime s = Some (t, ns) \<Longrightarrow> valid_datetime t"
   unfolding parse_datetime_def
  by (auto simp: bind_eq_Some_conv in_range_Some valid_datetime_def case_prod_beta dest: get4_nonneg split: if_splits)

lemma pads_utf8 [utf8]: "0 \<le> n \<Longrightarrow> valid_utf8 (pad2 n)" "0 \<le> n \<Longrightarrow> valid_utf8 (pad4 n)"
proof -
  assume n: "0 \<le> n"
  with valid_utf8_dec_str [OF n] show "valid_utf8 (pad2 n)" by (simp add: pad2_def)
  have "valid_utf8 (replicate k CHR ''0'')" for k by (induction k) (simp_all add:)
  with valid_utf8_dec_str [OF n] show "valid_utf8 (pad4 n)" by (simp add: pad4_def Let_def)
qed

lemma layouts_utf8 [utf8]:
  assumes "valid_datetime t"
  shows "valid_utf8 (format_time t)" "valid_utf8 (format_dmy t)" "valid_utf8 (format_ymd t)"
  using assms by (simp_all add: valid_datetime_def format_time_def format_dmy_def format_ymd_def utf8)

lemma severity_utf8 [utf8]: "valid_utf8 (severityEmoji s)" "valid_utf8 (severityLabel s)" "valid_utf8 (severityColorHex s)"
proof -
  have "valid_utf8 (severityEmoji SeverityCritical)" "valid_utf8 (severityEmoji SeverityHigh)"
    "valid_utf8 (severityEmoji SeverityMedium)" "valid_utf8 (severityEmoji SeverityLow)" 
    "valid_utf8 (severityEmoji SeverityUnknown)"
    by code_simp+
  then show "valid_utf8 (severityEmoji s)" by (cases s) simp_all
  show "valid_utf8 (severityLabel s)" "valid_utf8 (severityColorHex s)" by (cases s; simp)+
qed

lemma warn_sign_utf8 [utf8]: "valid_utf8 warn_sign"
  by code_simp

lemma nl_utf8 [utf8]: "valid_utf8 nl" "valid_utf8 (nl @ s) = valid_utf8 s"
  by (simp_all add: nl_def)

lemma onu_place_utf8 [utf8]: "valid_utf8 (onu_place e)"
  by (simp add: onu_place_def)

lemma fieldOrDash_utf8 [utf8]: "valid_utf8 s \<Longrightarrow> valid_utf8 (fieldOrDash s)"
  by (simp add: fieldOrDash_def)

lemma eventTitle_utf8 [utf8]: "valid_utf8 (ev_EventType e) \<Longrightarrow> valid_utf8 (eventTitle e)"
  by (simp add: eventTitle_def Let_def utf8)

end
