(* ===== verification/Webhook_Payload.thy ===== *)
theory Webhook_Payload
  imports Webhook_Format
begin

text \<open>
  The contract of the four formatters: what they write is valid JSON that tells of every ONU.
\<close>

text \<open>An instant that has a date from the year 0 on in the zones that are printed.\<close>

definition datable :: "fmt_env \<Rightarrow> instant \<Rightarrow> bool" where
  "datable env t \<longleftrightarrow> 0 \<le> dt_year (in_zone (wib_zone env) t) \<and> 0 \<le> dt_year (in_zone zone_UTC t)"

definition env_ok :: "fmt_env \<Rightarrow> 'w clock \<Rightarrow> bool" where
  "env_ok env clock \<longleftrightarrow>
     (\<forall>w. datable env (fst (clock w))) \<and> (\<forall>s. valid_utf8 (severityAction (fe_actions env) s))"

definition event_ok :: "fmt_env \<Rightarrow> TrapEvent \<Rightarrow> bool" where
  "event_ok env e \<longleftrightarrow> datable env (ev_Timestamp e) \<and> json_time (fe_local env) (ev_Timestamp e) \<noteq> None
     \<and> (\<forall>f \<in> {ev_Source, ev_EventType, ev_Status, ev_Name, ev_Description, ev_OnuType, ev_SerialNumber,
               ev_RXPower, ev_LastOffline, ev_LastOnline}. valid_utf8 (f e))"

lemma event_utf8:
  assumes "event_ok env e"
  shows "valid_utf8 (ev_Source e)" "valid_utf8 (ev_EventType e)" "valid_utf8 (ev_Status e)"
    "valid_utf8 (ev_Name e)" "valid_utf8 (ev_Description e)" "valid_utf8 (ev_OnuType e)"
    "valid_utf8 (ev_SerialNumber e)" "valid_utf8 (ev_RXPower e)" "valid_utf8 (ev_LastOffline e)"
    "valid_utf8 (ev_LastOnline e)"
  using assms by (simp_all add: event_ok_def)

lemma event_datable: "event_ok env e \<Longrightarrow> datable env (ev_Timestamp e)"
  by (simp add: event_ok_def)

lemma in_zone_valid: "0 \<le> dt_year (in_zone loc t) \<Longrightarrow> valid_datetime (in_zone loc t)"
  by (simp add: in_zone_def civil_valid)

lemma now_if_zero_ok: "\<lbrakk>env_ok env clock; datable env t\<rbrakk> \<Longrightarrow> datable env (fst (now_if_zero clock t w))"
  by (simp add: now_if_zero_def env_ok_def)

lemma WIB_utf8: "\<lbrakk>env_ok env clock; datable env t\<rbrakk> \<Longrightarrow> valid_utf8 (fst (formatTimestampWIB env clock t w))"
  using now_if_zero_ok [of env clock t w]
  by (simp add: formatTimestampWIB_def case_prod_beta Let_def utf8 in_zone_valid datable_def)

lemma rfc3339_UTC_utf8: "datable env t \<Longrightarrow> valid_utf8 (rfc3339 False zone_UTC t)"
  by (simp add: rfc3339_def Let_def utf8 in_zone_valid datable_def format_zone_def offset_at_def zone_UTC_def)

lemma last_online_utf8: "\<lbrakk>env_ok env clock; event_ok env e\<rbrakk> \<Longrightarrow> valid_utf8 (fst (formatLastOnline env clock e w))"
  using WIB_utf8 [of env clock "ev_Timestamp e" w] event_datable [of env e] event_utf8 [of env e]
  by (auto simp: formatLastOnline_def Let_def utf8 dest: parse_datetime_valid split: option.split)

lemma format_zone_utf8 [utf8]: "valid_utf8 (format_zone offset)"
proof -
  define h where "h = \<bar>offset\<bar> div 60 div 60"
  define m where "m = \<bar>offset\<bar> div 60 mod 60"
  have "0 \<le> h" "0 \<le> m" unfolding h_def m_def by simp_all
  then show ?thesis
    unfolding format_zone_def Let_def h_def [symmetric] m_def [symmetric] by (simp add: utf8)
qed

lemma drop_zeros: "set (rev (dropWhile P (rev s))) \<subseteq> set s"
  using set_dropWhileD [of _ P "rev s"] by auto

lemma format_nanos_utf8 [utf8]: "0 \<le> ns \<Longrightarrow> valid_utf8 (format_nanos ns)"
proof (cases "ns = 0")
  case False
  assume n: "0 \<le> ns"
  define d where "d = dec_str ns"
  have "\<forall>c \<in> set d. is_ascii c" using dec_str_digits [OF n] unfolding d_def by (blast intro: is_ascii_digit)
  then have "\<forall>c \<in> set (replicate (9 - length d) CHR ''0'' @ d). is_ascii c" by auto
  then have "valid_utf8 (rev (dropWhile (\<lambda>c. c = CHR ''0'') (rev (replicate (9 - length d) CHR ''0'' @ d))))"
    by (meson ascii_utf8 drop_zeros subsetD)
  moreover have "format_nanos ns = CHR ''.'' # rev (dropWhile (\<lambda>c. c = CHR ''0'') (rev (replicate (9 - length d) CHR ''0'' @ d)))"
    unfolding format_nanos_def Let_def d_def by (simp only: False if_False append_Cons append_Nil)
  ultimately show ?thesis by (simp only: valid_utf8_ascii is_ascii_Char simp_thms)
qed (simp add: format_nanos_def)

lemma json_time_ok: "json_time loc t = Some j \<Longrightarrow> wf_json j \<and> jdepth j = 0"
proof -
  assume j: "json_time loc t = Some j"
  define ns where "ns = t mod 1000000000"
  define off where "off = offset_at loc (t div 1000000000)"
  have "0 \<le> ns" unfolding ns_def by simp
  with j show ?thesis
    unfolding json_time_def rfc3339_def Let_def ns_def [symmetric] off_def [symmetric]
    by (auto simp: utf8 in_zone_valid split: if_splits)
qed

lemma json_TrapEvent_ok:
  assumes "event_ok env e"
  shows "\<exists>j. json_TrapEvent (fe_local env) e = Some j \<and> wf_json j \<and> jdepth j = 1"
proof -
  obtain t where "json_time (fe_local env) (ev_Timestamp e) = Some t" using assms by (auto simp: event_ok_def)
  with json_time_ok [OF this] event_utf8 [OF assms] show ?thesis
    by (auto simp: json_TrapEvent_def opt_str_def)
qed

subsection \<open>Every payload is valid JSON\<close>

definition fmt_ok :: "formatter \<Rightarrow> bool" where
  "fmt_ok f = (case f of Telegram chatID \<Rightarrow> valid_utf8 chatID | _ \<Rightarrow> True)"

lemma batch_title_utf8:
  "\<forall>e \<in> set events. event_ok env e \<Longrightarrow> valid_utf8 (batch_title sev events)"
  by (cases events) (simp_all add: batch_title_def batchCategory_def utf8 event_utf8 [of env])

lemma zero_width_utf8 [utf8]: "valid_utf8 (CHR 0xE2 # CHR 0x80 # CHR 0x8B # s) = valid_utf8 s"
proof -
  have "valid_utf8 [CHR 0xE2, CHR 0x80, CHR 0x8B]" by code_simp
  from valid_utf8_append [OF this, of s] show ?thesis by simp
qed

lemma bodies_utf8:
  assumes "env_ok env clock" "\<forall>e \<in> set es. event_ok env e"
  shows "valid_utf8 (fst (discord_desc env clock es w))" "valid_utf8 (fst (slack_body env clock es w))"
    "valid_utf8 (fst (telegram_body env clock es w))"
  using assms(2) by (induction es arbitrary: w)
    (simp_all add: case_prod_beta utf8 last_online_utf8 [OF assms(1)] event_utf8 [of env])

lemma action_utf8: "env_ok env clock \<Longrightarrow> valid_utf8 (severityAction (fe_actions env) s)"
  by (simp add: env_ok_def)

lemmas fields_json = json_discordPayload_def json_discordEmbed_def json_discordField_def opt_str_def
  json_slackPayload_def json_slackBlock_def json_slackText_def header_block_def text_block_def mrkdwn_def
  json_telegramPayload_def

lemma depth_map: "\<forall>x \<in> set xs. jdepth (f x) \<le> d \<Longrightarrow> 0 \<le> d \<Longrightarrow> elems_depth (map f xs) \<le> d"
  by (induction xs) auto

lemma batch_wf:
  assumes "env_ok env clock" "\<forall>e \<in> set es. event_ok env e"
  shows "wf_json (fst (Discord_FormatBatch env clock sev es w))"
    "wf_json (fst (Slack_FormatBatch env clock sev es w))"
    "valid_utf8 chatID \<Longrightarrow> wf_json (fst (Telegram_FormatBatch env chatID clock sev es w))"
proof -
  have d: "datable env (fst (clock w))" for w using assms(1) by (simp add: env_ok_def)
  note u = bodies_utf8 [OF assms] action_utf8 [OF assms(1)] batch_title_utf8 [OF assms(2)]
    WIB_utf8 [OF assms(1) d] rfc3339_UTC_utf8 [OF d]
  show "wf_json (fst (Discord_FormatBatch env clock sev es w))"
    by (simp add: Discord_FormatBatch_def case_prod_beta Let_def fields_json utf8 u)
  show "wf_json (fst (Slack_FormatBatch env clock sev es w))"
    by (simp add: Slack_FormatBatch_def slack_action_def case_prod_beta Let_def fields_json utf8 u)
  assume "valid_utf8 chatID"
  then show "wf_json (fst (Telegram_FormatBatch env chatID clock sev es w))"
    by (simp add: Telegram_FormatBatch_def case_prod_beta Let_def fields_json utf8 u)
qed

lemma batch_depth:
  "jdepth (fst (Discord_FormatBatch env clock sev es w)) = 4"
  "jdepth (fst (Slack_FormatBatch env clock sev es w)) = 6"
  "jdepth (fst (Telegram_FormatBatch env chatID clock sev es w)) = 1"
  by (simp_all add: Discord_FormatBatch_def Slack_FormatBatch_def Telegram_FormatBatch_def slack_action_def
      case_prod_beta Let_def fields_json)

lemma list_all_if: "list_all P (if c then [a] else []) \<longleftrightarrow> (c \<longrightarrow> P a)"
  by simp

lemma fields_wf:
  assumes "env_ok env clock" "event_ok env e" "valid_utf8 offline"
  shows "\<forall>f \<in> set (discord_fields env e offline). wf_json (json_discordField f)"
    "\<forall>t \<in> set (slack_fields e offline). wf_json (json_slackText t)"
  unfolding Ball_set_list_all discord_fields_def slack_fields_def Let_def
  by (simp_all add: list_all_if fields_json utf8 event_utf8 [OF assms(2)] action_utf8 [OF assms(1)] assms(3))

lemma event_wf:
  assumes "env_ok env clock" "event_ok env e"
  shows "wf_json (fst (Discord_Format env clock e w))" "wf_json (fst (Slack_Format env clock e w))"
    "valid_utf8 chatID \<Longrightarrow> wf_json (fst (Telegram_Format env chatID clock e w))"
proof -
  have d: "datable env (fst (now_if_zero clock (ev_Timestamp e) w))" for w
    by (rule now_if_zero_ok [OF assms(1) event_datable [OF assms(2)]])
  note u = action_utf8 [OF assms(1)] WIB_utf8 [OF assms(1) d] rfc3339_UTC_utf8 [OF d]
    event_utf8 [OF assms(2)]
  note f = fields_wf [OF assms WIB_utf8 [OF assms(1) d]]
  show "wf_json (fst (Discord_Format env clock e w))"
    by (simp add: Discord_Format_def json_discordPayload_def json_discordEmbed_def opt_str_def case_prod_beta utf8 u f)
  show "wf_json (fst (Slack_Format env clock e w))"
    using f(2) by (cases "ev_Description e = []"; cases "severityAction (fe_actions env) (eventSeverity (ev_EventType e)) = []";
        simp add: Slack_Format_def slack_action_def json_slackPayload_def json_slackBlock_def header_block_def
        text_block_def mrkdwn_def json_slackText_def case_prod_beta Let_def utf8 u)
  assume "valid_utf8 chatID"
  then show "wf_json (fst (Telegram_Format env chatID clock e w))"
    by (simp add: Telegram_Format_def case_prod_beta Let_def fields_json utf8 u)
qed

lemma event_depth:
  "jdepth (fst (Discord_Format env clock e w)) = 5" "jdepth (fst (Slack_Format env clock e w)) = 7"
  "jdepth (fst (Telegram_Format env chatID clock e w)) = 1"
  by (simp_all add: Discord_Format_def discord_fields_def Slack_Format_def slack_fields_def slack_action_def
      Telegram_Format_def case_prod_beta Let_def fields_json)

subsection \<open>A batch names every ONU\<close>

fun strings_of :: "json \<Rightarrow> bytes list" where
  "strings_of (JStr s) = [s]"
| "strings_of (JArr js) = concat (map strings_of js)"
| "strings_of (JObj ms) = concat (map (\<lambda>m. strings_of (snd m)) ms)"
| "strings_of _ = []"

text \<open>The payload is the list of the events, or has a text with a line for the place and one for the name.\<close>

definition told :: "tzloc \<Rightarrow> formatter \<Rightarrow> json \<Rightarrow> TrapEvent \<Rightarrow> bool" where
  "told loc f j e =
     (case f of
        Generic \<Rightarrow> (case j of JArr js \<Rightarrow> json_TrapEvent loc e \<in> Some ` set js | _ \<Rightarrow> False)
      | _ \<Rightarrow> (\<exists>s \<in> set (strings_of j). contains s ('' : '' @ onu_place e @ nl)
              \<and> contains s ('' : '' @ fieldOrDash (ev_Name e) @ nl)))"

lemma contains_head:
  "contains (CHR '' '' # CHR '':'' # CHR '' '' # x @ nl @ t) (CHR '' '' # CHR '':'' # CHR '' '' # x @ nl)"
proof -
  have "CHR '' '' # CHR '':'' # CHR '' '' # x @ nl @ t = [] @ (CHR '' '' # CHR '':'' # CHR '' '' # x @ nl) @ t" by simp
  then show ?thesis unfolding contains_iff by blast
qed

lemma contains_Cons: "contains t x \<Longrightarrow> contains (c # t) x"
  unfolding contains_iff by (metis append_Cons)

lemma contains_append: "contains t x \<Longrightarrow> contains (s @ t) x"
  by (induction s) (simp_all add: contains_Cons)

lemma contains_append_left: "contains s x \<Longrightarrow> contains (s @ t) x"
  unfolding contains_iff by (metis append_assoc)

lemma tell_induct:
  fixes b :: "TrapEvent list \<Rightarrow> 'w \<Rightarrow> bytes \<times> 'w"
  assumes "e \<in> set es"
    and here: "\<And>es w. contains (fst (b (e # es) w)) x"
    and rest: "\<And>a es w. \<exists>w'. contains (fst (b es w')) x \<longrightarrow> contains (fst (b (a # es) w)) x"
  shows "contains (fst (b es w)) x"
  using assms(1)
proof (induction es arbitrary: w)
  case (Cons a es)
  then show ?case using here rest [of es a w] by auto
qed simp

lemmas tell_simps = case_prod_beta fst_conv append_Cons append_Nil append_assoc

lemma bodies_tell:
  assumes e: "e \<in> set es" and x: "x = onu_place e \<or> x = fieldOrDash (ev_Name e)"
  shows "contains (fst (discord_desc env clock es w)) ('' : '' @ x @ nl)"
    "contains (fst (slack_body env clock es w)) ('' : '' @ x @ nl)"
    "contains (fst (telegram_body env clock es w)) ('' : '' @ x @ nl)"
proof -
  show "contains (fst (discord_desc env clock es w)) ('' : '' @ x @ nl)"
  proof (rule tell_induct [OF e])
    fix a es w
    show "contains (fst (discord_desc env clock (e # es) w)) ('' : '' @ x @ nl)"
      by (rule disjE [OF x]; hypsubst; simp only: discord_desc.simps tell_simps;
          (rule contains_head | rule contains_Cons | rule contains_append)+)
    show "\<exists>w'. contains (fst (discord_desc env clock es w')) ('' : '' @ x @ nl)
        \<longrightarrow> contains (fst (discord_desc env clock (a # es) w)) ('' : '' @ x @ nl)"
      unfolding discord_desc.simps case_prod_beta fst_conv
      by (rule exI, rule impI, (assumption | rule contains_append)+)
  qed
  show "contains (fst (slack_body env clock es w)) ('' : '' @ x @ nl)"
  proof (rule tell_induct [OF e])
    fix a es w
    show "contains (fst (slack_body env clock (e # es) w)) ('' : '' @ x @ nl)"
      by (rule disjE [OF x]; hypsubst; simp only: slack_body.simps tell_simps;
          (rule contains_head | rule contains_Cons | rule contains_append)+)
    show "\<exists>w'. contains (fst (slack_body env clock es w')) ('' : '' @ x @ nl)
        \<longrightarrow> contains (fst (slack_body env clock (a # es) w)) ('' : '' @ x @ nl)"
      unfolding slack_body.simps case_prod_beta fst_conv
      by (rule exI, rule impI, (assumption | rule contains_append)+)
  qed
  show "contains (fst (telegram_body env clock es w)) ('' : '' @ x @ nl)"
  proof (rule tell_induct [OF e])
    fix a es w
    show "contains (fst (telegram_body env clock (e # es) w)) ('' : '' @ x @ nl)"
      by (rule disjE [OF x]; hypsubst; simp only: telegram_body.simps tell_simps;
          (rule contains_head | rule contains_Cons | rule contains_append)+)
    show "\<exists>w'. contains (fst (telegram_body env clock es w')) ('' : '' @ x @ nl)
        \<longrightarrow> contains (fst (telegram_body env clock (a # es) w)) ('' : '' @ x @ nl)"
      unfolding telegram_body.simps case_prod_beta fst_conv
      by (rule exI, rule impI, (assumption | rule contains_append)+)
  qed
qed
lemma printed_ok:
  assumes "wf_json (fst p)" "jdepth (fst p) \<le> 8" "P (fst p)"
  shows "\<exists>j w'. apfst (Inr \<circ> json_print) p = (Inr (json_print j), w') \<and> wf_json j \<and> jdepth j \<le> MaxNestingDepth \<and> P j"
  using assms by (cases p) (auto simp: MaxNestingDepth_def)

lemma Format_ok:
  assumes "env_ok env clock" "fmt_ok f" "event_ok env e"
  shows "\<exists>j w'. Format env clock f e w = (Inr (json_print j), w') \<and> wf_json j \<and> jdepth j \<le> MaxNestingDepth \<and> True"
proof (cases f)
  case Generic
  then show ?thesis
    using json_TrapEvent_ok [OF assms(3)] by (auto simp: Format_def Generic_Format_def marshal_def MaxNestingDepth_def)
next
  case Discord
  show ?thesis unfolding Discord Format_def formatter.case
    by (rule printed_ok [where P = "\<lambda>_. True"]) (use assms(2) event_wf [OF assms(1,3)] in \<open>simp_all add: event_depth fmt_ok_def Discord\<close>)
next
  case Slack
  show ?thesis unfolding Slack Format_def formatter.case
    by (rule printed_ok [where P = "\<lambda>_. True"]) (use assms(2) event_wf [OF assms(1,3)] in \<open>simp_all add: event_depth fmt_ok_def Slack\<close>)
next
  case (Telegram chatID)
  show ?thesis unfolding Telegram Format_def formatter.case
    by (rule printed_ok [where P = "\<lambda>_. True"]) (use assms(2) event_wf [OF assms(1,3)] in \<open>simp_all add: event_depth fmt_ok_def Telegram\<close>)
qed

lemma those_all_ok:
  "\<forall>e \<in> set es. event_ok env e \<Longrightarrow> \<exists>js. those_all (json_TrapEvent (fe_local env)) es = Some js
     \<and> (\<forall>j \<in> set js. wf_json j) \<and> elems_depth js \<le> 1 \<and> (\<forall>e \<in> set es. json_TrapEvent (fe_local env) e \<in> Some ` set js)"
proof (induction es)
  case (Cons e es)
  then obtain js where "those_all (json_TrapEvent (fe_local env)) es = Some js" "\<forall>j \<in> set js. wf_json j"
    "elems_depth js \<le> 1" "\<forall>e \<in> set es. json_TrapEvent (fe_local env) e \<in> Some ` set js" by auto
  moreover obtain j where "json_TrapEvent (fe_local env) e = Some j" "wf_json j" "jdepth j = 1"
    using json_TrapEvent_ok [of env e] Cons.prems by auto
  ultimately show ?case by auto
qed simp

lemma batch_told:
  assumes e: "e \<in> set es"
  shows "told loc Discord (fst (Discord_FormatBatch env clock sev es w)) e"
    "told loc Slack (fst (Slack_FormatBatch env clock sev es w)) e"
    "told loc (Telegram chatID) (fst (Telegram_FormatBatch env chatID clock sev es w)) e"
proof -
  note t = bodies_tell [OF e disjI1 [OF refl]] bodies_tell [OF e disjI2 [OF refl]]
  note n = t [unfolded append_Cons append_Nil]
  have "fst (discord_desc env clock es w') \<noteq> []" for w'
    using t(1) [of env clock w'] by auto
  then show "told loc Discord (fst (Discord_FormatBatch env clock sev es w)) e"
    by (simp add: told_def Discord_FormatBatch_def case_prod_beta Let_def fields_json n contains_append_left)
  show "told loc Slack (fst (Slack_FormatBatch env clock sev es w)) e"
    by (simp add: n told_def Slack_FormatBatch_def case_prod_beta Let_def fields_json)
  show "told loc (Telegram chatID) (fst (Telegram_FormatBatch env chatID clock sev es w)) e"
    by (simp add: n told_def Telegram_FormatBatch_def case_prod_beta Let_def fields_json
        contains_Cons contains_append contains_append_left)
qed

lemma FormatBatch_ok:
  assumes "env_ok env clock" "fmt_ok f" "\<forall>e \<in> set es. event_ok env e"
  shows "\<exists>j w'. FormatBatch env clock f sev es w = (Inr (json_print j), w') \<and> wf_json j \<and> jdepth j \<le> MaxNestingDepth
    \<and> (\<forall>e \<in> set es. told (fe_local env) f j e)"
proof (cases f)
  case Generic
  obtain js where "those_all (json_TrapEvent (fe_local env)) es = Some js" "\<forall>j \<in> set js. wf_json j"
    "elems_depth js \<le> 1" "\<forall>e \<in> set es. json_TrapEvent (fe_local env) e \<in> Some ` set js"
    using those_all_ok [OF assms(3)] by blast
  with Generic show ?thesis
    by (simp add: FormatBatch_def Generic_FormatBatch_def marshal_def MaxNestingDepth_def told_def
        del: ex_simps) (rule exI [of _ "JArr js"], simp)
next
  case Discord
  show ?thesis unfolding Discord FormatBatch_def formatter.case
    by (rule printed_ok) (use assms(2) batch_wf [OF assms(1,3)] in \<open>simp_all add: batch_depth batch_told fmt_ok_def Discord\<close>)
next
  case Slack
  show ?thesis unfolding Slack FormatBatch_def formatter.case
    by (rule printed_ok) (use assms(2) batch_wf [OF assms(1,3)] in \<open>simp_all add: batch_depth batch_told fmt_ok_def Slack\<close>)
next
  case (Telegram chatID)
  show ?thesis unfolding Telegram FormatBatch_def formatter.case
    by (rule printed_ok) (use assms(2) batch_wf [OF assms(1,3)] in \<open>simp_all add: batch_depth batch_told fmt_ok_def Telegram\<close>)
qed

subsection \<open>The contract of a formatter\<close>

text \<open>What the webhook client and the batcher rely on.\<close>

locale webhook_formatter =
  fixes fmt :: "TrapEvent \<Rightarrow> 'w \<Rightarrow> (gerror + bytes) \<times> 'w"
    and fmt_batch :: "Severity \<Rightarrow> TrapEvent list \<Rightarrow> 'w \<Rightarrow> (gerror + bytes) \<times> 'w"
    and accepts :: "TrapEvent \<Rightarrow> bool"
    and tells :: "json \<Rightarrow> TrapEvent \<Rightarrow> bool"
  assumes fmt_json: "accepts e \<Longrightarrow> \<exists>j w'. fmt e w = (Inr (json_print j), w') \<and> wf_json j \<and> jdepth j \<le> MaxNestingDepth"
    and batch_json: "\<lbrakk>es \<noteq> []; \<forall>e \<in> set es. accepts e\<rbrakk> \<Longrightarrow> \<exists>j w'. fmt_batch sev es w = (Inr (json_print j), w')
      \<and> wf_json j \<and> jdepth j \<le> MaxNestingDepth \<and> (\<forall>e \<in> set es. tells j e)"
begin

lemma payload_valid: "accepts e \<Longrightarrow> \<exists>p w' j. fmt e w = (Inr p, w') \<and> json_parse p = Some j"
  using fmt_json [of e w] json_parse_print by blast

lemma batch_tells:
  "\<lbrakk>es \<noteq> []; \<forall>e \<in> set es. accepts e\<rbrakk>
   \<Longrightarrow> \<exists>p w' j. fmt_batch sev es w = (Inr p, w') \<and> json_parse p = Some j \<and> (\<forall>e \<in> set es. tells j e)"
  using batch_json [of es sev w] json_parse_print by blast

end

interpretation wf: webhook_formatter "Format env clock f" "FormatBatch env clock f"
    "\<lambda>e. env_ok env clock \<and> fmt_ok f \<and> event_ok env e" "told (fe_local env) f" for env clock f
proof
  fix e w
  assume "env_ok env clock \<and> fmt_ok f \<and> event_ok env e"
  then show "\<exists>j w'. Format env clock f e w = (Inr (json_print j), w') \<and> wf_json j \<and> jdepth j \<le> MaxNestingDepth"
    using Format_ok [of env clock f e w] by blast
next
  fix es :: "TrapEvent list" and sev w
  assume "es \<noteq> []" "\<forall>e \<in> set es. env_ok env clock \<and> fmt_ok f \<and> event_ok env e"
  then have "env_ok env clock" "fmt_ok f" "\<forall>e \<in> set es. event_ok env e" by (auto simp: neq_Nil_conv)
  then show "\<exists>j w'. FormatBatch env clock f sev es w = (Inr (json_print j), w') \<and> wf_json j
      \<and> jdepth j \<le> MaxNestingDepth \<and> (\<forall>e \<in> set es. told (fe_local env) f j e)"
    by (rule FormatBatch_ok)
qed

subsection \<open>Properties\<close>

text \<open>
  C19. On every platform a batch of events with UTF-8 texts is formatted without an
  error to a payload that is valid JSON and tells of every ONU of the batch: the generic payload
  has its event as an element, the chat payloads have one text with a line for its place and one
  for its name.
\<close>

theorem batch_payload_tells:
  assumes "env_ok env clock" "fmt_ok f" "events \<noteq> []" "\<forall>e \<in> set events. event_ok env e"
  shows "\<exists>payload w' j. FormatBatch env clock f sev events w = (Inr payload, w')
    \<and> json_parse payload = Some j \<and> (\<forall>e \<in> set events. told (fe_local env) f j e)"
  using assms by (intro wf.batch_tells) simp_all

definition jakarta_env :: fmt_env where
  "jakarta_env = \<lparr>fe_actions = actionMessages, fe_local = zone_UTC, fe_jakarta = None\<rparr>"

definition sample_event :: TrapEvent where
  "sample_event = zero_event\<lparr>ev_Board := 1, ev_PON := 2, ev_OnuID := 3, ev_EventType := ''LOS'', ev_Name := ''Budi''\<rparr>"

lemma jakarta_ok: "env_ok jakarta_env (\<lambda>w. (0, w))"
proof -
  have "datable jakarta_env 0" by code_simp
  moreover have "valid_utf8 (severityAction actionMessages s)" for s
    by (cases s) (simp_all add: severityAction_def actionMessages_def)
  ultimately show ?thesis by (simp add: env_ok_def jakarta_env_def)
qed

lemma sample_ok: "event_ok jakarta_env sample_event"
proof -
  have "datable jakarta_env (ev_Timestamp sample_event)" by code_simp
  moreover have "json_time (fe_local jakarta_env) (ev_Timestamp sample_event) \<noteq> None"
    by code_simp
  ultimately show ?thesis by (simp add: event_ok_def sample_event_def zero_event_def)
qed

theorem batch_payload_tells_witness:
  "\<exists>payload w' j. FormatBatch jakarta_env (\<lambda>w. (0, w)) (Telegram ''-100'') SeverityCritical [sample_event] ()
     = (Inr payload, w') \<and> json_parse payload = Some j \<and> told zone_UTC (Telegram ''-100'') j sample_event"
  using batch_payload_tells [OF jakarta_ok, of "Telegram ''-100''" "[sample_event]" SeverityCritical "()"] sample_ok
  by (simp add: fmt_ok_def) (simp add: jakarta_env_def)

end
