(* ===== verification/Trap_Batcher.thy ===== *)
theory Trap_Batcher
  imports Trap_Severity Go_Float
begin

text \<open>
  \<open>internal/trap/batcher.go\<close>: the queues of trap events, one per severity, that are
  flushed periodically.

  A flush does not hold the lock while it asks the device, so it is given twice: as a function
  that runs to its end, and cut at its lock operations into the steps of a state machine in which
  the flushes of all severities, \<open>Add\<close> and \<open>Remove\<close> interleave. The inner map of a
  severity is created once and never replaced, so the alias \<open>entries\<close> of a flush is the
  queue itself. The zero time of \<open>lastNotified\<close> is \<open>None\<close>.
\<close>

record batcherEntry =
  be_event :: TrapEvent
  be_lastNotified :: "instant option"

type_synonym queue = "(bytes, batcherEntry) gomap"
type_synonym queues = "(Severity, queue) gomap"

text \<open>The interface \<open>ONUDetailFetcher\<close>, and the parts of a batcher that do not change.\<close>

record 'w detail_fetcher =
  ft_invalidate :: "int \<Rightarrow> int \<Rightarrow> int \<Rightarrow> 'w \<Rightarrow> 'w"
  ft_detail :: "int \<Rightarrow> int \<Rightarrow> int \<Rightarrow> 'w \<Rightarrow> (gerror + ONUCustomerInfo) \<times> 'w"

record 'w batcher_cfg =
  bc_fetcher :: "'w detail_fetcher option"
  bc_repeat :: "(Severity, int) gomap"
  bc_high :: f64
  bc_low :: f64

definition onuKey :: "TrapEvent \<Rightarrow> bytes" where
  "onuKey event = itoa (ev_Board event) @ ''-'' @ itoa (ev_PON event) @ ''-'' @ itoa (ev_OnuID event)"

subsection \<open>Add and Remove\<close>

definition queue_of :: "queues \<Rightarrow> Severity \<Rightarrow> queue" where
  "queue_of gs sev = (case gm_get gs sev of Some m \<Rightarrow> m | None \<Rightarrow> [])"

definition del_other :: "Severity \<Rightarrow> bytes \<Rightarrow> queues \<Rightarrow> queues" where
  "del_other sev key gs = map (\<lambda>(s, m). (s, if s \<noteq> sev then gm_del key m else m)) gs"

definition Batcher_Add :: "TrapEvent \<Rightarrow> queues \<Rightarrow> queues" where
  "Batcher_Add event gs =
     (let sev = eventSeverity (ev_EventType event);
          key = onuKey event;
          gs = del_other sev key gs;
          m = queue_of gs sev;
          entry = (case gm_get m key of
                     Some existing \<Rightarrow> existing\<lparr>be_event := event\<rparr>
                   | None \<Rightarrow> \<lparr>be_event = event, be_lastNotified = None\<rparr>)
      in gm_set sev (gm_set key entry m) gs)"

definition Batcher_Remove :: "TrapEvent \<Rightarrow> queues \<Rightarrow> queues" where
  "Batcher_Remove event gs = map (\<lambda>(s, m). (s, gm_del (onuKey event) m)) gs"

subsection \<open>Flushing\<close>

text \<open>What a flush does with one entry.\<close>

datatype action = Skip | Drop | Notify TrapEvent

definition enrich :: "ONUCustomerInfo \<Rightarrow> TrapEvent \<Rightarrow> TrapEvent" where
  "enrich detail e =
     (let e = e\<lparr>ev_RXPower := cu_RXPower detail, ev_LastOffline := cu_LastOffline detail,
                ev_LastOnline := cu_LastOnline detail\<rparr>;
          e = (if cu_Name detail \<noteq> [] then e\<lparr>ev_Name := cu_Name detail\<rparr> else e);
          e = (if cu_Description detail \<noteq> [] then e\<lparr>ev_Description := cu_Description detail\<rparr> else e)
      in e\<lparr>ev_SerialNumber := cu_SerialNumber detail\<rparr>)"

definition f64_le :: "f64 \<Rightarrow> f64 \<Rightarrow> bool" where
  "f64_le x y \<longleftrightarrow> f64_less x y \<or> x = y \<and> x \<noteq> NaN"

definition verify_power :: "f64 \<Rightarrow> f64 \<Rightarrow> ONUCustomerInfo \<Rightarrow> TrapEvent \<Rightarrow> action" where
  "verify_power lo hi detail e =
     (case parse_float (cu_RXPower detail) of
        None \<Rightarrow> Drop
      | Some rxPower \<Rightarrow>
          if f64_le lo rxPower \<and> f64_le rxPower hi then Drop
          else Notify (enrich detail
                 (e\<lparr>ev_EventType := (if f64_less hi rxPower then ''HighRxPower'' else ''LowRxPower''),
                    ev_Status := cu_Status detail\<rparr>)))"

definition verify_status :: "Severity \<Rightarrow> ONUCustomerInfo \<Rightarrow> TrapEvent \<Rightarrow> action" where
  "verify_status sev detail e =
     (let eventType = resolveEventType (cu_Status detail) (cu_LastOfflineReason detail) in
      if eventType \<notin> set alertEventTypes then Drop
      else if eventSeverity eventType \<noteq> sev then Drop
      else Notify (enrich detail (e\<lparr>ev_EventType := eventType, ev_Status := cu_Status detail\<rparr>)))"

definition verify_detail :: "'w batcher_cfg \<Rightarrow> Severity \<Rightarrow> gerror + ONUCustomerInfo \<Rightarrow> TrapEvent \<Rightarrow> action" where
  "verify_detail cfg sev res e =
     (case res of
        Inl _ \<Rightarrow> Drop
      | Inr detail \<Rightarrow>
          if cu_ID detail = 0 then Drop
          else if sev = SeverityMedium then verify_power (bc_low cfg) (bc_high cfg) detail e
          else verify_status sev detail e)"

definition repeat_interval :: "'w batcher_cfg \<Rightarrow> Severity \<Rightarrow> int" where
  "repeat_interval cfg sev = (case gm_get (bc_repeat cfg) sev of Some d \<Rightarrow> d | None \<Rightarrow> 0)"

text \<open>An entry that was notified waits for its repeat interval, or for ever without one.\<close>

definition waits ::
    "'w batcher_cfg \<Rightarrow> ('w \<Rightarrow> instant \<times> 'w) \<Rightarrow> Severity \<Rightarrow> batcherEntry \<Rightarrow> 'w \<Rightarrow> bool \<times> 'w" where
  "waits cfg clock sev entry w =
     (case be_lastNotified entry of
        None \<Rightarrow> (False, w)
      | Some t \<Rightarrow>
          if repeat_interval cfg sev \<le> 0 then (True, w)
          else (case clock w of (now, w) \<Rightarrow> (time_sub now t < repeat_interval cfg sev, w)))"

definition flush_entry ::
    "'w batcher_cfg \<Rightarrow> ('w \<Rightarrow> instant \<times> 'w) \<Rightarrow> Severity \<Rightarrow> batcherEntry \<Rightarrow> 'w \<Rightarrow> action \<times> 'w" where
  "flush_entry cfg clock sev entry w =
     (let e = be_event entry in
      case waits cfg clock sev entry w of
        (True, w) \<Rightarrow> (Skip, w)
      | (False, w) \<Rightarrow>
          (case bc_fetcher cfg of
             None \<Rightarrow> (Notify e, w)
           | Some f \<Rightarrow>
               (case ft_detail f (ev_Board e) (ev_PON e) (ev_OnuID e)
                       (ft_invalidate f (ev_Board e) (ev_PON e) (ev_OnuID e) w) of
                  (res, w) \<Rightarrow> (verify_detail cfg sev res e, w))))"

text \<open>The results of the loop: the keys to remove, and the notified events with their keys.\<close>

definition note_action :: "bytes \<Rightarrow> action \<Rightarrow> bytes list \<times> (bytes \<times> TrapEvent) list \<Rightarrow> bytes list \<times> (bytes \<times> TrapEvent) list" where
  "note_action key a acc =
     (case a of Skip \<Rightarrow> acc
      | Drop \<Rightarrow> (fst acc @ [key], snd acc)
      | Notify e \<Rightarrow> (fst acc, snd acc @ [(key, e)]))"

fun flush_keys ::
    "'w batcher_cfg \<Rightarrow> ('w \<Rightarrow> instant \<times> 'w) \<Rightarrow> Severity \<Rightarrow> queue \<Rightarrow> bytes list
     \<Rightarrow> bytes list \<times> (bytes \<times> TrapEvent) list \<Rightarrow> 'w \<Rightarrow> (bytes list \<times> (bytes \<times> TrapEvent) list) \<times> 'w" where
  "flush_keys cfg clock sev entries [] acc w = (acc, w)"
| "flush_keys cfg clock sev entries (key # keys) acc w =
     (case gm_get entries key of
        None \<Rightarrow> flush_keys cfg clock sev entries keys acc w
      | Some entry \<Rightarrow>
          (case flush_entry cfg clock sev entry w of
             (a, w) \<Rightarrow> flush_keys cfg clock sev entries keys (note_action key a acc) w))"

definition remove_keys :: "bytes list \<Rightarrow> queue \<Rightarrow> queue" where
  "remove_keys keys m = fold gm_del keys m"

text \<open>
  The entry of a notified key gets the time, and the first event of the batch with that key,
  or the first event of the batch if there is none.
\<close>

definition mark_entry :: "instant \<Rightarrow> TrapEvent list \<Rightarrow> bytes \<Rightarrow> queue \<Rightarrow> queue" where
  "mark_entry now batch key m =
     (case gm_get m key of
        None \<Rightarrow> m
      | Some entry \<Rightarrow>
          gm_set key \<lparr>be_event = (case find (\<lambda>ev. onuKey ev = key) batch of Some ev \<Rightarrow> ev | None \<Rightarrow> hd batch),
                      be_lastNotified = Some now\<rparr> m)"

definition mark_notified :: "'w batcher_cfg \<Rightarrow> Severity \<Rightarrow> instant \<Rightarrow> (bytes \<times> TrapEvent) list \<Rightarrow> queue \<Rightarrow> queue" where
  "mark_notified cfg sev now notified m =
     (let m = fold (mark_entry now (map snd notified)) (map fst notified) m
      in if repeat_interval cfg sev \<le> 0 then remove_keys (map fst notified) m else m)"

definition on_queue :: "Severity \<Rightarrow> (queue \<Rightarrow> queue) \<Rightarrow> queues \<Rightarrow> queues" where
  "on_queue sev f gs = map (\<lambda>(s, m). (s, if s = sev then f m else m)) gs"

text \<open>A whole flush: the new queues, and the batch that is handed to the webhook, if any.\<close>

definition flushSeverity ::
    "'w batcher_cfg \<Rightarrow> ('w \<Rightarrow> instant \<times> 'w) \<Rightarrow> (bytes, batcherEntry) range_ord \<Rightarrow> Severity \<Rightarrow> queues \<Rightarrow> 'w
     \<Rightarrow> (queues \<times> TrapEvent list) \<times> 'w" where
  "flushSeverity cfg clock ord sev gs w =
     (if queue_of gs sev = [] then ((gs, []), w)
      else
        (case flush_keys cfg clock sev (queue_of gs sev) (map fst (ord (queue_of gs sev))) ([], []) w of
           ((toRemove, notified), w) \<Rightarrow>
             (let gs = on_queue sev (remove_keys toRemove) gs in
              if notified = [] then ((gs, []), w)
              else (case clock w of
                      (now, w) \<Rightarrow> ((on_queue sev (mark_notified cfg sev now notified) gs, map snd notified), w)))))"

subsection \<open>The steps between the lock operations\<close>

datatype flush_pc =
    FIdle
  | FLoop "bytes list" "bytes list" "(bytes \<times> TrapEvent) list"
  | FMark "(bytes \<times> TrapEvent) list"

record batcher =
  b_queues :: queues
  b_flush :: "Severity \<Rightarrow> flush_pc"
  b_sent :: "(Severity \<times> TrapEvent list) list"

text \<open>
  In \<open>b_visit\<close> the entry is read under the lock and the device is asked after it; the
  answer is any the device may give at that time.
\<close>

inductive batcher_step ::
    "'w batcher_cfg \<Rightarrow> ('w \<Rightarrow> instant \<times> 'w) \<Rightarrow> batcher \<Rightarrow> batcher \<Rightarrow> bool" for cfg clock where
  b_add: "batcher_step cfg clock s (s\<lparr>b_queues := Batcher_Add event (b_queues s)\<rparr>)"
| b_remove: "batcher_step cfg clock s (s\<lparr>b_queues := Batcher_Remove event (b_queues s)\<rparr>)"
| b_collect: "\<lbrakk>b_flush s sev = FIdle; queue_of (b_queues s) sev \<noteq> []; mset keys = mset (map fst (queue_of (b_queues s) sev))\<rbrakk>
     \<Longrightarrow> batcher_step cfg clock s (s\<lparr>b_flush := (b_flush s)(sev := FLoop keys [] [])\<rparr>)"
| b_gone: "\<lbrakk>b_flush s sev = FLoop (key # keys) rm nt; gm_get (queue_of (b_queues s) sev) key = None\<rbrakk>
     \<Longrightarrow> batcher_step cfg clock s (s\<lparr>b_flush := (b_flush s)(sev := FLoop keys rm nt)\<rparr>)"
| b_visit: "\<lbrakk>b_flush s sev = FLoop (key # keys) rm nt; gm_get (queue_of (b_queues s) sev) key = Some entry;
      flush_entry cfg clock sev entry w = (a, w'); note_action key a (rm, nt) = (rm', nt')\<rbrakk>
     \<Longrightarrow> batcher_step cfg clock s (s\<lparr>b_flush := (b_flush s)(sev := FLoop keys rm' nt')\<rparr>)"
| b_cleanup: "b_flush s sev = FLoop [] rm nt
     \<Longrightarrow> batcher_step cfg clock s (s\<lparr>b_queues := on_queue sev (remove_keys rm) (b_queues s),
           b_flush := (b_flush s)(sev := if nt = [] then FIdle else FMark nt)\<rparr>)"
| b_mark: "b_flush s sev = FMark nt
     \<Longrightarrow> batcher_step cfg clock s (s\<lparr>b_queues := on_queue sev (mark_notified cfg sev now nt) (b_queues s),
           b_flush := (b_flush s)(sev := FIdle), b_sent := b_sent s @ [(sev, map snd nt)]\<rparr>)"

definition new_batcher :: batcher where
  "new_batcher = \<lparr>b_queues = [], b_flush = (\<lambda>_. FIdle), b_sent = []\<rparr>"

inductive batcher_reachable :: "'w batcher_cfg \<Rightarrow> ('w \<Rightarrow> instant \<times> 'w) \<Rightarrow> batcher \<Rightarrow> bool" for cfg clock where
  b_start: "batcher_reachable cfg clock new_batcher"
| b_step: "\<lbrakk>batcher_reachable cfg clock s; batcher_step cfg clock s s'\<rbrakk> \<Longrightarrow> batcher_reachable cfg clock s'"

subsection \<open>Lookups after the operations\<close>

lemma map_of_map_val: "map_of (map (\<lambda>(s, m). (s, f s m)) gs) k = map_option (f k) (map_of gs k)"
  by (induction gs) auto

lemma queue_of_del_other: "queue_of (del_other sev key gs) s = (if s \<noteq> sev then gm_del key (queue_of gs s) else queue_of gs s)"
  unfolding queue_of_def del_other_def by (simp add: map_of_map_val split: option.split)

lemma queue_of_set: "queue_of (gm_set sev m gs) s = (if s = sev then m else queue_of gs s)"
  by (simp add: queue_of_def map_simps)

lemma queue_of_Remove: "queue_of (Batcher_Remove event gs) s = gm_del (onuKey event) (queue_of gs s)"
  unfolding queue_of_def Batcher_Remove_def by (simp add: map_of_map_val split: option.split)

lemma queue_of_on_queue:
  "f [] = [] \<Longrightarrow> queue_of (on_queue sev f gs) s = (if s = sev then f (queue_of gs s) else queue_of gs s)"
  unfolding queue_of_def on_queue_def by (simp add: map_of_map_val split: option.split)

lemma queue_of_Add:
  "queue_of (Batcher_Add event gs) s =
     (if s = eventSeverity (ev_EventType event)
      then gm_set (onuKey event)
             (case gm_get (queue_of gs s) (onuKey event) of
                Some existing \<Rightarrow> existing\<lparr>be_event := event\<rparr>
              | None \<Rightarrow> \<lparr>be_event = event, be_lastNotified = None\<rparr>) (queue_of gs s)
      else gm_del (onuKey event) (queue_of gs s))"
  by (simp add: Batcher_Add_def Let_def queue_of_set queue_of_del_other)

lemma remove_keys_get: "gm_get (remove_keys keys m) k = (if k \<in> set keys then None else gm_get m k)"
  unfolding remove_keys_def by (induction keys arbitrary: m) (auto simp: map_simps)

lemma remove_keys_wf: "gm_wf m \<Longrightarrow> gm_wf (remove_keys keys m)"
  unfolding remove_keys_def by (induction keys arbitrary: m) (simp_all add: gm_wf_del)

lemma remove_keys_Nil: "remove_keys keys [] = []"
  unfolding remove_keys_def by (induction keys) simp_all

lemma mark_entry_get:
  "gm_get (mark_entry now batch key m) k =
     (if k = key \<and> gm_get m k \<noteq> None
      then Some \<lparr>be_event = (case find (\<lambda>ev. onuKey ev = key) batch of Some ev \<Rightarrow> ev | None \<Rightarrow> hd batch),
                 be_lastNotified = Some now\<rparr>
      else gm_get m k)"
  by (simp add: mark_entry_def map_simps split: option.split)

lemma mark_entries_get:
  "gm_get (fold (mark_entry now batch) keys m) k =
     (if k \<in> set keys \<and> gm_get m k \<noteq> None
      then Some \<lparr>be_event = (case find (\<lambda>ev. onuKey ev = k) batch of Some ev \<Rightarrow> ev | None \<Rightarrow> hd batch),
                 be_lastNotified = Some now\<rparr>
      else gm_get m k)"
  by (induction keys arbitrary: m) (auto simp: mark_entry_get)

lemma mark_entries_wf: "gm_wf m \<Longrightarrow> gm_wf (fold (mark_entry now batch) keys m)"
  by (induction keys arbitrary: m) (simp_all add: mark_entry_def gm_wf_set split: option.split)

lemma mark_notified_Nil: "mark_notified cfg sev now nt [] = []"
proof -
  have "fold (mark_entry now batch) keys [] = []" for batch keys
    by (induction keys) (simp_all add: mark_entry_def)
  then show ?thesis by (simp add: mark_notified_def Let_def remove_keys_Nil)
qed

lemma mark_notified_get:
  "gm_get (mark_notified cfg sev now nt m) k =
     (if k \<in> fst ` set nt \<and> gm_get m k \<noteq> None
      then (if repeat_interval cfg sev \<le> 0 then None
            else Some \<lparr>be_event = (case find (\<lambda>ev. onuKey ev = k) (map snd nt) of Some ev \<Rightarrow> ev | None \<Rightarrow> hd (map snd nt)),
                       be_lastNotified = Some now\<rparr>)
      else gm_get m k)"
  by (auto simp: mark_notified_def Let_def remove_keys_get mark_entries_get)

lemma mark_notified_wf: "gm_wf m \<Longrightarrow> gm_wf (mark_notified cfg sev now nt m)"
  by (simp add: mark_notified_def Let_def remove_keys_wf mark_entries_wf)

subsection \<open>Verification keeps the ONU and the severity\<close>

lemma enrich_ids [simp]:
  "onuKey (enrich d e) = onuKey e" "ev_EventType (enrich d e) = ev_EventType e"
  by (simp_all add: enrich_def onuKey_def Let_def)

definition fits :: "Severity \<Rightarrow> bytes \<Rightarrow> TrapEvent \<Rightarrow> bool" where
  "fits sev key e \<longleftrightarrow> onuKey e = key \<and> eventSeverity (ev_EventType e) = sev"

lemma onuKey_update [simp]:
  "onuKey (e\<lparr>ev_EventType := t\<rparr>) = onuKey e" "onuKey (e\<lparr>ev_Status := t\<rparr>) = onuKey e"
  by (simp_all add: onuKey_def)

lemma verify_detail_fits:
  assumes "fits sev key e" "verify_detail cfg sev res e = Notify e'"
  shows "fits sev key e'"
proof -
  have p: "eventSeverity ''HighRxPower'' = SeverityMedium" "eventSeverity ''LowRxPower'' = SeverityMedium"
    by (simp_all add: eventSeverity_def)
  show ?thesis
    using assms
    by (auto simp: fits_def verify_detail_def verify_power_def verify_status_def Let_def p
        split: sum.splits option.splits if_splits)
qed

lemma flush_entry_fits:
  assumes "fits sev key (be_event entry)" "flush_entry cfg clock sev entry w = (Notify e, w')"
  shows "fits sev key e"
  using assms verify_detail_fits
  by (auto simp: flush_entry_def Let_def split: prod.splits bool.splits option.splits)

subsection \<open>Invariants of the steps\<close>

definition queues_ok :: "queues \<Rightarrow> bool" where
  "queues_ok gs \<longleftrightarrow>
     (\<forall>s. gm_wf (queue_of gs s))
     \<and> (\<forall>s key entry. gm_get (queue_of gs s) key = Some entry \<longrightarrow> fits s key (be_event entry))
     \<and> (\<forall>s s' key. gm_get (queue_of gs s) key \<noteq> None \<longrightarrow> gm_get (queue_of gs s') key \<noteq> None \<longrightarrow> s = s')"

definition notes_ok :: "Severity \<Rightarrow> (bytes \<times> TrapEvent) list \<Rightarrow> bool" where
  "notes_ok sev nt \<longleftrightarrow> distinct (map fst nt) \<and> (\<forall>(key, e) \<in> set nt. fits sev key e)"

fun pc_ok :: "Severity \<Rightarrow> flush_pc \<Rightarrow> bool" where
  "pc_ok sev FIdle = True"
| "pc_ok sev (FLoop keys rm nt) = (notes_ok sev nt \<and> distinct (map fst nt @ keys))"
| "pc_ok sev (FMark nt) = (notes_ok sev nt \<and> nt \<noteq> [])"

definition batch_ok :: "Severity \<Rightarrow> TrapEvent list \<Rightarrow> bool" where
  "batch_ok sev batch \<longleftrightarrow> batch \<noteq> [] \<and> distinct (map onuKey batch)
     \<and> (\<forall>e \<in> set batch. eventSeverity (ev_EventType e) = sev)"

definition batcher_ok :: "batcher \<Rightarrow> bool" where
  "batcher_ok s \<longleftrightarrow> queues_ok (b_queues s) \<and> (\<forall>sev. pc_ok sev (b_flush s sev))
     \<and> (\<forall>(sev, batch) \<in> set (b_sent s). batch_ok sev batch)"

lemma queues_ok_Add: "queues_ok gs \<Longrightarrow> queues_ok (Batcher_Add event gs)"
proof -
  assume ok: "queues_ok gs"
  have wf: "gm_wf (queue_of (Batcher_Add event gs) s)" for s
    using ok by (auto simp: queues_ok_def queue_of_Add gm_wf_set gm_wf_del)
  have get: "gm_get (queue_of (Batcher_Add event gs) s) key = Some entry \<Longrightarrow>
      (if key = onuKey event then s = eventSeverity (ev_EventType event) \<and> be_event entry = event
       else gm_get (queue_of gs s) key = Some entry)" for s key entry
    by (auto simp: queue_of_Add map_simps split: if_splits option.splits)
  have "fits s key (be_event entry)"
    if "gm_get (queue_of (Batcher_Add event gs) s) key = Some entry" for s key entry
    using get [OF that] ok by (auto simp: queues_ok_def fits_def split: if_splits)
  moreover have "s = s'" if "gm_get (queue_of (Batcher_Add event gs) s) key \<noteq> None"
    "gm_get (queue_of (Batcher_Add event gs) s') key \<noteq> None" for s s' key
    using that get ok unfolding queues_ok_def by (metis option.distinct(1) option.exhaust)
  ultimately show ?thesis using wf unfolding queues_ok_def by blast
qed

text \<open>An operation that only removes entries or replaces them by fitting ones.\<close>

lemma queues_ok_shrink:
  assumes "queues_ok gs" "\<And>s. gm_wf (queue_of gs' s)"
    and "\<And>s key entry. gm_get (queue_of gs' s) key = Some entry
           \<Longrightarrow> gm_get (queue_of gs s) key \<noteq> None \<and> fits s key (be_event entry)"
  shows "queues_ok gs'"
  using assms unfolding queues_ok_def by (metis option.distinct(1) option.exhaust)

lemma queues_ok_Remove: "queues_ok gs \<Longrightarrow> queues_ok (Batcher_Remove event gs)"
  by (rule queues_ok_shrink [of gs])
     (auto simp: queues_ok_def queue_of_Remove gm_wf_del map_simps split: if_splits)

lemma queues_ok_cleanup:
  assumes "queues_ok gs"
  shows "queues_ok (on_queue sev (remove_keys rm) gs)"
proof (rule queues_ok_shrink [OF assms])
  show "gm_wf (queue_of (on_queue sev (remove_keys rm) gs) s)" for s
    using assms by (simp add: queues_ok_def queue_of_on_queue remove_keys_Nil remove_keys_wf)
  fix s key entry
  assume "gm_get (queue_of (on_queue sev (remove_keys rm) gs) s) key = Some entry"
  then have "gm_get (queue_of gs s) key = Some entry"
    by (simp add: queue_of_on_queue remove_keys_Nil remove_keys_get split: if_splits)
  with assms show "gm_get (queue_of gs s) key \<noteq> None \<and> fits s key (be_event entry)"
    unfolding queues_ok_def by blast
qed

lemma queues_ok_mark:
  assumes "queues_ok gs" "notes_ok sev nt"
  shows "queues_ok (on_queue sev (mark_notified cfg sev now nt) gs)"
proof (rule queues_ok_shrink [OF assms(1)])
  show "gm_wf (queue_of (on_queue sev (mark_notified cfg sev now nt) gs) s)" for s
    using assms(1) by (simp add: queues_ok_def queue_of_on_queue mark_notified_Nil mark_notified_wf)
  fix s key entry
  assume e: "gm_get (queue_of (on_queue sev (mark_notified cfg sev now nt) gs) s) key = Some entry"
  show "gm_get (queue_of gs s) key \<noteq> None \<and> fits s key (be_event entry)"
  proof (cases "s = sev \<and> key \<in> fst ` set nt")
    case True
    then obtain e1 where e1: "(key, e1) \<in> set nt" by force
    with assms(2) have f1: "fits sev key e1" by (auto simp: notes_ok_def)
    have "find (\<lambda>ev. onuKey ev = key) (map snd nt) \<noteq> None"
      unfolding find_None_iff using e1 f1 by (force simp: fits_def)
    then obtain ev where ev: "find (\<lambda>ev. onuKey ev = key) (map snd nt) = Some ev" by blast
    then have "onuKey ev = key" "\<exists>x \<in> set nt. ev = snd x" by (auto simp: find_Some_iff)
    then have "ev \<in> snd ` set nt" by blast
    with assms(2) \<open>onuKey ev = key\<close> have "fits sev key ev" by (auto simp: notes_ok_def fits_def)
    with e True ev show ?thesis
      by (auto simp: queue_of_on_queue mark_notified_Nil mark_notified_get split: if_splits)
  next
    case False
    with e have "gm_get (queue_of gs s) key = Some entry"
      by (auto simp: queue_of_on_queue mark_notified_Nil mark_notified_get split: if_splits)
    with assms(1) show ?thesis by (auto simp: queues_ok_def)
  qed
qed

lemma pc_ok_visit:
  assumes "pc_ok sev (FLoop (key # keys) rm nt)" "fits sev key (be_event entry)"
    and "flush_entry cfg clock sev entry w = (a, w')" "note_action key a (rm, nt) = (rm', nt')"
  shows "pc_ok sev (FLoop keys rm' nt')"
proof (cases a)
  case (Notify e)
  then have n: "rm' = rm" "nt' = nt @ [(key, e)]" "fits sev key e"
    using assms(3,4) flush_entry_fits [OF assms(2)] by (auto simp: note_action_def)
  have "distinct (map fst (nt @ [(key, e)]) @ keys)" using assms(1) by auto
  then show ?thesis using assms(1) n by (simp add: notes_ok_def)
qed (use assms(1,4) in \<open>auto simp: note_action_def\<close>)

lemma notes_batch_ok: "\<lbrakk>notes_ok sev nt; nt \<noteq> []\<rbrakk> \<Longrightarrow> batch_ok sev (map snd nt)"
proof -
  assume ok: "notes_ok sev nt" "nt \<noteq> []"
  then have "map onuKey (map snd nt) = map fst nt" by (auto simp: notes_ok_def fits_def)
  then have "distinct (map onuKey (map snd nt))" using ok(1) unfolding notes_ok_def by metis
  with ok show ?thesis by (auto simp: batch_ok_def notes_ok_def fits_def)
qed

lemma batcher_step_ok:
  assumes "batcher_step cfg clock s s'" "batcher_ok s"
  shows "batcher_ok s'"
  using assms
proof (induction rule: batcher_step.induct)
  case (b_collect s sev keys)
  have "gm_wf (queue_of (b_queues s) sev)" using b_collect.prems by (simp add: batcher_ok_def queues_ok_def)
  then have "distinct keys" using b_collect.hyps(3) by (metis mset_eq_imp_distinct_iff)
  with b_collect.prems show ?case by (simp add: batcher_ok_def notes_ok_def)
next
  case (b_gone s sev key keys rm nt)
  then have "pc_ok sev (FLoop (key # keys) rm nt)" by (metis batcher_ok_def)
  with b_gone.prems show ?case by (simp add: batcher_ok_def)
next
  case (b_visit s sev key keys rm nt entry w a w' rm' nt')
  then have "pc_ok sev (FLoop (key # keys) rm nt)" by (metis batcher_ok_def)
  moreover have "fits sev key (be_event entry)"
    using b_visit.hyps(2) b_visit.prems unfolding batcher_ok_def queues_ok_def by blast
  ultimately have "pc_ok sev (FLoop keys rm' nt')" using b_visit.hyps(3,4) by (rule pc_ok_visit)
  with b_visit.prems show ?case by (simp add: batcher_ok_def)
next
  case (b_cleanup s sev rm nt)
  then have "pc_ok sev (FLoop [] rm nt)" by (metis batcher_ok_def)
  with b_cleanup.prems show ?case by (simp add: batcher_ok_def queues_ok_cleanup)
next
  case (b_mark s sev nt now)
  then have "pc_ok sev (FMark nt)" by (metis batcher_ok_def)
  with b_mark.prems show ?case by (auto simp: batcher_ok_def queues_ok_mark notes_batch_ok)
qed (simp_all add: batcher_ok_def queues_ok_Add queues_ok_Remove)

lemma new_batcher_ok: "batcher_ok new_batcher"
  by (simp add: batcher_ok_def new_batcher_def queues_ok_def queue_of_def)

lemma batcher_reachable_ok: "batcher_reachable cfg clock s \<Longrightarrow> batcher_ok s"
  by (induction rule: batcher_reachable.induct) (auto simp: new_batcher_ok intro: batcher_step_ok)

text \<open>
  C6. However \<open>Add\<close>, \<open>Remove\<close> and the flushes of all severities interleave, an ONU
  is in one severity queue at most, every queued event lies in the queue of its own severity, and
  every batch that is sent is not empty, names no ONU twice and holds only events of the severity
  it is sent for.
\<close>

theorem batcher_queues_exclusive:
  assumes "batcher_reachable cfg clock s"
  shows "(gm_get (queue_of (b_queues s) sev) key \<noteq> None \<and> gm_get (queue_of (b_queues s) sev') key \<noteq> None \<longrightarrow> sev = sev')
    \<and> (\<forall>entry. gm_get (queue_of (b_queues s) sev) key = Some entry
          \<longrightarrow> onuKey (be_event entry) = key \<and> eventSeverity (ev_EventType (be_event entry)) = sev)
    \<and> (\<forall>batch. (sev, batch) \<in> set (b_sent s)
          \<longrightarrow> batch \<noteq> [] \<and> distinct (map onuKey batch) \<and> (\<forall>e \<in> set batch. eventSeverity (ev_EventType e) = sev))"
  using batcher_reachable_ok [OF assms]
  unfolding batcher_ok_def queues_ok_def fits_def batch_ok_def by blast

definition plain_batcher :: "unit batcher_cfg" where
  "plain_batcher = \<lparr>bc_fetcher = None, bc_repeat = [], bc_high = Fin (- 8), bc_low = Fin (- 25)\<rparr>"

definition los_event :: TrapEvent where
  "los_event = zero_event\<lparr>ev_Board := 1, ev_PON := 2, ev_OnuID := 3, ev_EventType := ''LOS''\<rparr>"

lemma los_queued:
  "batcher_reachable plain_batcher (\<lambda>w. (0, w)) (new_batcher\<lparr>b_queues := Batcher_Add los_event []\<rparr>)"
  using b_step [OF b_start b_add [of plain_batcher "\<lambda>w. (0, w)" new_batcher los_event]]
  by (simp add: new_batcher_def)

theorem batcher_queues_exclusive_witness:
  "gm_get (queue_of (Batcher_Add los_event []) SeverityCritical) ''1-2-3'' \<noteq> None
   \<and> gm_get (queue_of (Batcher_Add los_event []) SeverityHigh) ''1-2-3'' = None"
proof -
  have c: "gm_get (queue_of (Batcher_Add los_event []) SeverityCritical) ''1-2-3'' \<noteq> None" by code_simp
  with batcher_queues_exclusive [OF los_queued, of SeverityCritical "''1-2-3''" SeverityHigh] show ?thesis by simp
qed

subsection \<open>What a flush sends\<close>

text \<open>The verdict on an event after the device was asked.\<close>

definition confirmed :: "'w batcher_cfg \<Rightarrow> Severity \<Rightarrow> ONUCustomerInfo \<Rightarrow> bool" where
  "confirmed cfg sev detail \<longleftrightarrow> cu_ID detail \<noteq> 0 \<and>
     (if sev = SeverityMedium
      then (\<exists>rx. parse_float (cu_RXPower detail) = Some rx \<and> \<not> (f64_le (bc_low cfg) rx \<and> f64_le rx (bc_high cfg)))
      else resolveEventType (cu_Status detail) (cu_LastOfflineReason detail) \<in> set alertEventTypes
           \<and> eventSeverity (resolveEventType (cu_Status detail) (cu_LastOfflineReason detail)) = sev)"

lemma verify_detail_confirmed:
  "(\<exists>e'. verify_detail cfg sev res e = Notify e') \<longleftrightarrow> (\<exists>detail. res = Inr detail \<and> confirmed cfg sev detail)"
  by (auto simp: verify_detail_def verify_power_def verify_status_def confirmed_def Let_def split: sum.splits option.splits if_splits)

text \<open>
  With a device to ask, an entry whose turn has come is sent exactly when a live
  read succeeds, finds the ONU and confirms an alert of the severity of the queue, for the power
  queue a reading outside the thresholds; otherwise it is removed from the queue. The event that
  is sent carries the values of the live read.
\<close>

theorem flush_entry_verified:
  assumes "bc_fetcher cfg = Some f" "waits cfg clock sev entry w = (False, w1)"
    and "ft_detail f (ev_Board e) (ev_PON e) (ev_OnuID e) (ft_invalidate f (ev_Board e) (ev_PON e) (ev_OnuID e) w1) = (res, w2)"
    and "e = be_event entry"
  shows "(\<exists>e'. flush_entry cfg clock sev entry w = (Notify e', w2) \<and> onuKey e' = onuKey e
            \<and> (\<exists>detail. res = Inr detail \<and> confirmed cfg sev detail \<and> ev_Status e' = cu_Status detail
                 \<and> ev_RXPower e' = cu_RXPower detail \<and> ev_SerialNumber e' = cu_SerialNumber detail))
    \<or> flush_entry cfg clock sev entry w = (Drop, w2) \<and> \<not> (\<exists>detail. res = Inr detail \<and> confirmed cfg sev detail)"
proof -
  have r: "flush_entry cfg clock sev entry w = (verify_detail cfg sev res e, w2)"
    using assms by (simp add: flush_entry_def)
  show ?thesis unfolding r
    by (auto simp: verify_detail_def verify_power_def verify_status_def confirmed_def Let_def enrich_def onuKey_def
        split: sum.splits option.splits)
qed

definition online_device :: "unit detail_fetcher" where
  "online_device = \<lparr>ft_invalidate = (\<lambda>b p i w. w), ft_detail = (\<lambda>b p i w.
     (Inr (zero_ONUCustomerInfo\<lparr>cu_ID := i, cu_Status := ''Online''\<rparr>), w))\<rparr>"

theorem flush_entry_verified_witness:
  "fst (flush_entry (plain_batcher\<lparr>bc_fetcher := Some online_device\<rparr>) (\<lambda>w. (0, w)) SeverityCritical
      \<lparr>be_event = los_event, be_lastNotified = None\<rparr> ()) = Drop"
proof -
  let ?cfg = "plain_batcher\<lparr>bc_fetcher := Some online_device\<rparr>"
  let ?d = "zero_ONUCustomerInfo\<lparr>cu_ID := 3, cu_Status := ''Online''\<rparr>"
  have i: "ev_OnuID los_event = 3" by (simp add: los_event_def)
  have "resolveEventType ''Online'' [] = ''Online''" by code_simp
  then have n: "\<not> confirmed ?cfg SeverityCritical ?d"
    by (simp add: confirmed_def alertEventTypes_def zero_ONUCustomerInfo_def)
  have "waits ?cfg (\<lambda>w. (0, w)) SeverityCritical \<lparr>be_event = los_event, be_lastNotified = None\<rparr> () = (False, ())"
    by (simp add: waits_def)
  from flush_entry_verified [OF _ this, of online_device los_event "Inr ?d" "()"] n show ?thesis
    by (auto simp: online_device_def i)
qed

text \<open>
  A notified ONU is not notified again before the repeat interval of its severity
  has passed, also when its event was queued again in between; without a repeat interval its
  entry is gone after the notification.
\<close>

theorem notified_waits:
  assumes "key \<in> fst ` set nt" "gs' = on_queue sev (mark_notified cfg sev now nt) gs"
    and "gm_get (queue_of gs sev) key \<noteq> None"
  shows "(repeat_interval cfg sev \<le> 0 \<longrightarrow> gm_get (queue_of gs' sev) key = None)
    \<and> (0 < repeat_interval cfg sev \<and> clock w = (later, w') \<and> time_sub later now < repeat_interval cfg sev
        \<and> eventSeverity (ev_EventType event) = sev
        \<and> gm_get (queue_of (Batcher_Add event gs') sev) key = Some entry
       \<longrightarrow> flush_entry cfg clock sev entry w = (Skip, w'))"
proof -
  have q: "queue_of gs' sev = mark_notified cfg sev now nt (queue_of gs sev)"
    by (simp add: assms(2) queue_of_on_queue mark_notified_Nil)
  have none: "gm_get (queue_of gs' sev) key = None" if "repeat_interval cfg sev \<le> 0"
    using that assms(1,3) by (simp add: q mark_notified_get)
  have skip: "flush_entry cfg clock sev entry w = (Skip, w')"
    if "0 < repeat_interval cfg sev" "clock w = (later, w')" "time_sub later now < repeat_interval cfg sev"
      "eventSeverity (ev_EventType event) = sev" "gm_get (queue_of (Batcher_Add event gs') sev) key = Some entry"
  proof -
    have "gm_get (queue_of gs' sev) key \<noteq> None" "\<forall>old. gm_get (queue_of gs' sev) key = Some old \<longrightarrow> be_lastNotified old = Some now"
      using that(1) assms(1,3) by (simp_all add: q mark_notified_get)
    then have "be_lastNotified entry = Some now"
      using that(4,5) by (auto simp: queue_of_Add map_simps split: if_splits)
    with that(1-3) show ?thesis by (simp add: flush_entry_def waits_def)
  qed
  show ?thesis using none skip by blast
qed

theorem notified_waits_witness:
  "\<exists>entry. flush_entry (plain_batcher\<lparr>bc_repeat := [(SeverityCritical, 60)]\<rparr>) (\<lambda>w. (50, w)) SeverityCritical entry () = (Skip, ())"
proof -
  let ?cfg = "plain_batcher\<lparr>bc_repeat := [(SeverityCritical, 60)]\<rparr>"
  let ?gs = "Batcher_Add los_event []"
  let ?nt = "[(''1-2-3'', los_event)]"
  let ?gs' = "on_queue SeverityCritical (mark_notified ?cfg SeverityCritical 0 ?nt) ?gs"
  have k: "onuKey los_event = ''1-2-3''" "eventSeverity (ev_EventType los_event) = SeverityCritical" by code_simp+
  then have "gm_get (queue_of ?gs SeverityCritical) ''1-2-3'' \<noteq> None" by (simp add: queue_of_Add gm_get_set)
  moreover obtain entry where "gm_get (queue_of (Batcher_Add los_event ?gs') SeverityCritical) ''1-2-3'' = Some entry"
    using k by (simp add: queue_of_Add map_simps)
  moreover have "repeat_interval ?cfg SeverityCritical = 60" by (simp add: repeat_interval_def)
  ultimately show ?thesis
    using notified_waits [of "''1-2-3''" ?nt ?gs' SeverityCritical ?cfg 0 ?gs "\<lambda>w. (50, w)" "()" 50 "()" los_event entry] k
    by (auto simp: time_sub_def)
qed

end
