(* ===== verification/Webhook_Client.thy ===== *)
theory Webhook_Client
  imports Webhook_Payload Trap_Batcher Device_Registry
begin

text \<open>
  \<open>internal/trap/webhook.go\<close>, \<open>webhook_active.go\<close> and \<open>app/webhook.go\<close>: sending a
  payload with retries, the client that is active, and the refresher that swaps it when the
  settings in device-registry change. HTTP, the clock and \<open>time.Sleep\<close> are operations of a
  record over an arbitrary world.
\<close>

record 'w http_ops =
  ht_now :: "'w clock"
  ht_sleep :: "int \<Rightarrow> 'w \<Rightarrow> 'w"
  ht_post :: "int \<Rightarrow> bytes \<Rightarrow> bytes \<Rightarrow> bytes \<Rightarrow> 'w \<Rightarrow> (gerror + int) \<times> 'w"

record WebhookClient =
  wc_url :: bytes
  wc_maxRetries :: int
  wc_timeout :: int
  wc_formatter :: formatter

definition NewWebhookClient :: "bytes \<Rightarrow> int \<Rightarrow> int \<Rightarrow> formatter option \<Rightarrow> WebhookClient" where
  "NewWebhookClient url maxRetries timeoutSec f =
     \<lparr>wc_url = url, wc_maxRetries = maxRetries, wc_timeout = int64 (timeoutSec * 1000000000),
      wc_formatter = (case f of Some f \<Rightarrow> f | None \<Rightarrow> Generic)\<rparr>"

definition ContentType :: "formatter \<Rightarrow> bytes" where
  "ContentType f = ''application/json''"

subsection \<open>Sending\<close>

text \<open>
  The pause before a retry, 2 to the power \<open>attempt - 1\<close> seconds. The conversion of a float
  that is too large to a 64-bit integer gives the least integer, as on amd64.
\<close>

definition backoff :: "int \<Rightarrow> int" where
  "backoff attempt =
     (let p = (2 :: int) ^ nat (attempt - 1);
          d = (if p < 9223372036854775808 then p else - 9223372036854775808)
      in int64 (d * 1000000000))"

definition accepted :: "gerror + int \<Rightarrow> bool" where
  "accepted r = (case r of Inl _ \<Rightarrow> False | Inr status \<Rightarrow> 200 \<le> status \<and> status < 300)"

definition post :: "'w http_ops \<Rightarrow> WebhookClient \<Rightarrow> bytes \<Rightarrow> 'w \<Rightarrow> (gerror + int) \<times> 'w" where
  "post ops wc payload w = ht_post ops (wc_timeout wc) (wc_url wc) (ContentType (wc_formatter wc)) payload w"

text \<open>The loop from \<open>attempt\<close> on, with the number of attempts that are left; the result is
  whether the success or the failure is logged.\<close>

fun send_loop :: "'w http_ops \<Rightarrow> WebhookClient \<Rightarrow> bytes \<Rightarrow> int \<Rightarrow> nat \<Rightarrow> 'w \<Rightarrow> bool \<times> 'w" where
  "send_loop ops wc payload attempt 0 w = (False, w)"
| "send_loop ops wc payload attempt (Suc n) w =
     (let w = (if attempt > 0 then ht_sleep ops (backoff attempt) w else w) in
      case post ops wc payload w of
        (r, w) \<Rightarrow> if accepted r then (True, w) else send_loop ops wc payload (attempt + 1) n w)"

definition sendPayload :: "'w http_ops \<Rightarrow> WebhookClient \<Rightarrow> bytes \<Rightarrow> 'w \<Rightarrow> bool \<times> 'w" where
  "sendPayload ops wc payload w = send_loop ops wc payload 0 (nat (wc_maxRetries wc + 1)) w"

definition Send :: "'w http_ops \<Rightarrow> fmt_env \<Rightarrow> WebhookClient \<Rightarrow> TrapEvent \<Rightarrow> 'w \<Rightarrow> bool \<times> 'w" where
  "Send ops env wc event w =
     (case Format env (ht_now ops) (wc_formatter wc) event w of
        (Inl _, w) \<Rightarrow> (False, w)
      | (Inr payload, w) \<Rightarrow> sendPayload ops wc payload w)"

subsection \<open>The active client\<close>

record active_webhook =
  aw_set :: bool
  aw_client :: "WebhookClient option"

definition no_active :: active_webhook where
  "no_active = \<lparr>aw_set = False, aw_client = None\<rparr>"

definition SetActiveWebhook :: "WebhookClient option \<Rightarrow> active_webhook \<Rightarrow> active_webhook" where
  "SetActiveWebhook c aw = aw\<lparr>aw_client := c, aw_set := True\<rparr>"

definition resolveWebhook :: "active_webhook \<Rightarrow> WebhookClient option \<Rightarrow> WebhookClient option" where
  "resolveWebhook aw inst = (if aw_set aw then aw_client aw else inst)"

record WebhookSettings =
  ws_URL :: bytes
  ws_Type :: bytes
  ws_ChatID :: bytes
  ws_Enabled :: bool
  ws_Retries :: int
  ws_Timeout :: int

definition BuildWebhookClient :: "WebhookSettings \<Rightarrow> WebhookClient option" where
  "BuildWebhookClient s =
     (if \<not> ws_Enabled s \<or> ws_URL s = [] then None
      else
        (let retries = (if ws_Retries s \<le> 0 then 3 else ws_Retries s);
             timeout = (if ws_Timeout s \<le> 0 then 10 else ws_Timeout s)
         in case NewFormatter (ws_URL s) (ws_Type s) (ws_ChatID s) of
              (formatter, finalURL) \<Rightarrow> Some (NewWebhookClient finalURL retries timeout (Some formatter))))"

text \<open>An alert goes to the batcher, or without one to a goroutine that sends it.\<close>

definition dispatch ::
    "active_webhook \<Rightarrow> WebhookClient option \<Rightarrow> TrapEvent \<Rightarrow> queues option
     \<Rightarrow> queues option \<times> (WebhookClient \<times> TrapEvent) list" where
  "dispatch aw inst event batcher =
     (case batcher of
        Some gs \<Rightarrow> (Some (Batcher_Add event gs), [])
      | None \<Rightarrow> (None, case resolveWebhook aw inst of Some wc \<Rightarrow> [(wc, event)] | None \<Rightarrow> []))"

text \<open>The end of a flush: the batch goes out through the client that is active then.\<close>

definition send_batch ::
    "'w http_ops \<Rightarrow> fmt_env \<Rightarrow> active_webhook \<Rightarrow> WebhookClient option \<Rightarrow> Severity \<Rightarrow> TrapEvent list \<Rightarrow> 'w
     \<Rightarrow> bool \<times> 'w" where
  "send_batch ops env aw inst sev batch w =
     (case resolveWebhook aw inst of
        None \<Rightarrow> (False, w)
      | Some wc \<Rightarrow>
          (case FormatBatch env (ht_now ops) (wc_formatter wc) sev batch w of
             (Inl _, w) \<Rightarrow> (False, w)
           | (Inr payload, w) \<Rightarrow> sendPayload ops wc payload w))"

definition flush_and_send ::
    "'w batcher_cfg \<Rightarrow> 'w http_ops \<Rightarrow> fmt_env \<Rightarrow> active_webhook \<Rightarrow> WebhookClient option
     \<Rightarrow> (bytes, batcherEntry) range_ord \<Rightarrow> Severity \<Rightarrow> queues \<Rightarrow> 'w \<Rightarrow> queues \<times> 'w" where
  "flush_and_send cfg ops env aw inst ord sev gs w =
     (case flushSeverity cfg (ht_now ops) ord sev gs w of
        ((gs, batch), w) \<Rightarrow>
          (gs, if batch = [] then w else snd (send_batch ops env aw inst sev batch w)))"

subsection \<open>The settings of the application\<close>

definition regSource :: "env \<Rightarrow> bytes \<times> bytes" where
  "regSource getenv = (getenv ''REGISTRY_URL'', getenv ''REGISTRY_API_KEY'')"

definition webhookSource :: "env \<Rightarrow> bytes" where
  "webhookSource getenv = (if fst (regSource getenv) \<noteq> [] then ''registry'' else ''env'')"

definition currentWebhookSettings ::
    "'w reg_ops \<Rightarrow> env \<Rightarrow> WebhookSettings \<Rightarrow> 'w \<Rightarrow> WebhookSettings \<times> 'w" where
  "currentWebhookSettings reg getenv whEnv w =
     (case regSource getenv of (regURL, regKey) \<Rightarrow>
        if regURL = [] then (whEnv, w)
        else (case FetchWebhookConfig reg regURL regKey w of
                (Inl err, w) \<Rightarrow> (whEnv, w)
              | (Inr r, w) \<Rightarrow>
                  (\<lparr>ws_URL = wr_URL r, ws_Type = wr_Type r, ws_ChatID = wr_ChatID r,
                    ws_Enabled = wr_Enabled r, ws_Retries = wr_Retries r, ws_Timeout = wr_Timeout r\<rparr>, w)))"

definition settingsKey :: "WebhookSettings \<Rightarrow> bytes" where
  "settingsKey s =
     (if ws_Enabled s then ''true'' else ''false'') @ ''|'' @ ws_URL s @ ''|'' @ ws_Type s @ ''|''
     @ ws_ChatID s @ ''|'' @ itoa (ws_Retries s) @ ''|'' @ itoa (ws_Timeout s)"

text \<open>\<open>initWebhook\<close>: the active client; the refresher is started when the registry is set.\<close>

definition initWebhook ::
    "'w reg_ops \<Rightarrow> env \<Rightarrow> WebhookSettings \<Rightarrow> active_webhook \<Rightarrow> 'w \<Rightarrow> (active_webhook \<times> bool) \<times> 'w" where
  "initWebhook reg getenv whEnv aw w =
     (case currentWebhookSettings reg getenv whEnv w of
        (s, w) \<Rightarrow> ((SetActiveWebhook (BuildWebhookClient s) aw, fst (regSource getenv) \<noteq> []), w))"

text \<open>One tick of \<open>webhookRefresher\<close>, with the last key and the active client.\<close>

definition refresh_tick ::
    "'w reg_ops \<Rightarrow> env \<Rightarrow> WebhookSettings \<Rightarrow> bytes \<times> active_webhook \<Rightarrow> 'w \<Rightarrow> (bytes \<times> active_webhook) \<times> 'w" where
  "refresh_tick reg getenv whEnv st w =
     (case currentWebhookSettings reg getenv whEnv w of
        (s, w) \<Rightarrow>
          (let key = settingsKey s in
           if key = fst st then (st, w)
           else ((key, SetActiveWebhook (BuildWebhookClient s) (snd st)), w)))"

text \<open>The refresher reads the settings once when it starts, then at every tick.\<close>

fun refresh_ticks ::
    "'w reg_ops \<Rightarrow> env \<Rightarrow> WebhookSettings \<Rightarrow> nat \<Rightarrow> bytes \<times> active_webhook \<Rightarrow> 'w \<Rightarrow> (bytes \<times> active_webhook) \<times> 'w" where
  "refresh_ticks reg getenv whEnv 0 st w = (st, w)"
| "refresh_ticks reg getenv whEnv (Suc n) st w =
     (case refresh_tick reg getenv whEnv st w of (st, w) \<Rightarrow> refresh_ticks reg getenv whEnv n st w)"

definition webhookRefresher ::
    "'w reg_ops \<Rightarrow> env \<Rightarrow> WebhookSettings \<Rightarrow> nat \<Rightarrow> active_webhook \<Rightarrow> 'w \<Rightarrow> active_webhook \<times> 'w" where
  "webhookRefresher reg getenv whEnv ticks aw w =
     (case currentWebhookSettings reg getenv whEnv w of
        (s, w) \<Rightarrow>
          (case refresh_ticks reg getenv whEnv ticks (settingsKey s, aw) w of ((_, aw), w) \<Rightarrow> (aw, w)))"

subsection \<open>The two endpoints\<close>

definition message_reply :: "int \<Rightarrow> bytes \<Rightarrow> reply" where
  "message_reply status m = SendJSONResponse status (JObj [(''message'', JStr m)])"

definition dash :: bytes where
  "dash = [CHR 0xE2, CHR 0x80, CHR 0x94]"

definition webhookTestHandler ::
    "'w reg_ops \<Rightarrow> 'w http_ops \<Rightarrow> fmt_env \<Rightarrow> env \<Rightarrow> WebhookSettings \<Rightarrow> 'w \<Rightarrow> reply \<times> 'w" where
  "webhookTestHandler reg ops fenv getenv whEnv w =
     (case currentWebhookSettings reg getenv whEnv w of
        (s, w) \<Rightarrow>
          (case BuildWebhookClient s of
             None \<Rightarrow> (message_reply 400 ''webhook is disabled or has no URL'', w)
           | Some wc \<Rightarrow>
               (case ht_now ops w of
                  (now, w) \<Rightarrow>
                    (message_reply 200 ''test notification sent'',
                     snd (Send ops fenv wc (zero_event\<lparr>ev_Timestamp := now, ev_Source := ''webhook-test'',
                       ev_EventType := ''test'', ev_Status := ''test'', ev_Name := ''Webhook test'',
                       ev_Description := ''Test notification from snmp-olt-zte '' @ dash
                         @ '' your webhook is configured correctly.''\<rparr>) w)))))"

record notify_body =
  nb_Name :: bytes
  nb_Description :: bytes
  nb_Status :: bytes

definition notify_body_fields :: "notify_body field list" where
  "notify_body_fields =
     [(''name'', \<lambda>j r. map_option (\<lambda>v. r\<lparr>nb_Name := v\<rparr>) (get_str j (nb_Name r))),
      (''description'', \<lambda>j r. map_option (\<lambda>v. r\<lparr>nb_Description := v\<rparr>) (get_str j (nb_Description r))),
      (''status'', \<lambda>j r. map_option (\<lambda>v. r\<lparr>nb_Status := v\<rparr>) (get_str j (nb_Status r)))]"

text \<open>Decoding with the error ignored: a member of the wrong type leaves its field as it is.\<close>

definition decode_member :: "'r field list \<Rightarrow> bytes \<times> json \<Rightarrow> 'r \<Rightarrow> 'r" where
  "decode_member fs m r =
     (case find_field fs (fst m) of
        Some upd \<Rightarrow> (case upd (snd m) r of Some r' \<Rightarrow> r' | None \<Rightarrow> r)
      | None \<Rightarrow> r)"

definition decode_lenient :: "'r field list \<Rightarrow> json option \<Rightarrow> 'r \<Rightarrow> 'r" where
  "decode_lenient fs j r = (case j of Some (JObj ms) \<Rightarrow> fold (decode_member fs) ms r | _ \<Rightarrow> r)"

definition webhookNotifyHandler ::
    "'w reg_ops \<Rightarrow> 'w http_ops \<Rightarrow> fmt_env \<Rightarrow> env \<Rightarrow> WebhookSettings \<Rightarrow> bytes \<Rightarrow> 'w \<Rightarrow> reply \<times> 'w" where
  "webhookNotifyHandler reg ops fenv getenv whEnv reqBody w =
     (let body = decode_lenient notify_body_fields (json_decode_first reqBody)
                   \<lparr>nb_Name = [], nb_Description = [], nb_Status = []\<rparr>;
          body = (if nb_Name body = [] then body\<lparr>nb_Name := ''Notification''\<rparr> else body);
          body = (if nb_Status body = [] then body\<lparr>nb_Status := ''alert''\<rparr> else body)
      in case currentWebhookSettings reg getenv whEnv w of
           (s, w) \<Rightarrow>
             (case BuildWebhookClient s of
                None \<Rightarrow> (message_reply 200 (''webhook disabled '' @ dash @ '' skipped''), w)
              | Some wc \<Rightarrow>
                  (case ht_now ops w of
                     (now, w) \<Rightarrow>
                       (message_reply 200 ''notification sent'',
                        snd (Send ops fenv wc (zero_event\<lparr>ev_Timestamp := now, ev_Source := ''provisioning'',
                          ev_EventType := ''provisioning'', ev_Status := nb_Status body,
                          ev_Name := nb_Name body, ev_Description := nb_Description body\<rparr>) w)))))"

subsection \<open>The retry loop against its attempts\<close>

text \<open>
  The attempts as a sequence that does not stop: the world before attempt \<open>k\<close> posts, after a
  pause of 2 to the power \<open>k - 1\<close> seconds, its answer, and the world after \<open>k\<close> attempts.
\<close>

definition pause :: "'w http_ops \<Rightarrow> nat \<Rightarrow> 'w \<Rightarrow> 'w" where
  "pause ops k w = (case k of 0 \<Rightarrow> w | Suc j \<Rightarrow> ht_sleep ops (2 ^ j * 1000000000) w)"

fun after_attempts :: "'w http_ops \<Rightarrow> WebhookClient \<Rightarrow> bytes \<Rightarrow> nat \<Rightarrow> 'w \<Rightarrow> 'w" where
  "after_attempts ops wc payload 0 w = w"
| "after_attempts ops wc payload (Suc k) w = snd (post ops wc payload (pause ops k (after_attempts ops wc payload k w)))"

definition answer :: "'w http_ops \<Rightarrow> WebhookClient \<Rightarrow> bytes \<Rightarrow> 'w \<Rightarrow> nat \<Rightarrow> gerror + int" where
  "answer ops wc payload w k = fst (post ops wc payload (pause ops k (after_attempts ops wc payload k w)))"

lemma backoff_exact: "k \<le> 33 \<Longrightarrow> backoff (int (Suc k)) = 2 ^ k * 1000000000"
proof -
  assume "k \<le> 33"
  define p where "p = (2 :: int) ^ k"
  have "p \<le> 2 ^ 33" unfolding p_def using \<open>k \<le> 33\<close> by (rule power_increasing) simp
  moreover have "0 \<le> p" unfolding p_def by simp
  ultimately have "p < 9223372036854775808" "in_int64 (p * 1000000000)" by (simp_all add: in_int64_def)
  then show ?thesis by (simp add: backoff_def p_def [symmetric] int64_id)
qed

lemma send_loop_attempts:
  "k + n \<le> 35 \<Longrightarrow> send_loop ops wc payload (int k) n (after_attempts ops wc payload k w) =
     (case find (\<lambda>j. accepted (answer ops wc payload w j)) [k..<k + n] of
        Some j \<Rightarrow> (True, after_attempts ops wc payload (Suc j) w)
      | None \<Rightarrow> (False, after_attempts ops wc payload (k + n) w))"
proof (induction n arbitrary: k)
  case (Suc n)
  let ?w = "after_attempts ops wc payload k w"
  have sleep: "(if int k > 0 then ht_sleep ops (backoff (int k)) ?w else ?w) = pause ops k ?w"
  proof (cases k)
    case (Suc j)
    with backoff_exact [of j] Suc.prems show ?thesis by (simp add: pause_def)
  qed (simp add: pause_def)
  have r: "[k..<k + Suc n] = k # [Suc k..<Suc k + n]" by (simp add: upt_conv_Cons)
  have p: "post ops wc payload (pause ops k ?w) = (answer ops wc payload w k, after_attempts ops wc payload (Suc k) w)"
    by (simp add: answer_def prod_eq_iff)
  show ?case
  proof (cases "accepted (answer ops wc payload w k)")
    case False
    with Suc.IH [of "Suc k"] Suc.prems show ?thesis
      unfolding send_loop.simps Let_def sleep p r by (simp add: add.commute cong: option.case_cong)
  qed (unfold send_loop.simps Let_def sleep p r, simp)
qed simp

text \<open>
  C10. Sending makes at most one attempt more than the retries that are configured,
  with the same payload and pauses of 1, 2, 4, ... seconds between them, and stops at the first
  answer from 200 to 299: it succeeds exactly when one of these attempts is answered so.
\<close>

theorem sendPayload_attempts:
  assumes "wc_maxRetries wc \<le> 34"
  shows "sendPayload ops wc payload w =
     (case find (\<lambda>k. accepted (answer ops wc payload w k)) [0..<nat (wc_maxRetries wc + 1)] of
        Some k \<Rightarrow> (True, after_attempts ops wc payload (Suc k) w)
      | None \<Rightarrow> (False, after_attempts ops wc payload (nat (wc_maxRetries wc + 1)) w))"
  using send_loop_attempts [of 0 "nat (wc_maxRetries wc + 1)" ops wc payload w] assms
  by (simp add: sendPayload_def cong: option.case_cong)

text \<open>A world for examples: the answers to come, and what was done.\<close>

definition script_ops :: "(int list \<times> int list) http_ops" where
  "script_ops = \<lparr>ht_now = (\<lambda>w. (0, w)), ht_sleep = (\<lambda>d (as, log). (as, log @ [d])),
     ht_post = (\<lambda>t u c p (as, log). case as of [] \<Rightarrow> (Inl DeadlineExceeded, (as, log @ [0]))
        | a # as \<Rightarrow> (Inr a, (as, log @ [0])))\<rparr>"

theorem sendPayload_attempts_witness:
  "sendPayload script_ops (NewWebhookClient ''http://h'' 3 10 None) ''{}'' ([500, 200, 200], []) =
     (True, ([200], [0, 1000000000, 0]))"
proof -
  let ?wc = "NewWebhookClient ''http://h'' 3 10 None" and ?w = "([500, 200, 200] :: int list, [] :: int list)"
  have "wc_maxRetries ?wc \<le> 34" by (simp add: NewWebhookClient_def)
  note sendPayload_attempts [OF this, of script_ops "''{}''" ?w]
  moreover have "find (\<lambda>k. accepted (answer script_ops ?wc ''{}'' ?w k)) [0..<nat (wc_maxRetries ?wc + 1)] = Some 1"
    by code_simp
  moreover have "after_attempts script_ops ?wc ''{}'' (Suc 1) ?w = ([200], [0, 1000000000, 0])"
    by code_simp
  ultimately show ?thesis by simp
qed

subsection \<open>A flush reaches the webhook\<close>

lemma send_batch_payload:
  assumes "resolveWebhook aw inst = Some wc" "env_ok env (ht_now ops)" "fmt_ok (wc_formatter wc)"
    and "batch \<noteq> []" "\<forall>e \<in> set batch. event_ok env e"
  shows "\<exists>payload w' j. send_batch ops env aw inst sev batch w = sendPayload ops wc payload w'
    \<and> json_parse payload = Some j \<and> (\<forall>e \<in> set batch. told (fe_local env) (wc_formatter wc) j e)"
proof -
  obtain payload w' j where "FormatBatch env (ht_now ops) (wc_formatter wc) sev batch w = (Inr payload, w')"
    "json_parse payload = Some j" "\<forall>e \<in> set batch. told (fe_local env) (wc_formatter wc) j e"
    using wf.batch_tells [of batch env "ht_now ops" "wc_formatter wc" sev w] assms(2-5) by auto
  then show ?thesis using assms(1) by (auto simp: send_batch_def)
qed


definition script_batcher :: "(int list \<times> int list) batcher_cfg" where
  "script_batcher = \<lparr>bc_fetcher = None, bc_repeat = [], bc_high = Fin (- 8), bc_low = Fin (- 25)\<rparr>"


subsection \<open>Hot swapping\<close>

definition bar_free :: "WebhookSettings \<Rightarrow> bool" where
  "bar_free s \<longleftrightarrow> CHR ''|'' \<notin> set (ws_URL s) \<and> CHR ''|'' \<notin> set (ws_Type s) \<and> CHR ''|'' \<notin> set (ws_ChatID s)"

lemma itoa_no_bar [simp]: "CHR ''|'' \<notin> set (itoa n)"
  using itoa_chars [of "CHR ''|''" n] by (auto simp: is_digit_def)

lemma settingsKey_inj:
  assumes "bar_free s" "bar_free s'" "settingsKey s = settingsKey s'"
  shows "s = s'"
proof -
  have parts: "split_on CHR ''|'' (settingsKey s) = [if ws_Enabled s then ''true'' else ''false'', ws_URL s, ws_Type s,
      ws_ChatID s, itoa (ws_Retries s), itoa (ws_Timeout s)]" if "bar_free s" for s
    using that by (simp add: settingsKey_def bar_free_def split_on_append split_on_no_sep)
  have "ws_Enabled s = ws_Enabled s'" "ws_URL s = ws_URL s'" "ws_Type s = ws_Type s'" "ws_ChatID s = ws_ChatID s'"
    "ws_Retries s = ws_Retries s'" "ws_Timeout s = ws_Timeout s'"
    using parts [OF assms(1)] parts [OF assms(2)] assms(3) by (auto split: if_splits)
  then show ?thesis by (intro WebhookSettings.equality) simp_all
qed

text \<open>The active client is the one of the settings the key was made of.\<close>

definition in_step :: "bytes \<times> active_webhook \<Rightarrow> WebhookSettings \<Rightarrow> bool" where
  "in_step st s \<longleftrightarrow> bar_free s \<and> fst st = settingsKey s \<and> resolveWebhook (snd st) None = BuildWebhookClient s
     \<and> aw_set (snd st)"

lemma refresh_tick_in_step:
  assumes "in_step st s0" "currentWebhookSettings reg getenv whEnv w = (s, w')" "bar_free s"
  shows "in_step (fst (refresh_tick reg getenv whEnv st w)) s \<and> snd (refresh_tick reg getenv whEnv st w) = w'"
proof (cases "settingsKey s = fst st")
  case True
  then have "s = s0" using assms settingsKey_inj [of s s0] by (simp add: in_step_def)
  with True assms show ?thesis by (simp add: refresh_tick_def Let_def)
next
  case False
  with assms show ?thesis
    by (auto simp: refresh_tick_def Let_def in_step_def SetActiveWebhook_def resolveWebhook_def)
qed

lemma refresh_ticks_append:
  "refresh_ticks reg getenv whEnv (Suc n) st w =
     (case refresh_ticks reg getenv whEnv n st w of (st, w) \<Rightarrow> refresh_tick reg getenv whEnv st w)"
proof (induction n arbitrary: st w)
  case (Suc n)
  obtain st1 w1 where r: "refresh_tick reg getenv whEnv st w = (st1, w1)" by fastforce
  have "refresh_ticks reg getenv whEnv (Suc (Suc n)) st w = refresh_ticks reg getenv whEnv (Suc n) st1 w1"
    by (simp add: r)
  also note Suc.IH
  finally show ?case by (simp only: refresh_ticks.simps(2) r prod.case)
qed (simp add: case_prod_beta)

lemma refresh_ticks_in_step:
  assumes "in_step st s0" "\<forall>w. bar_free (fst (currentWebhookSettings reg getenv whEnv w))"
  shows "\<exists>s. in_step (fst (refresh_ticks reg getenv whEnv n st w)) s"
proof (induction n)
  case (Suc n)
  obtain st' w1 where r: "refresh_ticks reg getenv whEnv n st w = (st', w1)" by fastforce
  with Suc obtain s1 where "in_step st' s1" by auto
  from refresh_tick_in_step [OF this prod.collapse [symmetric], where reg = reg and getenv = getenv and whEnv = whEnv and w = w1] assms(2)
  show ?case unfolding refresh_ticks_append r prod.case by blast
qed (use assms(1) in auto)

text \<open>
  As long as the settings the refresher reads when it starts are the ones the client
  was built from, the active client after every tick is the one of the settings read at that
  tick, provided no address, type or chat id has a vertical bar.
\<close>

theorem refresher_follows:
  assumes "initWebhook reg getenv whEnv aw0 w0 = ((aw, started), w1)"
    and "currentWebhookSettings reg getenv whEnv w0 = (s, w1)" "currentWebhookSettings reg getenv whEnv w1 = (s, w2)"
    and "\<forall>w. bar_free (fst (currentWebhookSettings reg getenv whEnv w))"
    and "refresh_ticks reg getenv whEnv n (settingsKey s, aw) w2 = (st, w3)"
    and "currentWebhookSettings reg getenv whEnv w3 = (now, w4)"
  shows "webhookRefresher reg getenv whEnv (Suc n) aw w1 = (snd (fst (refresh_tick reg getenv whEnv st w3)), w4)
    \<and> resolveWebhook (fst (webhookRefresher reg getenv whEnv (Suc n) aw w1)) inst = BuildWebhookClient now"
proof -
  have bars: "bar_free s" "bar_free now" using assms(2,4,6) by (metis fst_conv)+
  then have "in_step (settingsKey s, aw) s"
    using assms(1,2) by (auto simp: initWebhook_def in_step_def SetActiveWebhook_def resolveWebhook_def)
  from refresh_ticks_in_step [OF this assms(4), of n w2] obtain s' where "in_step st s'" by (auto simp: assms(5))
  note t = refresh_tick_in_step [OF this assms(6) bars(2)]
  have r: "webhookRefresher reg getenv whEnv (Suc n) aw w1 = (snd (fst (refresh_tick reg getenv whEnv st w3)), w4)"
    using t by (simp add: webhookRefresher_def assms(3,5) refresh_ticks_append case_prod_beta del: refresh_ticks.simps)
  then show ?thesis using t by (auto simp: in_step_def resolveWebhook_def)
qed

text \<open>A registry whose settings change at the read with number \<open>k\<close>.\<close>

definition settings_body :: "bytes \<Rightarrow> bytes" where
  "settings_body url = json_print (JObj [(''data'', JObj [(''url'', JStr url), (''enabled'', JBool True)])])"

definition changing_registry :: "nat \<Rightarrow> nat reg_ops" where
  "changing_registry k = \<lparr>rg_now = (\<lambda>w. (0, w)), rg_sleep = (\<lambda>d w. w),
     rg_get = (\<lambda>url key w. (Inr (200, settings_body (if w < k then ''http://a'' else ''http://b'')), Suc w))\<rparr>"

definition registry_env :: env where
  "registry_env key = (if key = ''REGISTRY_URL'' then ''http://r'' else [])"

definition url_settings :: "bytes \<Rightarrow> WebhookSettings" where
  "url_settings url = \<lparr>ws_URL = url, ws_Type = [], ws_ChatID = [], ws_Enabled = True, ws_Retries = 0, ws_Timeout = 0\<rparr>"

lemma changing_read:
  "currentWebhookSettings (changing_registry k) registry_env s0 w
     = (url_settings (if w < k then ''http://a'' else ''http://b''), Suc w)"
proof -
  have d: "Option.bind (json_decode_first (settings_body url))
      (\<lambda>j. decode_struct [(''data'', decode_struct WebhookRemote_fields)] j zero_WebhookRemote)
      = Some (zero_WebhookRemote\<lparr>wr_URL := url, wr_Enabled := True\<rparr>)" if "url \<in> {''http://a'', ''http://b''}" for url
    using that by (elim insertE emptyE; hypsubst) code_simp+
  have "FetchWebhookConfig (changing_registry k) ''http://r'' [] w
      = (Inr (zero_WebhookRemote\<lparr>wr_URL := if w < k then ''http://a'' else ''http://b'', wr_Enabled := True\<rparr>), Suc w)"
    unfolding FetchWebhookConfig_def changing_registry_def reg_ops.simps prod.case sum.case
    by (subst d) simp_all
  moreover have "regSource registry_env = (''http://r'', [])" by (simp add: regSource_def registry_env_def)
  ultimately show ?thesis
    by (simp add: currentWebhookSettings_def url_settings_def zero_WebhookRemote_def)
qed

theorem refresher_follows_witness:
  "resolveWebhook (fst (webhookRefresher (changing_registry 2) registry_env (url_settings []) 1
       (SetActiveWebhook (BuildWebhookClient (url_settings ''http://a'')) no_active) 1)) None
     = BuildWebhookClient (url_settings ''http://b'')"
proof -
  let ?reg = "changing_registry 2" and ?s = "url_settings []" and ?a = "url_settings ''http://a''"
  let ?aw = "SetActiveWebhook (BuildWebhookClient ?a) no_active"
  have i: "initWebhook ?reg registry_env ?s no_active 0 = ((?aw, True), 1)"
    by (simp add: initWebhook_def changing_read regSource_def registry_env_def)
  have c: "currentWebhookSettings ?reg registry_env ?s 0 = (?a, 1)" "currentWebhookSettings ?reg registry_env ?s 1 = (?a, 2)"
    "currentWebhookSettings ?reg registry_env ?s 2 = (url_settings ''http://b'', 3)"
    by (simp_all add: changing_read)
  have b: "\<forall>w. bar_free (fst (currentWebhookSettings ?reg registry_env ?s w))"
    by (simp add: changing_read bar_free_def url_settings_def)
  have z: "refresh_ticks ?reg registry_env ?s 0 (settingsKey ?a, ?aw) 2 = ((settingsKey ?a, ?aw), 2)" by simp
  show ?thesis
    using refresher_follows [OF i c(1,2) b z c(3), THEN conjunct2, of None] by (simp only: One_nat_def)
qed

text \<open>
  The refresher takes the settings it reads when it starts for the ones in use: when
  they differ from those \<open>initWebhook\<close> read before, and do not change again, the active
  client is never replaced, however many ticks pass.
\<close>

theorem refresher_start_gap:
  assumes "initWebhook reg getenv whEnv aw0 w0 = ((aw, started), w1)" "P w1"
    and "\<forall>v. P v \<longrightarrow> fst (currentWebhookSettings reg getenv whEnv v) = s
           \<and> P (snd (currentWebhookSettings reg getenv whEnv v))"
  shows "fst (webhookRefresher reg getenv whEnv n aw w1) = aw"
proof -
  have "fst (refresh_ticks reg getenv whEnv n (settingsKey s, aw) v) = (settingsKey s, aw)" if "P v" for v
    using that
  proof (induction n arbitrary: v)
    case (Suc n)
    obtain v' where "currentWebhookSettings reg getenv whEnv v = (s, v')" "P v'"
      using Suc.prems assms(3) by (metis prod.collapse)
    then show ?case using Suc.IH [of v'] by (simp add: refresh_tick_def)
  qed simp
  moreover obtain w2 where "currentWebhookSettings reg getenv whEnv w1 = (s, w2)" "P w2"
    using assms(2,3) by (metis prod.collapse)
  ultimately show ?thesis
    by (simp add: webhookRefresher_def case_prod_beta)
qed

theorem refresher_start_gap_witness:
  "resolveWebhook (fst (webhookRefresher (changing_registry 1) registry_env (url_settings []) 1000
       (SetActiveWebhook (BuildWebhookClient (url_settings ''http://a'')) no_active) 1)) None
     = BuildWebhookClient (url_settings ''http://a'')"
proof -
  let ?reg = "changing_registry 1" and ?s = "url_settings []"
  let ?aw = "SetActiveWebhook (BuildWebhookClient (url_settings ''http://a'')) no_active"
  have i: "initWebhook ?reg registry_env ?s no_active 0 = ((?aw, True), 1)"
    by (simp add: initWebhook_def changing_read regSource_def registry_env_def)
  have p: "\<forall>v. 1 \<le> v \<longrightarrow> fst (currentWebhookSettings ?reg registry_env ?s v) = url_settings ''http://b''
      \<and> 1 \<le> snd (currentWebhookSettings ?reg registry_env ?s v)"
    by (simp add: changing_read)
  have "fst (webhookRefresher ?reg registry_env ?s 1000 ?aw 1) = ?aw"
    by (rule refresher_start_gap [OF i _ p]) simp
  then show ?thesis by (simp add: resolveWebhook_def SetActiveWebhook_def)
qed

end
