(* ===== verification/Trap_Handler.thy ===== *)
theory Trap_Handler
  imports Webhook_Client Onu_Queries
begin

text \<open>
  \<open>internal/trap/handler.go\<close>: what a trap event leads to. The handler, the batcher and the
  power monitor ask the device through the interface \<open>ONUDetailFetcher\<close>; its contract is the
  locale \<open>detail_source\<close>, which the ONU queries fulfil.
\<close>

text \<open>The event with the values of a live read.\<close>

definition verified_event :: "ONUCustomerInfo \<Rightarrow> TrapEvent \<Rightarrow> TrapEvent" where
  "verified_event detail e =
     (let e = (if cu_Name detail \<noteq> [] then e\<lparr>ev_Name := cu_Name detail\<rparr> else e);
          e = (if cu_Description detail \<noteq> [] then e\<lparr>ev_Description := cu_Description detail\<rparr> else e)
      in e\<lparr>ev_OnuType := cu_OnuType detail, ev_SerialNumber := cu_SerialNumber detail,
           ev_RXPower := cu_RXPower detail, ev_LastOffline := cu_LastOffline detail,
           ev_LastOnline := cu_LastOnline detail, ev_Status := cu_Status detail,
           ev_EventType := resolveEventType (cu_Status detail) (cu_LastOfflineReason detail)\<rparr>)"

text \<open>The queues and the events that goroutines send, after the alert filter.\<close>

definition alert_or_clear ::
    "active_webhook \<Rightarrow> WebhookClient option \<Rightarrow> TrapEvent \<Rightarrow> queues option
     \<Rightarrow> queues option \<times> (WebhookClient \<times> TrapEvent) list" where
  "alert_or_clear aw inst event batcher =
     (if ev_EventType event \<notin> set alertEventTypes then (map_option (Batcher_Remove event) batcher, [])
      else dispatch aw inst event batcher)"

definition HandleEvent ::
    "'w detail_fetcher option \<Rightarrow> active_webhook \<Rightarrow> WebhookClient option \<Rightarrow> TrapEvent \<Rightarrow> queues option \<Rightarrow> 'w
     \<Rightarrow> (queues option \<times> (WebhookClient \<times> TrapEvent) list) \<times> 'w" where
  "HandleEvent fetcher aw inst event batcher w =
     (if ev_Board event = 0 \<or> ev_PON event = 0 \<or> ev_OnuID event = 0 then ((batcher, []), w)
      else case fetcher of
        None \<Rightarrow> (alert_or_clear aw inst event batcher, w)
      | Some f \<Rightarrow>
          (case ft_detail f (ev_Board event) (ev_PON event) (ev_OnuID event)
                  (ft_invalidate f (ev_Board event) (ev_PON event) (ev_OnuID event) w) of
             (Inl err, w) \<Rightarrow> ((batcher, []), w)
           | (Inr detail, w) \<Rightarrow>
               if cu_ID detail = 0 then ((batcher, []), w)
               else (alert_or_clear aw inst (verified_event detail event) batcher, w)))"

lemma verified_event_fields [simp]:
  "ev_Board (verified_event d e) = ev_Board e" "ev_PON (verified_event d e) = ev_PON e"
  "ev_OnuID (verified_event d e) = ev_OnuID e" "ev_Status (verified_event d e) = cu_Status d"
  "ev_EventType (verified_event d e) = resolveEventType (cu_Status d) (cu_LastOfflineReason d)"
  "ev_SerialNumber (verified_event d e) = cu_SerialNumber d" "ev_RXPower (verified_event d e) = cu_RXPower d"
  "ev_Name (verified_event d e) = (if cu_Name d = [] then ev_Name e else cu_Name d)"
  by (simp_all add: verified_event_def Let_def)

lemma verified_event_key [simp]: "onuKey (verified_event d e) = onuKey e"
  by (simp add: onuKey_def)

subsection \<open>The contract of the fetcher\<close>

text \<open>
  For the ports that are covered, a read after the invalidation succeeds and its result is what
  the device holds: \<open>holds b p n d\<close>.
\<close>

locale detail_source =
  fixes fetcher :: "'w detail_fetcher"
    and covered :: "int \<Rightarrow> int \<Rightarrow> bool"
    and holds :: "int \<Rightarrow> int \<Rightarrow> int \<Rightarrow> ONUCustomerInfo \<Rightarrow> bool"
  assumes live: "covered b p \<Longrightarrow> \<exists>d w'. ft_detail fetcher b p n (ft_invalidate fetcher b p n w) = (Inr d, w') \<and> holds b p n d"
begin

lemma handler_follows_device:
  assumes "covered (ev_Board e) (ev_PON e)" "ev_Board e \<noteq> 0" "ev_PON e \<noteq> 0" "ev_OnuID e \<noteq> 0"
  shows "\<exists>d w'. holds (ev_Board e) (ev_PON e) (ev_OnuID e) d
    \<and> HandleEvent (Some fetcher) aw inst e batcher w
      = ((if cu_ID d = 0 then (batcher, []) else alert_or_clear aw inst (verified_event d e) batcher), w')"
proof -
  obtain d w' where "ft_detail fetcher (ev_Board e) (ev_PON e) (ev_OnuID e)
      (ft_invalidate fetcher (ev_Board e) (ev_PON e) (ev_OnuID e) w) = (Inr d, w')"
    "holds (ev_Board e) (ev_PON e) (ev_OnuID e) d"
    using live [OF assms(1)] by blast
  then show ?thesis using assms(2-4) by (auto simp: HandleEvent_def)
qed

lemma flush_follows_device:
  assumes "bc_fetcher cfg = Some fetcher" "waits cfg clock sev entry w = (False, w1)" "e = be_event entry"
    and "covered (ev_Board e) (ev_PON e)"
  shows "\<exists>d w'. holds (ev_Board e) (ev_PON e) (ev_OnuID e) d
    \<and> flush_entry cfg clock sev entry w = (verify_detail cfg sev (Inr d) e, w')"
proof -
  obtain d w' where "ft_detail fetcher (ev_Board e) (ev_PON e) (ev_OnuID e)
      (ft_invalidate fetcher (ev_Board e) (ev_PON e) (ev_OnuID e) w1) = (Inr d, w')"
    "holds (ev_Board e) (ev_PON e) (ev_OnuID e) d"
    using live [OF assms(4)] by blast
  then show ?thesis using assms(1-3) by (auto simp: flush_entry_def)
qed

end

subsection \<open>The ONU queries as the fetcher\<close>

definition usecase_fetcher :: "(bytes, snmp_pdu) range_ord \<Rightarrow> 'w onu_uc \<Rightarrow> 'w detail_fetcher" where
  "usecase_fetcher ord u =
     \<lparr>ft_invalidate = (\<lambda>b p n w. snd (InvalidateONUCache u b p n w)),
      ft_detail = GetByBoardIDPonIDAndOnuID ord u\<rparr>"

text \<open>A port whose device answers for the ONUs \<open>onus\<close> with the leaves \<open>val\<close>.\<close>

definition served_port ::
    "'w onu_uc \<Rightarrow> int \<Rightarrow> int \<Rightarrow> OnuOltConfig \<Rightarrow> (int \<times> snmp_value) list \<Rightarrow> _ \<Rightarrow> bool" where
  "served_port u b p c onus val \<longleftrightarrow> getOltConfig u b p = Inr c \<and> serves (uc_snmp u) c onus val \<and> onu_numbers onus"

definition device_detail :: "'w onu_uc \<Rightarrow> int \<Rightarrow> int \<Rightarrow> int \<Rightarrow> ONUCustomerInfo \<Rightarrow> bool" where
  "device_detail u b p n d \<longleftrightarrow> (\<forall>c onus val. served_port u b p c onus val \<longrightarrow>
     (\<forall>onu \<in> set onus. fst onu = n \<longrightarrow> list_view d = list_entry u c b p val onu \<and> shows_onu u c val onu d)
     \<and> (n \<notin> fst ` set onus \<longrightarrow> d = zero_ONUCustomerInfo))"

lemma detail_of_device:
  assumes "range_order ord" "served_port u b p c onus val"
  shows "\<exists>d w'. GetByBoardIDPonIDAndOnuID ord u b p n w = (Inr d, w') \<and> device_detail u b p n d"
proof -
  have ex: "\<exists>d. fst (GetByBoardIDPonIDAndOnuID ord u b p n w) = Inr d
      \<and> (\<forall>onu \<in> set onus. fst onu = n \<longrightarrow> list_view d = list_entry u c b p val onu \<and> shows_onu u c val onu d)
      \<and> (n \<notin> fst ` set onus \<longrightarrow> d = zero_ONUCustomerInfo)"
    if "served_port u b p c onus val" for c onus val
  proof -
    have g: "getOltConfig u b p = Inr c" "serves (uc_snmp u) c onus val" "onu_numbers onus"
      using that by (simp_all add: served_port_def)
    note s = detail_served [OF g assms(1), where i = n and w = w]
    show ?thesis
    proof (cases "n \<in> fst ` set onus")
      case True
      then obtain onu where o: "onu \<in> set onus" "fst onu = n" by auto
      obtain d where d: "fst (GetByBoardIDPonIDAndOnuID ord u b p n w) = Inr d"
        "list_view d = list_entry u c b p val onu" "shows_onu u c val onu d"
        using bspec [OF conjunct1 [OF s] o(1)] unfolding o(2) by (elim exE conjE)
      have one: "onu' = onu" if "onu' \<in> set onus" "fst onu' = n" for onu'
        using that o g(3) by (simp add: onu_numbers_def distinct_map inj_on_def)
      show ?thesis
      proof (intro exI conjI ballI impI)
        show "fst (GetByBoardIDPonIDAndOnuID ord u b p n w) = Inr d" by (rule d(1))
        fix onu' assume "onu' \<in> set onus" "fst onu' = n"
        from one [OF this] show "list_view d = list_entry u c b p val onu'" "shows_onu u c val onu' d"
          using d(2,3) by simp_all
      qed (use True in simp)
    qed (use s in blast)
  qed
  obtain d where d: "fst (GetByBoardIDPonIDAndOnuID ord u b p n w) = Inr d" using ex [OF assms(2)] by blast
  have "device_detail u b p n d"
    unfolding device_detail_def using ex d by (metis sum.inject(2))
  with d show ?thesis by (metis prod.collapse)
qed

interpretation dev: detail_source "usecase_fetcher ord u"
    "\<lambda>b p. range_order ord \<and> (\<exists>c onus val. served_port u b p c onus val)" "device_detail u" for ord u
  by unfold_locales (use detail_of_device in \<open>fastforce simp: usecase_fetcher_def\<close>)

subsection \<open>From the trap to the queue\<close>

text \<open>
  C7. What a trap leads to is decided by the device and not by the trap. For a trap with
  one name variable of an ONU that is on the port, the handler reads the ONU live and queues an
  event with the status, serial number and power of that read when the status is an alert, and
  otherwise takes the ONU out of all queues.
\<close>

theorem trap_to_queue:
  assumes "vars = before @ \<lparr>pdu_Name = oid_join OIDOnuName (onu_id_suffix b p) @ ''.'' @ itoa (fst onu), pdu_Value = x\<rparr> # after"
    and "\<forall>v \<in> set after. \<not> has_prefix (pdu_Name v) (OIDOnuName @ ''.'')"
    and "valid_slot b" "valid_pon p" "fst onu \<noteq> 0"
    and "range_order ord" "served_port u b p c onus val" "onu \<in> set onus"
  shows "\<exists>d e w'. list_view d = list_entry u c b p val onu \<and> shows_onu u c val onu d
    \<and> ev_Board e = b \<and> ev_PON e = p \<and> ev_OnuID e = fst onu \<and> ev_Status e = cu_Status d
    \<and> ev_SerialNumber e = cu_SerialNumber d \<and> ev_RXPower e = cu_RXPower d
    \<and> ev_EventType e = resolveEventType (cu_Status d) (cu_LastOfflineReason d)
    \<and> HandleEvent (Some (usecase_fetcher ord u)) aw inst (handleTrap now source vars) (Some gs) w
      = ((Some (if ev_EventType e \<in> set alertEventTypes then Batcher_Add e gs else Batcher_Remove e gs), []), w')"
proof -
  let ?t = "handleTrap now source vars"
  have n: "in_int64 (fst onu)" using assms(7,8) by (simp add: served_port_def onu_numbers_def)
  have t: "ev_Board ?t = b" "ev_PON ?t = p" "ev_OnuID ?t = fst onu"
    using handleTrap_locates [OF assms(1-4) n] by blast+
  have z: "b \<noteq> 0" "p \<noteq> 0" using assms(3,4) by (auto simp: valid_slot_def valid_pon_def)
  obtain d w' where d: "device_detail u b p (fst onu) d"
    "HandleEvent (Some (usecase_fetcher ord u)) aw inst ?t (Some gs) w
      = ((if cu_ID d = 0 then (Some gs, []) else alert_or_clear aw inst (verified_event d ?t) (Some gs)), w')"
    using dev.handler_follows_device [of ord u ?t aw inst "Some gs" w] assms(5-7) t z by auto
  then have v: "list_view d = list_entry u c b p val onu" "shows_onu u c val onu d"
    using assms(7,8) by (auto simp: device_detail_def)
  then have "cu_ID d = fst onu" by (simp add: list_view_def list_entry_def)
  with d v t assms(5) show ?thesis
    by (intro exI [of _ d] exI [of _ "verified_event d ?t"] exI [of _ w'])
      (simp add: alert_or_clear_def dispatch_def)
qed


subsection \<open>Examples\<close>

lemma ex_port_served: "served_port ex_uc 1 1 ex_olt ex_onus ex_val"
  by (simp add: served_port_def ex_uc_facts)

theorem trap_to_queue_witness:
  "\<exists>gs. fst (HandleEvent (Some (usecase_fetcher rev ex_uc)) no_active None
       (handleTrap 5 ''10.0.0.1'' [\<lparr>pdu_Name = oid_join OIDOnuName (onu_id_suffix 1 1) @ ''.'' @ itoa 7, pdu_Value = VBytes ''onu''\<rparr>])
       (Some (Batcher_Add (zero_event\<lparr>ev_Board := 1, ev_PON := 1, ev_OnuID := 7, ev_EventType := ''LOS''\<rparr>) [])) []) = (Some gs, [])
     \<and> gm_get (queue_of gs SeverityCritical) ''1-1-7'' = None"
proof -
  let ?gs = "Batcher_Add (zero_event\<lparr>ev_Board := 1, ev_PON := 1, ev_OnuID := 7, ev_EventType := ''LOS''\<rparr>) []"
  have o: "(7, VBytes ''bob'') \<in> set ex_onus" by (simp add: ex_onus_def)
  have v: "valid_slot 1" "valid_pon 1" by (simp_all add: valid_slot_def valid_pon_def oid_consts)
  obtain d e w' where d: "list_view d = list_entry ex_uc ex_olt 1 1 ex_val (7, VBytes ''bob'')"
    and e: "ev_Board e = 1" "ev_PON e = 1" "ev_OnuID e = 7"
      "ev_EventType e = resolveEventType (cu_Status d) (cu_LastOfflineReason d)"
    and h: "HandleEvent (Some (usecase_fetcher rev ex_uc)) no_active None
       (handleTrap 5 ''10.0.0.1'' [\<lparr>pdu_Name = oid_join OIDOnuName (onu_id_suffix 1 1) @ ''.'' @ itoa 7, pdu_Value = VBytes ''onu''\<rparr>])
       (Some ?gs) [] = ((Some (if ev_EventType e \<in> set alertEventTypes then Batcher_Add e ?gs else Batcher_Remove e ?gs), []), w')"
    using trap_to_queue [OF _ _ v _ range_order_rev ex_port_served o, of _ "[]" "VBytes ''onu''" "[]" no_active None 5 "''10.0.0.1''" ?gs "[]"]
    by auto
  have "cu_Status d = ExtractAndGetStatus (VInt 4)"
    using arg_cong [OF d, of oi_Status] by (simp only: list_view_def list_entry_def ONUInfoPerBoard.simps ex_val_def)
  then have "ev_EventType e = ''Online''" using e(4) resolve_status_codes(4) by metis
  then have "fst (HandleEvent (Some (usecase_fetcher rev ex_uc)) no_active None
       (handleTrap 5 ''10.0.0.1'' [\<lparr>pdu_Name = oid_join OIDOnuName (onu_id_suffix 1 1) @ ''.'' @ itoa 7, pdu_Value = VBytes ''onu''\<rparr>])
       (Some ?gs) []) = (Some (Batcher_Remove e ?gs), [])"
    unfolding h by (simp add: alertEventTypes_def)
  moreover have "onuKey e = ''1-1-7''" unfolding onuKey_def e(1-3) by code_simp
  ultimately show ?thesis by (simp add: queue_of_Remove map_simps)
qed

definition los_uc :: "(bytes, bytes) gomap onu_uc" where
  "los_uc = ex_uc\<lparr>uc_snmp := table_device ex_olt ex_onus (\<lambda>_. VInt 2)\<rparr>"

lemma los_port_served: "served_port los_uc 1 1 ex_olt ex_onus (\<lambda>_. VInt 2)"
proof -
  have "getOltConfig los_uc 1 1 = getOltConfig ex_uc 1 1"
    by (simp add: los_uc_def getOltConfig_def getBoardConfig_def cong: sum.case_cong)
  then show ?thesis
    by (simp add: served_port_def ex_uc_config ex_uc_numbers) (simp add: los_uc_def table_device_serves)
qed


end
