(* ===== verification/Power_Monitor.thy ===== *)
theory Power_Monitor
  imports Trap_Handler
begin

text \<open>
  \<open>internal/trap/power_monitor.go\<close>: a scan over the configured ports that alerts on the
  receive power of ONUs outside the thresholds, once per ONU in 30 minutes. What
  starts a scan is in \<open>Trap_Service\<close>.
\<close>

record PowerMonitorConfig =
  pm_Interval :: int
  pm_Cron :: bytes
  pm_Timezone :: bytes
  pm_HighThreshold :: f64
  pm_LowThreshold :: f64
  pm_Source :: bytes
  pm_Boards :: "int list"
  pm_PonsPerBoard :: int

type_synonym 'w list_fetcher = "int \<Rightarrow> int \<Rightarrow> 'w \<Rightarrow> (gerror + ONUInfoPerBoard list) \<times> 'w"

record monitor =
  pm_alerted :: "(bytes, instant) gomap"
  pm_batcher :: "queues option"
  pm_sent :: "(WebhookClient \<times> TrapEvent) list"

definition alert_pause :: int where
  "alert_pause = 30 * 60 * 1000000000"

definition shouldAlert ::
    "'w clock \<Rightarrow> bytes \<Rightarrow> (bytes, instant) gomap \<Rightarrow> 'w \<Rightarrow> (bool \<times> (bytes, instant) gomap) \<times> 'w" where
  "shouldAlert clock key alerted w =
     (let note = (\<lambda>w. case clock w of (now, w) \<Rightarrow> ((True, gm_set key now alerted), w)) in
      case gm_get alerted key of
        None \<Rightarrow> note w
      | Some lastAlert \<Rightarrow>
          (case clock w of
             (now, w) \<Rightarrow> if time_sub now lastAlert < alert_pause then ((False, alerted), w) else note w))"

definition sendAlert ::
    "'w clock \<Rightarrow> PowerMonitorConfig \<Rightarrow> active_webhook \<Rightarrow> WebhookClient option \<Rightarrow> ONUInfoPerBoard \<Rightarrow> bytes \<Rightarrow> bytes
     \<Rightarrow> monitor \<Rightarrow> 'w \<Rightarrow> monitor \<times> 'w" where
  "sendAlert clock cfg aw inst onu eventType description st w =
     (case clock w of
        (now, w) \<Rightarrow>
          (let event = zero_event\<lparr>ev_Timestamp := now, ev_Source := pm_Source cfg, ev_Board := oi_Board onu,
                 ev_PON := oi_PON onu, ev_OnuID := oi_ID onu, ev_EventType := eventType,
                 ev_Status := oi_Status onu, ev_Name := oi_Name onu, ev_OnuType := oi_OnuType onu,
                 ev_SerialNumber := oi_SerialNumber onu, ev_RXPower := oi_RXPower onu,
                 ev_Description := description\<rparr>
           in case dispatch aw inst event (pm_batcher st) of
                (batcher, out) \<Rightarrow> (st\<lparr>pm_batcher := batcher, pm_sent := pm_sent st @ out\<rparr>, w)))"

definition alert_key :: "int \<Rightarrow> int \<Rightarrow> int \<Rightarrow> bytes" where
  "alert_key b p n = itoa b @ ''-'' @ itoa p @ ''-'' @ itoa n"

definition power_place :: "int \<Rightarrow> int \<Rightarrow> int \<Rightarrow> f64 \<Rightarrow> bytes" where
  "power_place b p n rx =
     ''ONU '' @ itoa b @ ''/'' @ itoa p @ ''/'' @ itoa n @ '' RX Power '' @ format_fixed 2 rx @ '' dBm ''"

text \<open>An alert of one ONU, when it is due.\<close>

definition alert_onu ::
    "'w clock \<Rightarrow> PowerMonitorConfig \<Rightarrow> active_webhook \<Rightarrow> WebhookClient option \<Rightarrow> bytes \<Rightarrow> ONUInfoPerBoard \<Rightarrow> bytes \<Rightarrow> bytes
     \<Rightarrow> monitor \<Rightarrow> 'w \<Rightarrow> monitor \<times> 'w" where
  "alert_onu clock cfg aw inst key onu eventType description st w =
     (case shouldAlert clock key (pm_alerted st) w of
        ((due, alerted), w) \<Rightarrow>
          (let st = st\<lparr>pm_alerted := alerted\<rparr> in
           if due then sendAlert clock cfg aw inst onu eventType description st w else (st, w)))"

definition scan_onu ::
    "'w clock \<Rightarrow> PowerMonitorConfig \<Rightarrow> active_webhook \<Rightarrow> WebhookClient option \<Rightarrow> int \<Rightarrow> int \<Rightarrow> ONUInfoPerBoard
     \<Rightarrow> monitor \<Rightarrow> 'w \<Rightarrow> monitor \<times> 'w" where
  "scan_onu clock cfg aw inst b p onu st w =
     (if oi_RXPower onu = [] then (st, w)
      else case parse_float (oi_RXPower onu) of
        None \<Rightarrow> (st, w)
      | Some rx \<Rightarrow>
          (let key = alert_key b p (oi_ID onu) in
           if f64_less (pm_HighThreshold cfg) rx
           then alert_onu clock cfg aw inst key onu ''HighRxPower''
                  (power_place b p (oi_ID onu) rx @ ''exceeds high threshold ''
                   @ format_fixed 1 (pm_HighThreshold cfg) @ '' dBm (overload risk)'') st w
           else if f64_less rx (pm_LowThreshold cfg)
           then alert_onu clock cfg aw inst key onu ''LowRxPower''
                  (power_place b p (oi_ID onu) rx @ ''below low threshold ''
                   @ format_fixed 1 (pm_LowThreshold cfg) @ '' dBm (weak signal)'') st w
           else (st\<lparr>pm_alerted := gm_del key (pm_alerted st)\<rparr>, w)))"

fun scan_onus ::
    "'w clock \<Rightarrow> PowerMonitorConfig \<Rightarrow> active_webhook \<Rightarrow> WebhookClient option \<Rightarrow> int \<Rightarrow> int \<Rightarrow> ONUInfoPerBoard list
     \<Rightarrow> monitor \<Rightarrow> 'w \<Rightarrow> monitor \<times> 'w" where
  "scan_onus clock cfg aw inst b p [] st w = (st, w)"
| "scan_onus clock cfg aw inst b p (onu # onus) st w =
     (case scan_onu clock cfg aw inst b p onu st w of (st, w) \<Rightarrow> scan_onus clock cfg aw inst b p onus st w)"

fun scan_ports ::
    "'w clock \<Rightarrow> PowerMonitorConfig \<Rightarrow> 'w list_fetcher \<Rightarrow> active_webhook \<Rightarrow> WebhookClient option \<Rightarrow> (int \<times> int) list
     \<Rightarrow> monitor \<Rightarrow> 'w \<Rightarrow> monitor \<times> 'w" where
  "scan_ports clock cfg fetch aw inst [] st w = (st, w)"
| "scan_ports clock cfg fetch aw inst ((b, p) # ports) st w =
     (case fetch b p w of
        (Inl err, w) \<Rightarrow> scan_ports clock cfg fetch aw inst ports st w
      | (Inr onus, w) \<Rightarrow>
          (case scan_onus clock cfg aw inst b p onus st w of
             (st, w) \<Rightarrow> scan_ports clock cfg fetch aw inst ports st w))"

definition scanned_ports :: "PowerMonitorConfig \<Rightarrow> (int \<times> int) list" where
  "scanned_ports cfg =
     (let boards = (if pm_Boards cfg = [] then [1, 2] else pm_Boards cfg);
          pons = (if pm_PonsPerBoard cfg < 1 then 16 else pm_PonsPerBoard cfg)
      in concat (map (\<lambda>b. map (\<lambda>p. (b, p)) [1..pons]) boards))"

definition scan ::
    "'w clock \<Rightarrow> PowerMonitorConfig \<Rightarrow> 'w list_fetcher \<Rightarrow> active_webhook \<Rightarrow> WebhookClient option
     \<Rightarrow> monitor \<Rightarrow> 'w \<Rightarrow> monitor \<times> 'w" where
  "scan clock cfg fetch aw inst st w = scan_ports clock cfg fetch aw inst (scanned_ports cfg) st w"

subsection \<open>One alert in 30 minutes\<close>

text \<open>Whether a list entry has a reading, and one outside the thresholds.\<close>

definition reading :: "ONUInfoPerBoard \<Rightarrow> f64 option" where
  "reading onu = (if oi_RXPower onu = [] then None else parse_float (oi_RXPower onu))"

definition abnormal :: "PowerMonitorConfig \<Rightarrow> f64 \<Rightarrow> bool" where
  "abnormal cfg rx \<longleftrightarrow> f64_less (pm_HighThreshold cfg) rx \<or> f64_less rx (pm_LowThreshold cfg)"

definition recent :: "'w clock \<Rightarrow> instant option \<Rightarrow> 'w \<Rightarrow> bool" where
  "recent clock t w = (case t of None \<Rightarrow> False | Some t \<Rightarrow> time_sub (fst (clock w)) t < alert_pause)"

lemma shouldAlert_result:
  "fst (fst (shouldAlert clock key al w)) = (\<not> recent clock (gm_get al key) w)"
  "recent clock (gm_get al key) w \<Longrightarrow> shouldAlert clock key al w = ((False, al), snd (clock w))"
  "k \<noteq> key \<Longrightarrow> gm_get (snd (fst (shouldAlert clock key al w))) k = gm_get al k"
  by (auto simp: shouldAlert_def recent_def map_simps Let_def split: prod.splits option.splits)

text \<open>What a visit adds to the events that are sent without a batcher.\<close>

lemma alert_onu_sent:
  assumes "pm_batcher st = None"
  shows "\<exists>new. pm_sent (fst (alert_onu clock cfg aw inst key onu ty d st w)) = pm_sent st @ new
    \<and> (recent clock (gm_get (pm_alerted st) key) w \<longrightarrow> new = [])
    \<and> (\<forall>e \<in> snd ` set new. onuKey e = alert_key (oi_Board onu) (oi_PON onu) (oi_ID onu) \<and> ev_EventType e = ty)
    \<and> pm_batcher (fst (alert_onu clock cfg aw inst key onu ty d st w)) = None"
  using assms shouldAlert_result(1) [of clock key "pm_alerted st" w]
  by (auto simp: alert_onu_def sendAlert_def dispatch_def onuKey_def alert_key_def zero_event_def Let_def
      split: prod.splits option.splits)

lemma alert_onu_alerted:
  "pm_alerted (fst (alert_onu clock cfg aw inst key onu ty d st w)) = snd (fst (shouldAlert clock key (pm_alerted st) w))"
  by (auto simp: alert_onu_def sendAlert_def Let_def split: prod.splits)

lemma scan_onu_cases:
  "scan_onu clock cfg aw inst b p onu st w =
     (case reading onu of
        None \<Rightarrow> (st, w)
      | Some rx \<Rightarrow>
          (let key = alert_key b p (oi_ID onu) in
           if abnormal cfg rx
           then (let high = f64_less (pm_HighThreshold cfg) rx in
                 alert_onu clock cfg aw inst key onu (if high then ''HighRxPower'' else ''LowRxPower'')
                   (power_place b p (oi_ID onu) rx @
                    (if high then ''exceeds high threshold '' @ format_fixed 1 (pm_HighThreshold cfg) @ '' dBm (overload risk)''
                     else ''below low threshold '' @ format_fixed 1 (pm_LowThreshold cfg) @ '' dBm (weak signal)'')) st w)
           else (st\<lparr>pm_alerted := gm_del key (pm_alerted st)\<rparr>, w)))"
  by (simp add: scan_onu_def reading_def abnormal_def Let_def split: option.split)

text \<open>
  C37. Without a batcher a visit of an ONU sends one event exactly when its power text is a
  number outside the thresholds and no alert of it is younger than 30 minutes; the event names the
  ONU and is of medium severity. A reading within the thresholds clears the pause.
\<close>

theorem scan_onu_alerts:
  assumes "pm_batcher st = None" "resolveWebhook aw inst = Some wc"
    and "key = alert_key b p (oi_ID onu)" "st' = fst (scan_onu clock cfg aw inst b p onu st w)"
  shows "(case reading onu of
        None \<Rightarrow> st' = st
      | Some rx \<Rightarrow>
          if \<not> abnormal cfg rx then pm_sent st' = pm_sent st \<and> gm_get (pm_alerted st') key = None
          else if recent clock (gm_get (pm_alerted st) key) w then st' = st
          else (\<exists>e. pm_sent st' = pm_sent st @ [(wc, e)] \<and> gm_get (pm_alerted st') key \<noteq> None
                 \<and> onuKey e = alert_key (oi_Board onu) (oi_PON onu) (oi_ID onu)
                 \<and> ev_RXPower e = oi_RXPower onu \<and> eventSeverity (ev_EventType e) = SeverityMedium))"
proof -
  have sev: "eventSeverity ''HighRxPower'' = SeverityMedium" "eventSeverity ''LowRxPower'' = SeverityMedium"
    by code_simp+
  have quiet: "fst (alert_onu clock cfg aw inst key onu ty d st w) = st"
    if "recent clock (gm_get (pm_alerted st) key) w" for ty d
    using shouldAlert_result(2) [OF that] by (simp add: alert_onu_def)
  have due: "\<exists>e. pm_sent (fst (alert_onu clock cfg aw inst key onu ty d st w)) = pm_sent st @ [(wc, e)]
      \<and> gm_get (pm_alerted (fst (alert_onu clock cfg aw inst key onu ty d st w))) key \<noteq> None
      \<and> onuKey e = alert_key (oi_Board onu) (oi_PON onu) (oi_ID onu) \<and> ev_RXPower e = oi_RXPower onu \<and> ev_EventType e = ty"
    if "\<not> recent clock (gm_get (pm_alerted st) key) w" for ty d
    using that shouldAlert_result(1) [of clock key "pm_alerted st" w] assms(1,2)
    by (auto simp: alert_onu_def sendAlert_def dispatch_def onuKey_def alert_key_def Let_def shouldAlert_def map_simps
        split: prod.splits option.splits if_splits)
  show ?thesis
  proof (cases "reading onu")
    case (Some rx)
    show ?thesis
    proof (cases "abnormal cfg rx \<and> \<not> recent clock (gm_get (pm_alerted st) key) w")
      case True
      define ty where "ty = (if f64_less (pm_HighThreshold cfg) rx then ''HighRxPower'' else ''LowRxPower'')"
      have "eventSeverity ty = SeverityMedium" using sev by (simp add: ty_def)
      moreover obtain d where "st' = fst (alert_onu clock cfg aw inst key onu ty d st w)"
        using True Some assms(3,4) by (simp add: scan_onu_cases Let_def ty_def)
      moreover note due [of ty d]
      ultimately show ?thesis using True Some by auto
    qed (use Some quiet assms(3,4) in \<open>auto simp: scan_onu_cases Let_def map_simps\<close>)
  qed (simp add: assms(4) scan_onu_cases)
qed

text \<open>
  During scans all of whose clock readings are within 30 minutes of the alert of an ONU, and in
  which no reading of it is normal, nothing more is sent for it.
\<close>

definition quiet_for :: "'w clock \<Rightarrow> bytes \<Rightarrow> instant \<Rightarrow> monitor \<Rightarrow> bool" where
  "quiet_for clock key t st \<longleftrightarrow> pm_batcher st = None \<and> gm_get (pm_alerted st) key = Some t
     \<and> (\<forall>w. time_sub (fst (clock w)) t < alert_pause)"

definition not_normal :: "PowerMonitorConfig \<Rightarrow> bytes \<Rightarrow> int \<Rightarrow> int \<Rightarrow> ONUInfoPerBoard \<Rightarrow> bool" where
  "not_normal cfg key b p onu \<longleftrightarrow> oi_Board onu = b \<and> oi_PON onu = p
     \<and> (alert_key b p (oi_ID onu) = key \<longrightarrow> (\<forall>rx. reading onu = Some rx \<longrightarrow> abnormal cfg rx))"

definition adds_others :: "bytes \<Rightarrow> monitor \<Rightarrow> monitor \<Rightarrow> bool" where
  "adds_others key st st' \<longleftrightarrow> (\<exists>new. pm_sent st' = pm_sent st @ new \<and> (\<forall>e \<in> snd ` set new. onuKey e \<noteq> key))"

lemma adds_others_refl [simp]: "adds_others key st st"
  by (simp add: adds_others_def)

lemma adds_others_trans: "\<lbrakk>adds_others key st st1; adds_others key st1 st2\<rbrakk> \<Longrightarrow> adds_others key st st2"
  unfolding adds_others_def by (force simp: image_Un)

lemma scan_onu_quiet:
  assumes "quiet_for clock key t st" "not_normal cfg key b p onu"
  shows "quiet_for clock key t (fst (scan_onu clock cfg aw inst b p onu st w))
    \<and> adds_others key st (fst (scan_onu clock cfg aw inst b p onu st w))"
proof -
  let ?k = "alert_key b p (oi_ID onu)"
  have alert: "quiet_for clock key t (fst (alert_onu clock cfg aw inst ?k onu ty d st w))
    \<and> adds_others key st (fst (alert_onu clock cfg aw inst ?k onu ty d st w))" for ty d
  proof -
    have b: "pm_batcher st = None" using assms(1) by (simp add: quiet_for_def)
    obtain new where n: "pm_sent (fst (alert_onu clock cfg aw inst ?k onu ty d st w)) = pm_sent st @ new"
      "recent clock (gm_get (pm_alerted st) ?k) w \<longrightarrow> new = []"
      "\<forall>e \<in> snd ` set new. onuKey e = ?k"
      "pm_batcher (fst (alert_onu clock cfg aw inst ?k onu ty d st w)) = None"
      using alert_onu_sent [OF b, of clock cfg aw inst ?k onu ty d w] assms(2) by (auto simp: not_normal_def)
    have r: "?k = key \<Longrightarrow> recent clock (gm_get (pm_alerted st) ?k) w"
      using assms(1) by (simp add: quiet_for_def recent_def)
    have "gm_get (pm_alerted (fst (alert_onu clock cfg aw inst ?k onu ty d st w))) key = Some t"
      using assms(1) r shouldAlert_result(2) [of clock "pm_alerted st" ?k w]
        shouldAlert_result(3) [of key ?k clock "pm_alerted st" w]
      by (cases "?k = key") (auto simp: alert_onu_alerted quiet_for_def)
    moreover have "\<forall>e \<in> snd ` set new. onuKey e \<noteq> key" using n(2,3) r by (cases "?k = key") auto
    ultimately show ?thesis using n(1,4) assms(1) by (auto simp: quiet_for_def adds_others_def)
  qed
  show ?thesis
  proof (cases "reading onu")
    case (Some rx)
    show ?thesis
    proof (cases "abnormal cfg rx")
      case False
      then have "?k \<noteq> key" using assms(2) Some by (auto simp: not_normal_def)
      with False Some assms(1) show ?thesis
        by (auto simp: scan_onu_cases Let_def quiet_for_def adds_others_def map_simps)
    qed (use Some alert in \<open>simp add: scan_onu_cases Let_def\<close>)
  qed (use assms(1) in \<open>simp add: scan_onu_cases\<close>)
qed

lemma scan_onus_quiet:
  "\<lbrakk>quiet_for clock key t st; \<forall>onu \<in> set onus. not_normal cfg key b p onu\<rbrakk>
   \<Longrightarrow> quiet_for clock key t (fst (scan_onus clock cfg aw inst b p onus st w))
     \<and> adds_others key st (fst (scan_onus clock cfg aw inst b p onus st w))"
proof (induction onus arbitrary: st w)
  case (Cons onu onus)
  then have "quiet_for clock key t (fst (scan_onu clock cfg aw inst b p onu st w))
      \<and> adds_others key st (fst (scan_onu clock cfg aw inst b p onu st w))"
    by (intro scan_onu_quiet) simp_all
  with Cons.IH [of "fst (scan_onu clock cfg aw inst b p onu st w)"] Cons.prems show ?case
    by (auto simp: case_prod_beta intro: adds_others_trans)
qed simp

lemma scan_ports_quiet:
  assumes "\<forall>b p w. case fst (fetch b p w) of Inr onus \<Rightarrow> \<forall>onu \<in> set onus. not_normal cfg key b p onu | _ \<Rightarrow> True"
  shows "quiet_for clock key t st \<Longrightarrow> quiet_for clock key t (fst (scan_ports clock cfg fetch aw inst ports st w))
    \<and> adds_others key st (fst (scan_ports clock cfg fetch aw inst ports st w))"
proof (induction ports arbitrary: st w)
  case (Cons bp ports)
  obtain b p where bp: "bp = (b, p)" by fastforce
  show ?case
  proof (cases "fetch b p w")
    case (Pair r w1)
    show ?thesis
    proof (cases r)
      case (Inr onus)
      have "\<forall>onu \<in> set onus. not_normal cfg key b p onu"
        using assms [rule_format, of b p w] Pair Inr by simp
      note q = scan_onus_quiet [OF Cons.prems this, of aw inst w1]
      with Cons.IH [of "fst (scan_onus clock cfg aw inst b p onus st w1)"] show ?thesis
        by (auto simp: bp Pair Inr case_prod_beta intro: adds_others_trans)
    qed (use Cons Pair in \<open>simp add: bp\<close>)
  qed
qed simp

text \<open>
  No spam: in a scan that reads the clock within 30 minutes of the last alert of an
  ONU, and sees no normal power of it in between, no further event is sent for that ONU, whatever
  the other ONUs do, and its pause goes on.
\<close>

theorem scan_no_spam:
  assumes "gm_get (pm_alerted st) key = Some t" "pm_batcher st = None"
    and "\<forall>w. time_sub (fst (clock w)) t < alert_pause"
    and "\<forall>b p w. case fst (fetch b p w) of Inr onus \<Rightarrow> \<forall>onu \<in> set onus. not_normal cfg key b p onu | _ \<Rightarrow> True"
    and "scan clock cfg fetch aw inst st w = (st', w')"
  shows "(\<exists>new. pm_sent st' = pm_sent st @ new \<and> (\<forall>e \<in> snd ` set new. onuKey e \<noteq> key))
    \<and> gm_get (pm_alerted st') key = Some t"
  using scan_ports_quiet [OF assms(4), of clock t st aw inst "scanned_ports cfg" w] assms(1-3,5)
  by (simp add: scan_def quiet_for_def adds_others_def)

definition bright_onu :: ONUInfoPerBoard where
  "bright_onu = zero_ONUInfoPerBoard\<lparr>oi_Board := 1, oi_PON := 1, oi_ID := 7, oi_RXPower := ''-5.00''\<rparr>"

definition ex_power_cfg :: PowerMonitorConfig where
  "ex_power_cfg = \<lparr>pm_Interval = 0, pm_Cron = [], pm_Timezone = [], pm_HighThreshold = Fin (- 8),
     pm_LowThreshold = Fin (- 25), pm_Source = [], pm_Boards = [], pm_PonsPerBoard = 0\<rparr>"

definition bright_list :: "unit list_fetcher" where
  "bright_list b p w = (Inr (if b = 1 \<and> p = 1 then [bright_onu] else []), w)"

lemma bright_reading: "reading bright_onu = Some (Fin (- 5))" "abnormal ex_power_cfg (Fin (- 5))"
  by code_simp+

theorem scan_onu_alerts_witness:
  "\<exists>e. pm_sent (fst (scan_onu (\<lambda>w. (0, w)) ex_power_cfg no_active (Some (NewWebhookClient ''http://h'' 3 10 None)) 1 1 bright_onu
      \<lparr>pm_alerted = [], pm_batcher = None, pm_sent = []\<rparr> ())) = [(NewWebhookClient ''http://h'' 3 10 None, e)]
    \<and> ev_RXPower e = ''-5.00''"
  using scan_onu_alerts [OF _ _ refl refl, where st = "\<lparr>pm_alerted = [], pm_batcher = None, pm_sent = []\<rparr>" and aw = no_active
      and inst = "Some (NewWebhookClient ''http://h'' 3 10 None)" and onu = bright_onu and cfg = ex_power_cfg
      and clock = "\<lambda>w. (0, w)" and b = 1 and p = 1 and w = "()"]
  by (auto simp: resolveWebhook_def no_active_def bright_reading recent_def) (auto simp: bright_onu_def)

theorem scan_no_spam_witness:
  "gm_get (pm_alerted (fst (scan (\<lambda>w. (60, w)) ex_power_cfg bright_list no_active None
      \<lparr>pm_alerted = [(''1-1-7'', 0)], pm_batcher = None, pm_sent = []\<rparr> ()))) ''1-1-7'' = Some 0"
proof -
  let ?st = "\<lparr>pm_alerted = [(''1-1-7'', 0)], pm_batcher = None, pm_sent = []\<rparr>"
  have "alert_key 1 1 (oi_ID bright_onu) = ''1-1-7''" by code_simp
  then have l: "\<forall>b p w. case fst (bright_list b p w) of Inr onus \<Rightarrow> \<forall>onu \<in> set onus. not_normal ex_power_cfg ''1-1-7'' b p onu | _ \<Rightarrow> True"
    by (simp add: bright_list_def not_normal_def bright_reading) (simp add: bright_onu_def)
  have "time_sub 60 0 < alert_pause" by code_simp
  then have c: "\<forall>w. time_sub (fst ((\<lambda>w. (60, w)) w)) 0 < alert_pause" by simp
  have "gm_get (pm_alerted ?st) ''1-1-7'' = Some 0" "pm_batcher ?st = None" by simp_all
  from scan_no_spam [OF this c l prod.collapse [symmetric]] show ?thesis by blast
qed

end
