(* ===== verification/Olt_Registry.thy ===== *)
theory Olt_Registry
  imports Snmp_Setup Trap_Handler Power_Monitor "HOL-Library.List_Lexorder" "HOL-Library.Char_ord"
begin

text \<open>
  \<open>app/registry.go\<close> and \<open>app/default_fetcher.go\<close>: the OLTs the running service
  knows, and how they follow the inventory without a restart.

  A stack is what the code builds once per connected OLT (pool, repository, use case) with its
  lifecycle; stacks are numbered in the order they are built and never forgotten, so that what
  happens to one after it has left the map stays visible. An entry of the map points to its
  stack. \<open>sk_closes\<close> counts the calls of the repository's \<open>Close\<close>.
\<close>

record 'w stack =
  sk_uc :: "'w onu_uc"
  sk_cancelled :: bool
  sk_running :: nat
  sk_active :: nat
  sk_workers :: nat
  sk_waiting :: nat
  sk_closes :: nat

record OLTEntry =
  oe_OLT :: OLTRuntimeConfig
  oe_stack :: nat
  oe_BoardPons :: "(int, int) gomap"
  oe_UserID :: int

record 'w registry =
  rg_entries :: "(bytes, OLTEntry) gomap"
  rg_stacks :: "'w stack list"
  rg_defaultOLT :: bytes

text \<open>What the registry is built with, and the libraries it uses.\<close>

record 'w reg_deps =
  rd_cfg :: Config
  rd_redis :: "'w redis_ops"
  rd_env :: env
  rd_dial :: "'w dialer"
  rd_now :: "'w \<Rightarrow> instant \<times> 'w"
  rd_tz :: "bytes \<Rightarrow> tzloc option"

type_synonym entry_ord = "(bytes, OLTEntry) range_ord"

definition NewOLTRegistry :: "bytes \<Rightarrow> 'w registry" where
  "NewOLTRegistry defaultOLT = \<lparr>rg_entries = [], rg_stacks = [], rg_defaultOLT = defaultOLT\<rparr>"

subsection \<open>Reading the registry\<close>

definition reg_Get :: "'w registry \<Rightarrow> bytes \<Rightarrow> OLTEntry option" where
  "reg_Get reg oltID = gm_get (rg_entries reg) oltID"

definition GetDefault :: "entry_ord \<Rightarrow> 'w registry \<Rightarrow> OLTEntry option" where
  "GetDefault ord reg =
     (case gm_get (rg_entries reg) (rg_defaultOLT reg) of
        Some e \<Rightarrow> Some e
      | None \<Rightarrow> (case ord (rg_entries reg) of [] \<Rightarrow> None | (_, e) # _ \<Rightarrow> Some e))"

definition reg_List :: "'w registry \<Rightarrow> bytes list" where
  "reg_List reg = sort (map fst (rg_entries reg))"

definition reg_Len :: "'w registry \<Rightarrow> int" where
  "reg_Len reg = int (length (rg_entries reg))"

text \<open>The use case of an entry: its repository hands out connections until it is closed.\<close>

definition stack_uc :: "'w stack \<Rightarrow> 'w onu_uc" where
  "stack_uc s = (sk_uc s)\<lparr>uc_snmp := (uc_snmp (sk_uc s))\<lparr>sr_acquire :=
     (if sk_closes s = 0 then sr_acquire (uc_snmp (sk_uc s)) else (\<lambda>w. (False, w)))\<rparr>\<rparr>"

definition entry_uc :: "'w registry \<Rightarrow> OLTEntry \<Rightarrow> 'w onu_uc" where
  "entry_uc reg e = stack_uc (rg_stacks reg ! oe_stack e)"

subsection \<open>Adding and removing\<close>

definition on_stack :: "nat \<Rightarrow> ('w stack \<Rightarrow> 'w stack) \<Rightarrow> 'w registry \<Rightarrow> 'w registry" where
  "on_stack i f reg = reg\<lparr>rg_stacks := (rg_stacks reg)[i := f (rg_stacks reg ! i)]\<rparr>"

definition new_stack :: "'w onu_uc \<Rightarrow> 'w stack" where
  "new_stack u = \<lparr>sk_uc = u, sk_cancelled = False, sk_running = 0, sk_active = 0, sk_workers = 0,
     sk_waiting = 0, sk_closes = 0\<rparr>"

definition cachePrefix :: "'w registry \<Rightarrow> OLTRuntimeConfig \<Rightarrow> bytes" where
  "cachePrefix reg olt = (if olt_ID olt = rg_defaultOLT reg then [] else olt_ID olt)"

definition NewOnuUsecaseForOLT ::
    "'w reg_deps \<Rightarrow> 'w snmp_repo \<Rightarrow> Config \<Rightarrow> bytes \<Rightarrow> 'w onu_uc" where
  "NewOnuUsecaseForOLT d repo cfg oltID =
     \<lparr>uc_snmp = repo, uc_redis = rd_redis d, uc_cfg = cfg, uc_oltID = oltID, uc_now = rd_now d, uc_tz = rd_tz d\<rparr>"

definition addOLTLocked ::
    "'w reg_deps \<Rightarrow> OLTRuntimeConfig \<Rightarrow> 'w registry \<Rightarrow> 'w \<Rightarrow> (gerror option \<times> 'w registry) \<times> 'w" where
  "addOLTLocked d olt reg w =
     (case SetupSnmpConnectionWith (rd_env d) (rd_dial d) (olt_Host olt) (olt_Port olt) (olt_Community olt) w of
        (Inl err, w) \<Rightarrow>
          ((Some (Wrap (''snmp connect '' @ olt_Host olt @ '':'' @ itoa (olt_Port olt) @ '': '') err), reg), w)
      | (Inr conn, w) \<Rightarrow>
          (case NewPonRepositoryWithConcurrency (rd_dial d)
                  (snmp_target_for (rd_env d) (olt_Host olt) (olt_Port olt) (olt_Community olt))
                  conn (olt_UseWalk olt) w of
             (repo, w) \<Rightarrow>
               (let uc = NewOnuUsecaseForOLT d repo (ForOLT (rd_cfg d) olt) (cachePrefix reg olt) in
                ((None, reg\<lparr>rg_entries := gm_set (olt_ID olt)
                           \<lparr>oe_OLT = olt, oe_stack = length (rg_stacks reg), oe_BoardPons = olt_BoardPons olt,
                            oe_UserID = olt_UserID olt\<rparr> (rg_entries reg),
                         rg_stacks := rg_stacks reg @ [new_stack uc]\<rparr>), w))))"

text \<open>
  \<open>retireEntry\<close>: the jobs are cancelled; the pool is closed at once when none is active, and
  otherwise by a goroutine that waits for the last one.
\<close>

definition retireEntry :: "'w stack \<Rightarrow> 'w stack" where
  "retireEntry s =
     (if sk_active s = 0 then s\<lparr>sk_cancelled := True, sk_closes := sk_closes s + 1\<rparr>
      else s\<lparr>sk_cancelled := True, sk_waiting := sk_waiting s + 1\<rparr>)"

definition removeOLTLocked :: "bytes \<Rightarrow> OLTEntry \<Rightarrow> 'w registry \<Rightarrow> 'w registry" where
  "removeOLTLocked oltID e reg =
     (let reg = on_stack (oe_stack e) retireEntry reg in
      reg\<lparr>rg_entries := gm_del oltID (rg_entries reg)\<rparr>)"

subsection \<open>Reconciling with the inventory\<close>

definition board_specs :: "(int, int) gomap \<Rightarrow> bytes list" where
  "board_specs m = sort (map (\<lambda>(slot, pons). itoa slot @ '':'' @ itoa pons) m)"

definition oltChangeKey :: "OLTRuntimeConfig \<Rightarrow> bytes" where
  "oltChangeKey o1 =
     olt_Host o1 @ ''|'' @ itoa (olt_Port o1) @ ''|'' @ olt_Community o1 @ ''|''
     @ (if olt_UseWalk o1 then ''true'' else ''false'') @ ''|'' @ join '','' (board_specs (olt_BoardPons o1))"

text \<open>The first loop: the entries that are not in the inventory.\<close>

definition remove_missing :: "OLTRuntimeConfig list \<Rightarrow> (bytes \<times> OLTEntry) list \<Rightarrow> 'w registry \<Rightarrow> 'w registry" where
  "remove_missing newOLTs es reg =
     fold (\<lambda>(oltID, e) reg. if oltID \<in> olt_ID ` set newOLTs then reg else removeOLTLocked oltID e reg) es reg"

text \<open>One turn of the second loop.\<close>

definition reconcile_one ::
    "'w reg_deps \<Rightarrow> OLTRuntimeConfig \<Rightarrow> 'w registry \<Rightarrow> 'w \<Rightarrow> 'w registry \<times> 'w" where
  "reconcile_one d olt reg w =
     (case gm_get (rg_entries reg) (olt_ID olt) of
        None \<Rightarrow> (case addOLTLocked d olt reg w of ((_, reg), w) \<Rightarrow> (reg, w))
      | Some existing \<Rightarrow>
          (if oltChangeKey (oe_OLT existing) \<noteq> oltChangeKey olt
           then (case addOLTLocked d olt (removeOLTLocked (olt_ID olt) existing reg) w of ((_, reg), w) \<Rightarrow> (reg, w))
           else (reg\<lparr>rg_entries := gm_set (olt_ID olt)
                      (existing\<lparr>oe_OLT := olt, oe_UserID := olt_UserID olt\<rparr>) (rg_entries reg)\<rparr>, w)))"

fun reconcile_all ::
    "'w reg_deps \<Rightarrow> OLTRuntimeConfig list \<Rightarrow> 'w registry \<Rightarrow> 'w \<Rightarrow> 'w registry \<times> 'w" where
  "reconcile_all d [] reg w = (reg, w)"
| "reconcile_all d (olt # olts) reg w =
     (case reconcile_one d olt reg w of (reg, w) \<Rightarrow> reconcile_all d olts reg w)"

definition Reconcile ::
    "entry_ord \<Rightarrow> 'w reg_deps \<Rightarrow> OLTRuntimeConfig list \<Rightarrow> 'w registry \<Rightarrow> 'w \<Rightarrow> 'w registry \<times> 'w" where
  "Reconcile ord d newOLTs reg w =
     reconcile_all d newOLTs (remove_missing newOLTs (ord (rg_entries reg)) reg) w"

subsection \<open>Polling, jobs, shutdown and health\<close>

text \<open>One tick of the poller: an error or an empty inventory leaves the registry as it is.\<close>

definition poll_tick ::
    "entry_ord \<Rightarrow> (int, int) range_ord \<Rightarrow> 'w reg_deps \<Rightarrow> 'w reg_ops \<Rightarrow> OLTRuntimeConfig \<Rightarrow> bytes \<Rightarrow> bytes
     \<Rightarrow> 'w registry \<Rightarrow> 'w \<Rightarrow> 'w registry \<times> 'w" where
  "poll_tick ord ordb d ops zero registryURL apiKey reg w =
     (case FetchRegistryOLTConfigs ordb ops registryURL apiKey zero w of
        (Inl err, w) \<Rightarrow> (reg, w)
      | (Inr None, w) \<Rightarrow> (reg, w)
      | (Inr (Some olts), w) \<Rightarrow> Reconcile ord d olts reg w)"

text \<open>The poller that sees \<open>n\<close> ticks before its context is done.\<close>

definition StartPoller ::
    "entry_ord \<Rightarrow> (int, int) range_ord \<Rightarrow> 'w reg_deps \<Rightarrow> 'w reg_ops \<Rightarrow> OLTRuntimeConfig \<Rightarrow> bytes \<Rightarrow> bytes \<Rightarrow> int
     \<Rightarrow> nat \<Rightarrow> 'w registry \<Rightarrow> 'w \<Rightarrow> 'w registry \<times> 'w" where
  "StartPoller ord ordb d ops zero registryURL apiKey interval n reg w =
     (if interval \<le> 0 then (reg, w)
      else ((\<lambda>(reg, w). poll_tick ord ordb d ops zero registryURL apiKey reg w) ^^ n) (reg, w))"

text \<open>\<open>GoForEach\<close>: a goroutine for every entry; \<open>start_job\<close> is what it does to the stack.\<close>

definition start_job :: "'w stack \<Rightarrow> 'w stack" where
  "start_job s = s\<lparr>sk_running := sk_running s + 1, sk_active := sk_active s + 1, sk_workers := sk_workers s + 1\<rparr>"

definition GoForEach :: "entry_ord \<Rightarrow> 'w registry \<Rightarrow> 'w registry" where
  "GoForEach ord reg = fold (\<lambda>(_, e). on_stack (oe_stack e) start_job) (ord (rg_entries reg)) reg"

definition reg_Close :: "entry_ord \<Rightarrow> 'w registry \<Rightarrow> 'w registry" where
  "reg_Close ord reg =
     fold (\<lambda>(oltID, e) reg. (on_stack (oe_stack e) retireEntry reg)
             \<lparr>rg_entries := gm_del oltID (rg_entries reg)\<rparr>) (ord (rg_entries reg)) reg"

fun health_loop ::
    "('w \<Rightarrow> gerror option) \<Rightarrow> 'w registry \<Rightarrow> (bytes \<times> OLTEntry) list \<Rightarrow> 'w \<Rightarrow> gerror option \<times> 'w" where
  "health_loop ctxErr reg [] w = (None, w)"
| "health_loop ctxErr reg ((oltID, e) # es) w =
     (case ctxErr w of
        Some err \<Rightarrow> (Some err, w)
      | None \<Rightarrow>
          (case snmp_Ping (uc_snmp (entry_uc reg e)) w of
             (Some err, w) \<Rightarrow> (Some (Wrap (''olt '' @ oltID @ '': '') err), w)
           | (None, w) \<Rightarrow> health_loop ctxErr reg es w))"

definition reg_HealthCheck ::
    "entry_ord \<Rightarrow> ('w \<Rightarrow> gerror option) \<Rightarrow> 'w registry \<Rightarrow> 'w \<Rightarrow> gerror option \<times> 'w" where
  "reg_HealthCheck ord ctxErr reg w = health_loop ctxErr reg (ord (rg_entries reg)) w"

subsection \<open>The registry and its jobs, interleaved\<close>

text \<open>
  The registry's lock makes each of its operations one step. A job returns from its
  function, then leaves the count of active jobs, then that of the workers; a waiting
  goroutine closes the pool when no worker is left. \<open>ok\<close> restricts the OLTs an inventory may name.
\<close>

inductive reg_step ::
    "(OLTRuntimeConfig \<Rightarrow> bool) \<Rightarrow> 'w reg_deps \<Rightarrow> 'w registry \<Rightarrow> 'w registry \<Rightarrow> bool" for ok d where
  reconcile: "\<lbrakk>range_order ord; list_all ok olts; Reconcile ord d olts reg w = (reg', w')\<rbrakk> \<Longrightarrow> reg_step ok d reg reg'"
| start_jobs: "range_order ord \<Longrightarrow> reg_step ok d reg (GoForEach ord reg)"
| close_all: "range_order ord \<Longrightarrow> reg_step ok d reg (reg_Close ord reg)"
| job_returns: "\<lbrakk>i < length (rg_stacks reg); sk_running (rg_stacks reg ! i) > 0\<rbrakk>
    \<Longrightarrow> reg_step ok d reg (on_stack i (\<lambda>s. s\<lparr>sk_running := sk_running s - 1\<rparr>) reg)"
| job_inactive: "\<lbrakk>i < length (rg_stacks reg); sk_active (rg_stacks reg ! i) > sk_running (rg_stacks reg ! i)\<rbrakk>
    \<Longrightarrow> reg_step ok d reg (on_stack i (\<lambda>s. s\<lparr>sk_active := sk_active s - 1\<rparr>) reg)"
| job_done: "\<lbrakk>i < length (rg_stacks reg); sk_workers (rg_stacks reg ! i) > sk_active (rg_stacks reg ! i)\<rbrakk>
    \<Longrightarrow> reg_step ok d reg (on_stack i (\<lambda>s. s\<lparr>sk_workers := sk_workers s - 1\<rparr>) reg)"
| waiter_closes: "\<lbrakk>i < length (rg_stacks reg); sk_waiting (rg_stacks reg ! i) > 0; sk_workers (rg_stacks reg ! i) = 0\<rbrakk>
    \<Longrightarrow> reg_step ok d reg (on_stack i (\<lambda>s. s\<lparr>sk_waiting := sk_waiting s - 1, sk_closes := sk_closes s + 1\<rparr>) reg)"

subsection \<open>The fetcher of the trap components\<close>

definition errNoDefaultOLT :: gerror where "errNoDefaultOLT = Plain ''no default OLT registered''"

definition defaultOLTFetcher ::
    "(bytes, snmp_pdu) range_ord \<Rightarrow> entry_ord \<Rightarrow> 'w registry \<Rightarrow> 'w detail_fetcher" where
  "defaultOLTFetcher ordp ord reg =
     \<lparr>ft_invalidate = (\<lambda>b p n w. case GetDefault ord reg of
        None \<Rightarrow> w
      | Some e \<Rightarrow> snd (InvalidateONUCache (entry_uc reg e) b p n w)),
      ft_detail = (\<lambda>b p n w. case GetDefault ord reg of
        None \<Rightarrow> (Inl errNoDefaultOLT, w)
      | Some e \<Rightarrow> GetByBoardIDPonIDAndOnuID ordp (entry_uc reg e) b p n w)\<rparr>"

definition default_list ::
    "(bytes, snmp_pdu) range_ord \<Rightarrow> entry_ord \<Rightarrow> 'w registry \<Rightarrow> 'w list_fetcher" where
  "default_list ordp ord reg = (\<lambda>b p w. case GetDefault ord reg of
        None \<Rightarrow> (Inl errNoDefaultOLT, w)
      | Some e \<Rightarrow> (case GetByBoardIDAndPonID ordp (entry_uc reg e) b p w of
                      ((Inl err, _), w) \<Rightarrow> (Inl err, w)
                    | ((Inr l, _), w) \<Rightarrow> (Inr (slice_list l), w)))"

end
