(* ===== verification/Health.thy ===== *)
theory Health
  imports App_Errors Go_Time
begin

text \<open>
  \<open>internal/health/health.go\<close>: readiness probes with cached results. A probe is a
  function over the world, run with its own timeout; \<open>lastAt\<close> is \<open>None\<close> while it is
  Go's zero time.
\<close>

type_synonym 'w probe = "'w \<Rightarrow> gerror option \<times> 'w"

record 'w dependency =
  dp_name :: bytes
  dp_ttl :: int
  dp_probe :: "'w probe"
  dp_critical :: bool
  dp_lastAt :: "instant option"
  dp_lastErr :: "gerror option"

record Status =
  hs_Name :: bytes
  hs_State :: bytes
  hs_Err :: bytes

definition failureTTL :: int where "failureTTL = 5 * 1000000000"

definition new_dependency :: "bytes \<Rightarrow> int \<Rightarrow> 'w probe \<Rightarrow> bool \<Rightarrow> 'w dependency" where
  "new_dependency name ttl probe critical =
     \<lparr>dp_name = name, dp_ttl = ttl, dp_probe = probe, dp_critical = critical, dp_lastAt = None, dp_lastErr = None\<rparr>"

definition Register :: "bytes \<Rightarrow> int \<Rightarrow> 'w probe \<Rightarrow> 'w dependency list \<Rightarrow> 'w dependency list" where
  "Register name ttl probe deps = deps @ [new_dependency name ttl probe True]"

definition RegisterOptional :: "bytes \<Rightarrow> int \<Rightarrow> 'w probe \<Rightarrow> 'w dependency list \<Rightarrow> 'w dependency list" where
  "RegisterOptional name ttl probe deps = deps @ [new_dependency name ttl probe False]"

definition cache_ttl :: "'w dependency \<Rightarrow> int" where
  "cache_ttl d = (if dp_lastErr d \<noteq> None \<and> failureTTL < dp_ttl d then failureTTL else dp_ttl d)"

definition is_cached :: "instant \<Rightarrow> 'w dependency \<Rightarrow> bool" where
  "is_cached now d = (case dp_lastAt d of None \<Rightarrow> False | Some t \<Rightarrow> now - t < cache_ttl d)"

definition status_of :: "'w dependency \<Rightarrow> Status" where
  "status_of d = (case dp_lastErr d of
     None \<Rightarrow> \<lparr>hs_Name = dp_name d, hs_State = ''up'', hs_Err = []\<rparr>
   | Some e \<Rightarrow> \<lparr>hs_Name = dp_name d, hs_State = ''down'', hs_Err = err_text e\<rparr>)"

text \<open>The probe of one dependency, run unless its last result is still good.\<close>

definition refresh_dependency ::
    "('w \<Rightarrow> instant \<times> 'w) \<Rightarrow> instant \<Rightarrow> 'w dependency \<Rightarrow> 'w \<Rightarrow> 'w dependency \<times> 'w" where
  "refresh_dependency clock now d w =
     (if is_cached now d then (d, w)
      else (case dp_probe d w of (err, w) \<Rightarrow>
              (case clock w of (t, w) \<Rightarrow> (d\<lparr>dp_lastErr := err, dp_lastAt := Some t\<rparr>, w))))"

fun check_loop ::
    "('w \<Rightarrow> instant \<times> 'w) \<Rightarrow> instant \<Rightarrow> 'w dependency list \<Rightarrow> 'w
     \<Rightarrow> (Status list \<times> bool \<times> 'w dependency list) \<times> 'w" where
  "check_loop clock now [] w = (([], True, []), w)"
| "check_loop clock now (d # ds) w =
     (case refresh_dependency clock now d w of (d, w) \<Rightarrow>
        (case check_loop clock now ds w of ((statuses, healthy, ds), w) \<Rightarrow>
           ((status_of d # statuses, healthy \<and> (dp_lastErr d = None \<or> \<not> dp_critical d), d # ds), w)))"

definition Check ::
    "('w \<Rightarrow> instant \<times> 'w) \<Rightarrow> 'w dependency list \<Rightarrow> 'w \<Rightarrow> (Status list \<times> bool \<times> 'w dependency list) \<times> 'w" where
  "Check clock deps w = (case clock w of (now, w) \<Rightarrow> check_loop clock now deps w)"

subsection \<open>What a check reports\<close>

text \<open>A dependency after a check: probed by it, or served from a result young enough.\<close>

definition refreshed :: "instant \<Rightarrow> 'w dependency \<Rightarrow> 'w dependency \<Rightarrow> bool" where
  "refreshed now d d' \<longleftrightarrow>
     (\<exists>w err w' t. dp_probe d w = (err, w') \<and> d' = d\<lparr>dp_lastErr := err, dp_lastAt := Some t\<rparr>)
     \<or> (d' = d \<and> (\<exists>t. dp_lastAt d = Some t \<and> now - t < dp_ttl d \<and> (dp_lastErr d \<noteq> None \<longrightarrow> now - t < failureTTL)))"

lemma refresh_dependency_refreshed:
  assumes "refresh_dependency clock now d w = (d', w')"
  shows "refreshed now d d'"
proof (cases "is_cached now d")
  case True
  then show ?thesis using assms
    by (auto simp: refresh_dependency_def refreshed_def is_cached_def cache_ttl_def split: option.splits if_splits)
next
  case False
  then show ?thesis using assms
    unfolding refresh_dependency_def refreshed_def by (auto split: prod.splits)
qed

lemma check_loop_refreshed:
  "check_loop clock now deps w = ((statuses, healthy, deps'), w') \<Longrightarrow>
   list_all2 (refreshed now) deps deps' \<and> statuses = map status_of deps'
   \<and> (healthy \<longleftrightarrow> list_all (\<lambda>d. dp_critical d \<longrightarrow> dp_lastErr d = None) deps')"
proof (induction deps arbitrary: w statuses healthy deps' w')
  case (Cons d ds)
  obtain d1 w1 where one: "refresh_dependency clock now d w = (d1, w1)" by fastforce
  obtain st h ds1 w2 where rest: "check_loop clock now ds w1 = ((st, h, ds1), w2)" by (metis prod_cases3 prod.collapse)
  show ?case
    using Cons.IH [OF rest] Cons.prems refresh_dependency_refreshed [OF one] by (auto simp: one rest)
qed simp

text \<open>
  A readiness check tells the state of every dependency. It reports the registered
  dependencies in order, each by a probe run in this check or by a result younger than its
  time to live, and a failure only if it is younger than five seconds; the service is ready
  exactly when no critical dependency is reported down.
\<close>

theorem Check_reports:
  assumes "Check clock deps w = ((statuses, healthy, deps'), w')" "clock w = (now, w1)"
  shows "list_all2 (refreshed now) deps deps' \<and> statuses = map status_of deps'
    \<and> map hs_Name statuses = map dp_name deps
    \<and> (healthy \<longleftrightarrow> list_all2 (\<lambda>d s. dp_critical d \<longrightarrow> hs_State s = ''up'') deps statuses)"
proof -
  have c: "check_loop clock now deps w1 = ((statuses, healthy, deps'), w')"
    using assms by (simp add: Check_def)
  note s = check_loop_refreshed [OF c]
  have same: "dp_name d' = dp_name d \<and> dp_critical d' = dp_critical d" if "refreshed now d d'" for d d'
    using that by (auto simp: refreshed_def)
  have l: "list_all2 (refreshed now) deps deps'" using s by blast
  have "map hs_Name (map status_of deps') = map dp_name deps"
    using l by (induction rule: list_all2_induct) (use same in \<open>auto simp: status_of_def split: option.splits\<close>)
  moreover have "list_all (\<lambda>d. dp_critical d \<longrightarrow> dp_lastErr d = None) deps'
      = list_all2 (\<lambda>d s. dp_critical d \<longrightarrow> hs_State s = ''up'') deps (map status_of deps')"
    using l by (induction rule: list_all2_induct) (use same in \<open>auto simp: status_of_def split: option.splits\<close>)
  ultimately show ?thesis using s by simp
qed

text \<open>A critical Redis that answers and an optional OLT whose failure is three seconds old.\<close>

definition sample_deps :: "nat dependency list" where
  "sample_deps = [new_dependency ''redis'' (10 * 1000000000) (\<lambda>w. (None, w + 1)) True,
     (new_dependency ''olt'' (10 * 1000000000) (\<lambda>w. (None, w + 1)) False)
       \<lparr>dp_lastAt := Some 0, dp_lastErr := Some (Plain ''no response'')\<rparr>]"

theorem Check_reports_witness:
  "\<exists>deps' w'. Check (\<lambda>w. (3 * 1000000000, w)) sample_deps 0
     = (([\<lparr>hs_Name = ''redis'', hs_State = ''up'', hs_Err = []\<rparr>,
          \<lparr>hs_Name = ''olt'', hs_State = ''down'', hs_Err = ''no response''\<rparr>], True, deps'), w')
     \<and> list_all2 (refreshed (3 * 1000000000)) sample_deps deps'"
proof -
  have "\<exists>deps' w'. Check (\<lambda>w. (3 * 1000000000, w)) sample_deps 0
     = (([\<lparr>hs_Name = ''redis'', hs_State = ''up'', hs_Err = []\<rparr>,
          \<lparr>hs_Name = ''olt'', hs_State = ''down'', hs_Err = ''no response''\<rparr>], True, deps'), w')"
    by (simp add: Check_def sample_deps_def refresh_dependency_def is_cached_def cache_ttl_def new_dependency_def
        failureTTL_def status_of_def)
  then obtain deps' w' where c: "Check (\<lambda>w. (3 * 1000000000, w)) sample_deps 0
     = (([\<lparr>hs_Name = ''redis'', hs_State = ''up'', hs_Err = []\<rparr>,
          \<lparr>hs_Name = ''olt'', hs_State = ''down'', hs_Err = ''no response''\<rparr>], True, deps'), w')" by blast
  from Check_reports [OF c, of "3 * 1000000000" 0] c show ?thesis by blast
qed

end
