(* ===== verification/Http_Routes.thy ===== *)
theory Http_Routes
  imports Onu_Handler Olt_Registry Health
begin

text \<open>
  \<open>app/routes.go\<close>: the endpoints, how a request finds its OLT, and the whole server. The
  matching of paths is that of \<open>chi\<close>: \<open>find_route\<close> takes the table of endpoints that the
  source registers and gives the endpoint of a request with its URL parameters, and \<open>miss\<close>
  is what \<open>chi\<close> answers when no endpoint matches. The registry does not change while a
  request is served.
\<close>

subsection \<open>The endpoints\<close>

datatype onu_route =
    R_Uplinks | R_List | R_CacheClear | R_Empty | R_Serials | R_UpdateEmpty | R_Detail | R_OnuCacheClear | R_Page

datatype api_route = Api_Test | Api_WebhookTest | Api_WebhookNotify | Api_Olt onu_route | Api_Default onu_route

datatype route = Rt_Root | Rt_Health | Rt_Healthz | Rt_Readyz | Rt_Version | Rt_Metrics | Rt_Api api_route

text \<open>\<open>mountDynamicONURoutes\<close>: method, pattern and endpoint.\<close>

definition onu_routes :: "(bytes \<times> bytes \<times> onu_route) list" where
  "onu_routes =
     (let port = ''/board/{board_id}/pon/{pon_id}'' in
      [(''GET'', ''/uplinks'', R_Uplinks),
       (''GET'', port @ ''/'', R_List),
       (''DELETE'', port @ ''/cache/clear'', R_CacheClear),
       (''GET'', port @ ''/onu_id/empty'', R_Empty),
       (''GET'', port @ ''/onu_id_sn'', R_Serials),
       (''POST'', port @ ''/onu_id/update'', R_UpdateEmpty),
       (''GET'', port @ ''/onu/{onu_id}/'', R_Detail),
       (''DELETE'', port @ ''/onu/{onu_id}/cache/clear'', R_OnuCacheClear),
       (''GET'', ''/paginate'' @ port @ ''/'', R_Page)])"

definition api_routes :: "(bytes \<times> bytes \<times> api_route) list" where
  "api_routes =
     [(''POST'', ''/test'', Api_Test), (''POST'', ''/webhook/test'', Api_WebhookTest),
      (''POST'', ''/webhook/notify'', Api_WebhookNotify)]
     @ map (\<lambda>(m, pat, rt). (m, ''/olt/{olt_id}'' @ pat, Api_Olt rt)) onu_routes
     @ map (\<lambda>(m, pat, rt). (m, pat, Api_Default rt)) onu_routes"

text \<open>\<open>*\<close> stands for every method.\<close>

definition all_routes :: "(bytes \<times> bytes \<times> route) list" where
  "all_routes =
     [(''GET'', ''/'', Rt_Root), (''GET'', ''/health'', Rt_Health), (''GET'', ''/healthz'', Rt_Healthz),
      (''GET'', ''/readyz'', Rt_Readyz), (''GET'', ''/version'', Rt_Version), (''*'', ''/metrics'', Rt_Metrics)]
     @ map (\<lambda>(m, pat, rt). (m, ''/api/v1'' @ pat, Rt_Api rt)) api_routes"

subsection \<open>The OLT of a request\<close>

type_synonym 'w app_handler = "(OLTEntry, 'w) handler"

definition olt_not_found :: "'e req_ctx \<Rightarrow> bytes \<Rightarrow> reply" where
  "olt_not_found cx oltID = ErrorNotFound (RequestIDFromContext cx) (Some (NewNotFoundError ''olt'' (JStr oltID)))"

definition resolveOLT :: "'w registry \<Rightarrow> 'w app_handler \<Rightarrow> 'w app_handler" where
  "resolveOLT reg nxt r cx h w =
     (let oltID = rq_Param r ''olt_id'' in
      case reg_Get reg oltID of
        None \<Rightarrow> (send_reply h (olt_not_found cx oltID), w)
      | Some e \<Rightarrow>
          (if owns cx (oe_UserID e) then nxt r (cx\<lparr>cx_Entry := Some e\<rparr>) h w
           else (send_reply h (olt_not_found cx oltID), w)))"

definition resolveDefaultOLT :: "entry_ord \<Rightarrow> 'w registry \<Rightarrow> 'w app_handler \<Rightarrow> 'w app_handler" where
  "resolveDefaultOLT ord reg nxt r cx h w =
     (case GetDefault ord reg of
        None \<Rightarrow> (send_reply h (olt_not_found cx []), w)
      | Some e \<Rightarrow>
          (if owns cx (oe_UserID e) then nxt r (cx\<lparr>cx_Entry := Some e\<rparr>) h w
           else (send_reply h (olt_not_found cx []), w)))"

text \<open>
  A panic unwinds to the logger, which answers 500 with an empty body. \<open>OLTEntryFromContext\<close>
  panics when there is no entry.
\<close>

definition recovered :: "headers \<Rightarrow> response" where
  "recovered h = \<lparr>rs_Status = 500, rs_Headers = h, rs_Body = TextBody []\<rparr>"

definition with_entry :: "(OLTEntry \<Rightarrow> 'w app_handler) \<Rightarrow> 'w app_handler" where
  "with_entry f r cx h w = (case cx_Entry cx of None \<Rightarrow> (recovered h, w) | Some e \<Rightarrow> f e r cx h w)"

definition dynamicValidateBoardPon :: "'w app_handler \<Rightarrow> 'w app_handler" where
  "dynamicValidateBoardPon nxt = with_entry (\<lambda>e. ValidateBoardPonParams (oe_BoardPons e) nxt)"

definition answer_with :: "('w onu_uc \<Rightarrow> request \<Rightarrow> OLTEntry req_ctx \<Rightarrow> 'w \<Rightarrow> reply \<times> 'w) \<Rightarrow> 'w onu_uc \<Rightarrow> 'w app_handler" where
  "answer_with f u r cx h w = (case f u r cx w of (rp, w) \<Rightarrow> (send_reply h rp, w))"

definition dynamicHandler :: "'w registry \<Rightarrow> ('w onu_uc \<Rightarrow> 'w app_handler) \<Rightarrow> 'w app_handler" where
  "dynamicHandler reg f = with_entry (\<lambda>e. f (entry_uc reg e))"

text \<open>The visiting orders of the maps that the queries range over.\<close>

record orders =
  or_pdu :: "(bytes, snmp_pdu) range_ord"
  or_ports :: "(int, bytes \<times> bytes) range_ord"
  or_cards :: "(int, int) range_ord"
  or_entries :: entry_ord

fun onu_endpoint :: "orders \<Rightarrow> onu_route \<Rightarrow> 'w onu_uc \<Rightarrow> 'w app_handler" where
  "onu_endpoint os R_Uplinks = answer_with (h_GetUplinkTopology (or_ports os) (or_cards os))"
| "onu_endpoint os R_List = answer_with (h_GetByBoardIDAndPonID (or_pdu os))"
| "onu_endpoint os R_CacheClear = answer_with h_DeleteCache"
| "onu_endpoint os R_Empty = answer_with h_GetEmptyOnuID"
| "onu_endpoint os R_Serials = answer_with h_GetOnuIDAndSerialNumber"
| "onu_endpoint os R_UpdateEmpty = answer_with h_UpdateEmptyOnuID"
| "onu_endpoint os R_Detail = answer_with (h_GetByBoardIDPonIDAndOnuID (or_pdu os))"
| "onu_endpoint os R_OnuCacheClear = answer_with h_InvalidateOnuCache"
| "onu_endpoint os R_Page = (\<lambda>u r cx h w.
     case h_GetByBoardIDAndPonIDWithPaginate (or_pdu os) u r cx w of
       (None, w) \<Rightarrow> (recovered h, w)
     | (Some rp, w) \<Rightarrow> (send_reply h rp, w))"

fun validated :: "('w app_handler \<Rightarrow> 'w app_handler) \<Rightarrow> onu_route \<Rightarrow> 'w app_handler \<Rightarrow> 'w app_handler" where
  "validated board R_Uplinks nxt = nxt"
| "validated board R_Detail nxt = board (ValidateOnuIDParam nxt)"
| "validated board R_OnuCacheClear nxt = board (ValidateOnuIDParam nxt)"
| "validated board _ nxt = board nxt"

definition dynamic_onu :: "orders \<Rightarrow> 'w registry \<Rightarrow> onu_route \<Rightarrow> 'w app_handler" where
  "dynamic_onu os reg rt = validated dynamicValidateBoardPon rt (dynamicHandler reg (onu_endpoint os rt))"

subsection \<open>Probing a device\<close>

record test_body =
  tb_Host :: bytes
  tb_Port :: int
  tb_Community :: bytes

fun get_uint16 :: "json \<Rightarrow> int \<Rightarrow> int option" where
  "get_uint16 JNull old = Some old"
| "get_uint16 (JNum l) old = parse_uint 16 l"
| "get_uint16 _ old = None"

definition test_body_fields :: "test_body field list" where
  "test_body_fields =
     [(''host'', \<lambda>j r. map_option (\<lambda>v. r\<lparr>tb_Host := v\<rparr>) (get_str j (tb_Host r))),
      (''port'', \<lambda>j r. map_option (\<lambda>v. r\<lparr>tb_Port := v\<rparr>) (get_uint16 j (tb_Port r))),
      (''community'', \<lambda>j r. map_option (\<lambda>v. r\<lparr>tb_Community := v\<rparr>) (get_str j (tb_Community r)))]"

text \<open>The verb \<open>%v\<close>; \<open>show_other\<close> is its text for the types the source does not name.\<close>

fun value_text :: "bytes \<Rightarrow> snmp_value \<Rightarrow> bytes" where
  "value_text show_other (VInt n) = itoa n"
| "value_text show_other (VUint n) = itoa n"
| "value_text show_other (VBytes b) = ''['' @ join '' '' (map (\<lambda>c. itoa (of_char c)) b) @ '']''"
| "value_text show_other (VString s) = s"
| "value_text show_other VNil = ''<nil>''"
| "value_text show_other VOther = show_other"

definition snmpTestHandler :: "env \<Rightarrow> 'w dialer \<Rightarrow> bytes \<Rightarrow> bytes \<Rightarrow> 'w \<Rightarrow> reply \<times> 'w" where
  "snmpTestHandler getenv dial show_other reqBody w =
     (case Option.bind (json_decode_first reqBody) (\<lambda>j. decode_struct test_body_fields j
             \<lparr>tb_Host = [], tb_Port = 0, tb_Community = []\<rparr>) of
        None \<Rightarrow> (message_reply 400 ''invalid JSON body'', w)
      | Some b \<Rightarrow>
          (if tb_Host b = [] \<or> tb_Community b = [] then (message_reply 400 ''host and community are required'', w)
           else
             (case SetupSnmpConnectionWith getenv dial (tb_Host b) (if tb_Port b = 0 then 161 else tb_Port b)
                     (tb_Community b) w of
                (Inl err, w) \<Rightarrow> (message_reply 502 (err_text err), w)
              | (Inr conn, w) \<Rightarrow>
                  (case cn_Get conn [''1.3.6.1.2.1.1.3.0''] w of
                     (Inl err, w) \<Rightarrow> (message_reply 502 (err_text err), w)
                   | (Inr [], w) \<Rightarrow>
                       (message_reply 502 ''no SNMP response (check host/port/community + device SNMP ACL)'', w)
                   | (Inr (pdu # _), w) \<Rightarrow>
                       (SendJSONResponse 200 (json_of_map [(''code'', jint 200), (''status'', JStr ''success''),
                          (''data'', json_of_map [(''ok'', JBool True),
                             (''sysUpTime'', JStr (value_text show_other (pdu_Value pdu)))])]), w)))))"

subsection \<open>Health and version\<close>

definition status_reply :: "bytes \<Rightarrow> reply" where
  "status_reply s = SendJSONResponse 200 (JObj [(''status'', JStr s)])"

definition rootHandler :: "headers \<Rightarrow> response" where
  "rootHandler h = \<lparr>rs_Status = 200, rs_Headers = h, rs_Body = TextBody ''Hello, this is the root endpoint!''\<rparr>"

definition dep_json :: "Status \<Rightarrow> json" where
  "dep_json s = json_of_map ((if hs_Err s = [] then [] else [(''error'', JStr (hs_Err s))]) @ [(''state'', JStr (hs_State s))])"

definition readyz_reply :: "Status list \<Rightarrow> bool \<Rightarrow> reply" where
  "readyz_reply statuses healthy =
     (let deps = fold (\<lambda>s m. gm_set (hs_Name s) (dep_json s) m) statuses [] in
      SendJSONResponse (if healthy then 200 else 503)
        (json_of_map [(''status'', JStr (if healthy then ''ready'' else ''not_ready'')), (''dependencies'', json_of_map deps)]))"

text \<open>The checker keeps its state in the world: \<open>check\<close> runs it; \<open>None\<close> is a nil checker.\<close>

definition makeReadyzHandler :: "('w \<Rightarrow> (Status list \<times> bool) \<times> 'w) option \<Rightarrow> 'w \<Rightarrow> reply \<times> 'w" where
  "makeReadyzHandler checker w =
     (case checker of
        None \<Rightarrow> (status_reply ''ready'', w)
      | Some check \<Rightarrow> (case check w of ((statuses, healthy), w) \<Rightarrow> (readyz_reply statuses healthy, w)))"

record build_info =
  bi_Version :: bytes
  bi_Commit :: bytes
  bi_BuildTime :: bytes
  bi_APIVersion :: bytes

definition build_Info :: "build_info \<Rightarrow> bytes \<Rightarrow> json" where
  "build_Info b uptime = json_of_map [(''version'', JStr (bi_Version b)), (''api_version'', JStr (bi_APIVersion b)),
     (''commit'', JStr (bi_Commit b)), (''build_time'', JStr (bi_BuildTime b)), (''uptime'', JStr uptime)]"

subsection \<open>The server\<close>

record 'w server =
  sv_reg :: "'w registry"
  sv_orders :: orders
  sv_users :: "(bytes, Principal) gomap option"
  sv_legacyKey :: bytes
  sv_env :: env
  sv_build :: build_info
  sv_whEnv :: WebhookSettings
  sv_fmt :: fmt_env
  sv_regops :: "'w reg_ops"
  sv_http :: "'w http_ops"
  sv_dial :: "'w dialer"
  sv_checker :: "('w \<Rightarrow> (Status list \<times> bool) \<times> 'w) option"
  sv_find :: "(bytes \<times> bytes \<times> route) list \<Rightarrow> request \<Rightarrow> (route \<times> (bytes \<Rightarrow> bytes)) option"
  sv_miss :: "'w app_handler"
  sv_new_id :: "'w \<Rightarrow> bytes \<times> 'w"
  sv_allow :: "'w \<Rightarrow> bool \<times> 'w"
  sv_cors :: "cors_options \<Rightarrow> 'w app_handler \<Rightarrow> 'w app_handler"
  sv_metrics :: "'w app_handler"
  sv_uptime :: "'w \<Rightarrow> bytes \<times> 'w"
  sv_show :: bytes

definition api_endpoint :: "'w server \<Rightarrow> api_route \<Rightarrow> 'w app_handler" where
  "api_endpoint sv rt r cx h w =
     (case rt of
        Api_Test \<Rightarrow> (case snmpTestHandler (sv_env sv) (sv_dial sv) (sv_show sv) (rq_Body r) w of (rp, w) \<Rightarrow> (send_reply h rp, w))
      | Api_WebhookTest \<Rightarrow>
          (case webhookTestHandler (sv_regops sv) (sv_http sv) (sv_fmt sv) (sv_env sv) (sv_whEnv sv) w of
             (rp, w) \<Rightarrow> (send_reply h rp, w))
      | Api_WebhookNotify \<Rightarrow>
          (case webhookNotifyHandler (sv_regops sv) (sv_http sv) (sv_fmt sv) (sv_env sv) (sv_whEnv sv) (rq_Body r) w of
             (rp, w) \<Rightarrow> (send_reply h rp, w))
      | Api_Olt ort \<Rightarrow> resolveOLT (sv_reg sv) (dynamic_onu (sv_orders sv) (sv_reg sv) ort) r cx h w
      | Api_Default ort \<Rightarrow>
          resolveDefaultOLT (or_entries (sv_orders sv)) (sv_reg sv) (dynamic_onu (sv_orders sv) (sv_reg sv) ort) r cx h w)"

definition serve_route :: "'w server \<Rightarrow> route \<Rightarrow> 'w app_handler" where
  "serve_route sv rt r cx h w =
     (case rt of
        Rt_Root \<Rightarrow> (rootHandler h, w)
      | Rt_Health \<Rightarrow> (send_reply h (status_reply ''healthy''), w)
      | Rt_Healthz \<Rightarrow> (send_reply h (status_reply ''healthy''), w)
      | Rt_Readyz \<Rightarrow> (case makeReadyzHandler (sv_checker sv) w of (rp, w) \<Rightarrow> (send_reply h rp, w))
      | Rt_Version \<Rightarrow> (case sv_uptime sv w of (t, w) \<Rightarrow> (send_reply h (SendJSONResponse 200 (build_Info (sv_build sv) t)), w))
      | Rt_Metrics \<Rightarrow> sv_metrics sv r cx h w
      | Rt_Api art \<Rightarrow> Authenticator (sv_users sv) (sv_legacyKey sv) (api_endpoint sv art) r cx h w)"

definition router :: "'w server \<Rightarrow> 'w app_handler" where
  "router sv r cx h w =
     (case sv_find sv all_routes r of
        None \<Rightarrow> sv_miss sv r cx h w
      | Some (rt, params) \<Rightarrow> serve_route sv rt (r\<lparr>rq_Param := params\<rparr>) cx h w)"

definition loadRoutesWithRegistry :: "'w server \<Rightarrow> 'w app_handler" where
  "loadRoutesWithRegistry sv =
     RequestID_mw (sv_new_id sv)
       (APIVersionHeader (DefaultAPIVersionConfig (bi_APIVersion (sv_build sv)) (bi_Version (sv_build sv)) (bi_Commit (sv_build sv)))
         (SecurityHeaders (RateLimiter (sv_allow sv) (MaxBodySize 1048576
           (sv_cors sv (cors_options_of (sv_env sv)) (router sv))))))"

subsection \<open>The static table of routes\<close>

text \<open>
  \<open>loadRoutesMulti\<close> binds each OLT to its routes when the server starts. \<open>Some id\<close> is
  the sub-router of an OLT, \<open>None\<close> the bare paths of the default OLT.
\<close>

record 'w oltRoute =
  ol_id :: bytes
  ol_userID :: int
  ol_uc :: "'w onu_uc"
  ol_boardPons :: "(int, int) gomap"

definition static_routes :: "'w oltRoute list \<Rightarrow> bytes \<Rightarrow> (bytes option \<times> 'w oltRoute) list" where
  "static_routes olts defaultOLT =
     concat (map (\<lambda>ol. (if ol_id ol \<noteq> [] then [(Some (ol_id ol), ol)] else [])
                      @ (if ol_id ol = defaultOLT then [(None, ol)] else [])) olts)"

definition static_onu :: "orders \<Rightarrow> 'w oltRoute \<Rightarrow> onu_route \<Rightarrow> 'w app_handler" where
  "static_onu os ol rt =
     RequireOLTOwner (ol_userID ol)
       (validated (ValidateBoardPonParams (ol_boardPons ol)) rt (onu_endpoint os rt (ol_uc ol)))"

definition loadRoutes :: "'w onu_uc \<Rightarrow> int list \<Rightarrow> int \<Rightarrow> (bytes option \<times> 'w oltRoute) list" where
  "loadRoutes u boards maxPonID =
     static_routes [\<lparr>ol_id = [], ol_userID = 0, ol_uc = u,
       ol_boardPons = fold (\<lambda>b m. gm_set b (if maxPonID < 1 then 16 else maxPonID) m) boards []\<rparr>] []"

end
