(* ===== verification/Olt_Reconcile.thy ===== *)
theory Olt_Reconcile
  imports Olt_Registry
begin

text \<open>
  What \<open>Reconcile\<close> of \<open>app/registry.go\<close> makes of an inventory: the change key
  determines the connection, an invariant of the map and its stacks, and the entry every OLT of
  the inventory ends with.
\<close>

subsection \<open>The change key\<close>

lemma first_split: "\<lbrakk>c \<notin> set a; c \<notin> set a'; a @ c # r = a' @ c # r'\<rbrakk> \<Longrightarrow> a = a' \<and> r = r'"
  by (induction a arbitrary: a') (auto simp: Cons_eq_append_conv)

lemma last_split:
  assumes "c \<notin> set r" "c \<notin> set r'" "a @ c # r = a' @ c # r'"
  shows "a = a' \<and> r = r'"
proof -
  have "rev r @ c # rev a = rev r' @ c # rev a'" using arg_cong [OF assms(3), of rev] by simp
  from first_split [OF _ _ this] assms(1,2) show ?thesis by simp
qed

lemma itoa_no_colon: "CHR '':'' \<notin> set (itoa n)" "CHR '','' \<notin> set (itoa n)" "CHR ''|'' \<notin> set (itoa n)"
  using itoa_chars [of "CHR '':''" n] itoa_chars [of "CHR '',''" n] itoa_chars [of "CHR ''|''" n]
  by (auto simp: is_digit_def)

lemma board_specs_chars:
  assumes "s \<in> set (board_specs m)"
  shows "CHR '','' \<notin> set s \<and> CHR ''|'' \<notin> set s"
  using assms by (auto simp: board_specs_def itoa_no_colon)

lemma board_specs_nonempty: "s \<in> set (board_specs m) \<Longrightarrow> s \<noteq> []"
  by (auto simp: board_specs_def)

lemma join_chars: "c \<in> set (join [s] xs) \<Longrightarrow> c = s \<or> (\<exists>x \<in> set xs. c \<in> set x)"
  by (induction xs rule: induct_list012) auto

lemma board_specs_inj:
  assumes "board_specs m = board_specs m'"
  shows "mset m = mset m'"
proof -
  let ?f = "\<lambda>(slot, pons). itoa slot @ '':'' @ itoa pons"
  have "inj ?f"
    unfolding inj_def using first_split [OF itoa_no_colon(1) itoa_no_colon(1)]
    by (metis (no_types, lifting) append_Cons append_Nil itoa_inj case_prod_conv surj_pair)
  moreover have "image_mset ?f (mset m) = image_mset ?f (mset m')"
    using arg_cong [OF assms, of mset] by (simp add: board_specs_def)
  ultimately show ?thesis by (metis injD multiset.inj_map)
qed

lemma join_empty: "[] \<notin> set zs \<Longrightarrow> join [c] zs = [] \<longleftrightarrow> zs = []"
  by (cases "([c], zs)" rule: join.cases) auto

lemma join_inj:
  assumes "\<And>s. s \<in> set xs \<union> set ys \<Longrightarrow> c \<notin> set s \<and> s \<noteq> []" "join [c] xs = join [c] ys"
  shows "xs = ys"
proof -
  have c: "[] \<notin> set xs" "[] \<notin> set ys" "\<forall>s \<in> set xs. c \<notin> set s" "\<forall>s \<in> set ys. c \<notin> set s"
    using assms(1) by blast+
  show ?thesis
  proof (cases "xs = [] \<or> ys = []")
    case True
    then show ?thesis using assms(2) join_empty [OF c(1)] join_empty [OF c(2)] by metis
  next
    case False
    then have "xs = split_on c (join [c] xs)" "ys = split_on c (join [c] ys)"
      using c(3,4) by (simp_all add: split_on_join)
    then show ?thesis using assms(2) by metis
  qed
qed

lemma oltChangeKey_inj:
  assumes "oltChangeKey a = oltChangeKey b" "CHR ''|'' \<notin> set (olt_Host a)" "CHR ''|'' \<notin> set (olt_Host b)"
  shows "olt_Host a = olt_Host b \<and> olt_Port a = olt_Port b \<and> olt_Community a = olt_Community b
    \<and> olt_UseWalk a = olt_UseWalk b \<and> mset (olt_BoardPons a) = mset (olt_BoardPons b)"
proof -
  let ?t = "\<lambda>x :: OLTRuntimeConfig. if olt_UseWalk x then ''true'' else ''false''"
  let ?j = "\<lambda>x. join '','' (board_specs (olt_BoardPons x))"
  have bars: "CHR ''|'' \<notin> set (?j x)" "CHR ''|'' \<notin> set (?t x)" for x
    using join_chars [of "CHR ''|''" "CHR '',''"] board_specs_chars by auto
  have "olt_Host a @ CHR ''|'' # itoa (olt_Port a) @ CHR ''|'' # olt_Community a @ CHR ''|'' # ?t a @ CHR ''|'' # ?j a
      = olt_Host b @ CHR ''|'' # itoa (olt_Port b) @ CHR ''|'' # olt_Community b @ CHR ''|'' # ?t b @ CHR ''|'' # ?j b"
    using assms(1) by (simp add: oltChangeKey_def)
  from first_split [OF assms(2,3) this] have h: "olt_Host a = olt_Host b"
    and r: "itoa (olt_Port a) @ CHR ''|'' # olt_Community a @ CHR ''|'' # ?t a @ CHR ''|'' # ?j a
      = itoa (olt_Port b) @ CHR ''|'' # olt_Community b @ CHR ''|'' # ?t b @ CHR ''|'' # ?j b" by blast+
  from first_split [OF itoa_no_colon(3) itoa_no_colon(3) r] have p: "olt_Port a = olt_Port b"
    and r: "(olt_Community a @ CHR ''|'' # ?t a) @ CHR ''|'' # ?j a = (olt_Community b @ CHR ''|'' # ?t b) @ CHR ''|'' # ?j b"
    by simp_all
  from last_split [OF bars(1) bars(1) r]
  have j: "?j a = ?j b" and r: "olt_Community a @ CHR ''|'' # ?t a = olt_Community b @ CHR ''|'' # ?t b" by blast+
  from last_split [OF bars(2) bars(2) r] have "olt_Community a = olt_Community b" "?t a = ?t b" by blast+
  moreover have "board_specs (olt_BoardPons a) = board_specs (olt_BoardPons b)"
    by (rule join_inj [OF _ j]) (use board_specs_chars board_specs_nonempty in blast)
  moreover have "olt_UseWalk a = olt_UseWalk b"
    using \<open>?t a = ?t b\<close> by (cases "olt_UseWalk a"; cases "olt_UseWalk b") simp_all
  ultimately show ?thesis using h p board_specs_inj by blast
qed

subsection \<open>The invariant\<close>

text \<open>A stack in the map serves: its jobs run and its pool is open. A stack that left it is retired.\<close>

definition counted :: "'w stack \<Rightarrow> bool" where
  "counted s \<longleftrightarrow> sk_running s \<le> sk_active s \<and> sk_active s \<le> sk_workers s"

definition serving :: "'w stack \<Rightarrow> bool" where
  "serving s \<longleftrightarrow> \<not> sk_cancelled s \<and> sk_waiting s = 0 \<and> sk_closes s = 0 \<and> counted s"

definition retired :: "'w stack \<Rightarrow> bool" where
  "retired s \<longleftrightarrow> sk_cancelled s \<and> sk_closes s + sk_waiting s = 1 \<and> (sk_closes s = 1 \<longrightarrow> sk_active s = 0) \<and> counted s"

lemmas stack_defs = serving_def retired_def counted_def

definition mapped :: "'w registry \<Rightarrow> nat set" where
  "mapped reg = (\<lambda>p. oe_stack (snd p)) ` set (rg_entries reg)"

definition reg_inv :: "'w registry \<Rightarrow> bool" where
  "reg_inv reg \<longleftrightarrow> gm_wf (rg_entries reg) \<and> inj_on (\<lambda>p. oe_stack (snd p)) (set (rg_entries reg))
     \<and> (\<forall>(k, e) \<in> set (rg_entries reg). olt_ID (oe_OLT e) = k)
     \<and> mapped reg \<subseteq> {..<length (rg_stacks reg)}
     \<and> (\<forall>i < length (rg_stacks reg). if i \<in> mapped reg then serving (rg_stacks reg ! i) else retired (rg_stacks reg ! i))"

lemma reg_inv_new: "reg_inv (NewOLTRegistry dflt)"
  by (simp add: reg_inv_def NewOLTRegistry_def mapped_def)

lemma on_stack_simps [simp]:
  "rg_entries (on_stack i f reg) = rg_entries reg"
  "length (rg_stacks (on_stack i f reg)) = length (rg_stacks reg)"
  "rg_defaultOLT (on_stack i f reg) = rg_defaultOLT reg"
  "mapped (on_stack i f reg) = mapped reg"
  by (simp_all add: on_stack_def mapped_def)

lemma on_stack_nth:
  "j < length (rg_stacks reg) \<Longrightarrow>
   rg_stacks (on_stack i f reg) ! j = (if j = i then f (rg_stacks reg ! i) else rg_stacks reg ! j)"
  by (simp add: on_stack_def nth_list_update)

lemma reg_inv_stack:
  assumes "reg_inv reg" "i < length (rg_stacks reg)"
  shows "if i \<in> mapped reg then serving (rg_stacks reg ! i) else retired (rg_stacks reg ! i)"
  using assms by (simp add: reg_inv_def)

lemma reg_inv_on_stack:
  assumes "reg_inv reg"
    and "i \<in> mapped reg \<Longrightarrow> serving (rg_stacks reg ! i) \<Longrightarrow> serving (f (rg_stacks reg ! i))"
    and "i \<notin> mapped reg \<Longrightarrow> retired (rg_stacks reg ! i) \<Longrightarrow> retired (f (rg_stacks reg ! i))"
  shows "reg_inv (on_stack i f reg)"
  using assms unfolding reg_inv_def by (auto simp: on_stack_nth)

lemma mapped_mem: "gm_get (rg_entries reg) k = Some e \<Longrightarrow> oe_stack e \<in> mapped reg"
  by (force simp: mapped_def dest: map_of_SomeD)

lemma mapped_del:
  assumes "reg_inv reg" "gm_get (rg_entries reg) k = Some e"
  shows "(\<lambda>p. oe_stack (snd p)) ` set (gm_del k (rg_entries reg)) = mapped reg - {oe_stack e}"
proof -
  have wf: "gm_wf (rg_entries reg)" and inj: "inj_on (\<lambda>p. oe_stack (snd p)) (set (rg_entries reg))"
    using assms(1) by (simp_all add: reg_inv_def)
  have mem: "(k, e) \<in> set (rg_entries reg)" using assms(2) by (rule map_of_SomeD)
  have "x = (k, e)" if "x \<in> set (rg_entries reg)" "fst x = k" for x
    using that mem wf by (metis eq_key_imp_eq_value prod.collapse)
  moreover have "set (gm_del k (rg_entries reg)) = {x \<in> set (rg_entries reg). fst x \<noteq> k}"
    by (auto simp: AList.delete_eq case_prod_beta)
  ultimately have "set (gm_del k (rg_entries reg)) = set (rg_entries reg) - {(k, e)}"
    by fastforce
  moreover have "(\<lambda>p. oe_stack (snd p)) ` (set (rg_entries reg) - {(k, e)}) = mapped reg - {oe_stack e}"
    using inj_on_image_set_diff [OF inj, of "set (rg_entries reg)" "{(k, e)}"] mem by (simp add: mapped_def)
  ultimately show ?thesis by simp
qed

lemma retire_serving: "serving s \<Longrightarrow> retired (retireEntry s)"
  by (auto simp: stack_defs retireEntry_def)

lemma removeOLTLocked_inv:
  assumes "reg_inv reg" "gm_get (rg_entries reg) k = Some e"
  shows "reg_inv (removeOLTLocked k e reg)" "mapped (removeOLTLocked k e reg) = mapped reg - {oe_stack e}"
proof -
  show m: "mapped (removeOLTLocked k e reg) = mapped reg - {oe_stack e}"
    using mapped_del [OF assms] by (simp add: removeOLTLocked_def mapped_def Let_def)
  have e: "rg_entries (removeOLTLocked k e reg) = gm_del k (rg_entries reg)"
    "length (rg_stacks (removeOLTLocked k e reg)) = length (rg_stacks reg)"
    "\<And>j. j < length (rg_stacks reg) \<Longrightarrow> rg_stacks (removeOLTLocked k e reg) ! j
      = (if j = oe_stack e then retireEntry (rg_stacks reg ! oe_stack e) else rg_stacks reg ! j)"
    by (simp_all add: removeOLTLocked_def Let_def on_stack_nth)
  have sub: "set (gm_del k (rg_entries reg)) \<subseteq> set (rg_entries reg)" by (auto simp: AList.delete_eq)
  have in_map: "oe_stack e \<in> mapped reg" using assms(2) by (rule mapped_mem)
  have inv: "gm_wf (rg_entries reg)" "inj_on (\<lambda>p. oe_stack (snd p)) (set (rg_entries reg))"
    "\<forall>(k, e) \<in> set (rg_entries reg). olt_ID (oe_OLT e) = k" "mapped reg \<subseteq> {..<length (rg_stacks reg)}"
    using assms(1) by (simp_all add: reg_inv_def)
  show "reg_inv (removeOLTLocked k e reg)"
    unfolding reg_inv_def m e(1,2)
  proof (intro conjI allI impI)
    show "gm_wf (gm_del k (rg_entries reg))" by (rule gm_wf_del [OF inv(1)])
    show "inj_on (\<lambda>p. oe_stack (snd p)) (set (gm_del k (rg_entries reg)))"
      by (rule inj_on_subset [OF inv(2) sub])
    show "\<forall>(k, e) \<in> set (gm_del k (rg_entries reg)). olt_ID (oe_OLT e) = k" using inv(3) sub by blast
    show "mapped reg - {oe_stack e} \<subseteq> {..<length (rg_stacks reg)}" using inv(4) by blast
    fix i assume i: "i < length (rg_stacks reg)"
    show "if i \<in> mapped reg - {oe_stack e} then serving (rg_stacks (removeOLTLocked k e reg) ! i)
        else retired (rg_stacks (removeOLTLocked k e reg) ! i)"
      using reg_inv_stack [OF assms(1) i] in_map e(3) [OF i]
      by (cases "i = oe_stack e") (simp_all add: retire_serving)
  qed
qed

text \<open>What the construction of a stack gives.\<close>

definition built :: "'w reg_deps \<Rightarrow> 'w registry \<Rightarrow> OLTRuntimeConfig \<Rightarrow> 'w onu_uc \<Rightarrow> bool" where
  "built d reg olt u \<longleftrightarrow> (\<exists>repo w w'.
     u = NewOnuUsecaseForOLT d repo (ForOLT (rd_cfg d) olt) (cachePrefix reg olt)
     \<and> rd_dial d (snmp_target_for (rd_env d) (olt_Host olt) (olt_Port olt) (olt_Community olt)) w
         = (Inr (sr_conn repo), w')
     \<and> sr_acquire repo = (\<lambda>w. (True, w)) \<and> sr_useWalk repo = olt_UseWalk olt)"

definition fresh_entry :: "'w registry \<Rightarrow> OLTRuntimeConfig \<Rightarrow> OLTEntry" where
  "fresh_entry reg olt = \<lparr>oe_OLT = olt, oe_stack = length (rg_stacks reg), oe_BoardPons = olt_BoardPons olt,
     oe_UserID = olt_UserID olt\<rparr>"

definition connectable :: "'w reg_deps \<Rightarrow> OLTRuntimeConfig \<Rightarrow> bool" where
  "connectable d olt \<longleftrightarrow> olt_Host olt \<noteq> [] \<and> olt_Port olt \<noteq> 0 \<and> olt_Community olt \<noteq> []
     \<and> (\<forall>w. \<exists>conn w'. rd_dial d (snmp_target_for (rd_env d) (olt_Host olt) (olt_Port olt) (olt_Community olt)) w
              = (Inr conn, w'))"

lemma addOLTLocked_cases:
  obtains (failed) err w' where "addOLTLocked d olt reg w = ((Some err, reg), w')" "\<not> connectable d olt"
  | (added) u w' where "built d reg olt u" "addOLTLocked d olt reg w = ((None,
      reg\<lparr>rg_entries := gm_set (olt_ID olt) (fresh_entry reg olt) (rg_entries reg),
          rg_stacks := rg_stacks reg @ [new_stack u]\<rparr>), w')"
proof (cases "SetupSnmpConnectionWith (rd_env d) (rd_dial d) (olt_Host olt) (olt_Port olt) (olt_Community olt) w")
  case (Pair r w1)
  let ?t = "snmp_target_for (rd_env d) (olt_Host olt) (olt_Port olt) (olt_Community olt)"
  show ?thesis
  proof (cases r)
    case (Inl err)
    have "\<not> connectable d olt"
    proof
      assume c: "connectable d olt"
      then obtain conn w' where "rd_dial d ?t w = (Inr conn, w')"
        unfolding connectable_def by blast
      then show False using c Pair Inl by (auto simp: connectable_def SetupSnmpConnectionWith_def)
    qed
    then show ?thesis by (rule failed [rotated]) (simp add: addOLTLocked_def Pair Inl)
  next
    case (Inr conn)
    obtain repo w2 where repo: "NewPonRepositoryWithConcurrency (rd_dial d) ?t conn (olt_UseWalk olt) w1 = (repo, w2)"
      by fastforce
    then have "sr_conn repo = conn" "sr_acquire repo = (\<lambda>w. (True, w))" "sr_useWalk repo = olt_UseWalk olt"
      by (auto simp: NewPonRepositoryWithConcurrency_def split: prod.splits)
    moreover have "\<exists>w'. rd_dial d ?t w = (Inr conn, w')"
      using Pair Inr by (auto simp: SetupSnmpConnectionWith_def split: if_splits prod.splits sum.splits)
    ultimately have "built d reg olt (NewOnuUsecaseForOLT d repo (ForOLT (rd_cfg d) olt) (cachePrefix reg olt))"
      unfolding built_def by blast
    then show ?thesis
      by (rule added) (simp add: addOLTLocked_def Pair Inr repo fresh_entry_def Let_def)
  qed
qed

lemma new_stack_serving [simp]: "serving (new_stack u)"
  by (simp add: new_stack_def stack_defs)

lemma gm_set_new: "k \<notin> fst ` set m \<Longrightarrow> gm_set k v m = m @ [(k, v)]"
  by (induction m) auto

lemma add_inv:
  assumes "reg_inv reg" "gm_get (rg_entries reg) (olt_ID olt) = None"
    and "reg' = reg\<lparr>rg_entries := gm_set (olt_ID olt) (fresh_entry reg olt) (rg_entries reg),
          rg_stacks := rg_stacks reg @ [new_stack u]\<rparr>"
  shows "reg_inv reg'" "mapped reg' = insert (length (rg_stacks reg)) (mapped reg)"
proof -
  have k: "olt_ID olt \<notin> fst ` set (rg_entries reg)" using assms(2) by (simp add: map_of_eq_None_iff)
  have e: "rg_entries reg' = rg_entries reg @ [(olt_ID olt, fresh_entry reg olt)]"
    using k assms(3) by (simp add: gm_set_new)
  have st: "rg_stacks reg' = rg_stacks reg @ [new_stack u]" using assms(3) by simp
  show m: "mapped reg' = insert (length (rg_stacks reg)) (mapped reg)"
    by (simp add: mapped_def e fresh_entry_def)
  have inv: "gm_wf (rg_entries reg)" "inj_on (\<lambda>p. oe_stack (snd p)) (set (rg_entries reg))"
    "\<forall>(k, e) \<in> set (rg_entries reg). olt_ID (oe_OLT e) = k" "mapped reg \<subseteq> {..<length (rg_stacks reg)}"
    using assms(1) by (simp_all add: reg_inv_def)
  show "reg_inv reg'"
    unfolding reg_inv_def m
  proof (intro conjI allI impI)
    show "gm_wf (rg_entries reg')" using k inv(1) by (simp add: e)
    have "length (rg_stacks reg) \<notin> (\<lambda>p. oe_stack (snd p)) ` set (rg_entries reg)"
      using inv(4) by (auto simp: mapped_def)
    then show "inj_on (\<lambda>p. oe_stack (snd p)) (set (rg_entries reg'))"
      using inv(2) k by (auto simp: e fresh_entry_def)
    show "\<forall>(k, e) \<in> set (rg_entries reg'). olt_ID (oe_OLT e) = k"
      using inv(3) by (auto simp: e fresh_entry_def)
    show "insert (length (rg_stacks reg)) (mapped reg) \<subseteq> {..<length (rg_stacks reg')}"
      using inv(4) by (auto simp: st)
    fix i assume i: "i < length (rg_stacks reg')"
    show "if i \<in> insert (length (rg_stacks reg)) (mapped reg) then serving (rg_stacks reg' ! i)
        else retired (rg_stacks reg' ! i)"
      using reg_inv_stack [OF assms(1), of i] i
      by (cases "i < length (rg_stacks reg)") (simp_all add: st nth_append new_stack_serving less_Suc_eq)
  qed
qed


text \<open>A metadata update keeps the stack.\<close>

lemma gm_set_same:
  assumes "gm_wf m" "gm_get m k = Some v"
  shows "set (gm_set k v' m) = insert (k, v') (set m - {(k, v)})"
proof (intro set_eqI)
  fix x :: "'a \<times> 'b"
  obtain a b where x: "x = (a, b)" by (cases x)
  have "(a, b) \<in> set (gm_set k v' m) \<longleftrightarrow> gm_get (gm_set k v' m) a = Some b"
    by (simp only: map_of_eq_Some_iff [OF gm_wf_set [OF assms(1)]])
  also have "\<dots> \<longleftrightarrow> (if a = k then b = v' else gm_get m a = Some b)" by (auto simp: gm_get_set)
  also have "\<dots> \<longleftrightarrow> (a, b) \<in> insert (k, v') (set m - {(k, v)})"
    using assms(2) by (auto simp: map_of_eq_Some_iff [OF assms(1), symmetric] simp del: map_of_eq_Some_iff)
  finally show "x \<in> set (gm_set k v' m) \<longleftrightarrow> x \<in> insert (k, v') (set m - {(k, v)})" by (simp only: x)
qed

lemma meta_inv:
  assumes "reg_inv reg" "gm_get (rg_entries reg) k = Some e" "oe_stack e' = oe_stack e" "olt_ID (oe_OLT e') = k"
    and "reg' = reg\<lparr>rg_entries := gm_set k e' (rg_entries reg)\<rparr>"
  shows "reg_inv reg'" "mapped reg' = mapped reg"
proof -
  have inv: "gm_wf (rg_entries reg)" "inj_on (\<lambda>p. oe_stack (snd p)) (set (rg_entries reg))"
    "\<forall>(k, e) \<in> set (rg_entries reg). olt_ID (oe_OLT e) = k" "mapped reg \<subseteq> {..<length (rg_stacks reg)}"
    using assms(1) by (simp_all add: reg_inv_def)
  note mem = map_of_SomeD [OF assms(2)]
  have e: "set (rg_entries reg') = insert (k, e') (set (rg_entries reg) - {(k, e)})"
    using gm_set_same [OF inv(1) assms(2)] by (simp add: assms(5))
  have wf': "gm_wf (rg_entries reg')" using gm_wf_set [OF inv(1)] by (simp add: assms(5))
  have rest: "(\<lambda>p. oe_stack (snd p)) ` (set (rg_entries reg) - {(k, e)}) = mapped reg - {oe_stack e}"
    using inj_on_image_set_diff [OF inv(2), of "set (rg_entries reg)" "{(k, e)}"] mem by (simp add: mapped_def)
  have m: "mapped reg' = mapped reg"
    using mapped_mem [OF assms(2)] rest unfolding mapped_def e by (auto simp: assms(3))
  show "mapped reg' = mapped reg" by (rule m)
  have "inj_on (\<lambda>p. oe_stack (snd p)) (insert (k, e') (set (rg_entries reg) - {(k, e)}))"
    using inj_on_subset [OF inv(2), of "set (rg_entries reg) - {(k, e)}"] rest by (auto simp: assms(3))
  moreover have "\<forall>(k, e) \<in> set (rg_entries reg'). olt_ID (oe_OLT e) = k"
    using inv(3) assms(4) unfolding e by auto
  ultimately show "reg_inv reg'"
    using assms(1) wf' unfolding reg_inv_def m e [symmetric] by (simp add: assms(5))
qed


subsection \<open>What \<open>Reconcile\<close> does\<close>

text \<open>No stack is forgotten or rebuilt in place.\<close>

definition extends :: "'w registry \<Rightarrow> 'w registry \<Rightarrow> bool" where
  "extends reg reg' \<longleftrightarrow> rg_defaultOLT reg' = rg_defaultOLT reg \<and> length (rg_stacks reg) \<le> length (rg_stacks reg')
     \<and> (\<forall>i < length (rg_stacks reg). sk_uc (rg_stacks reg' ! i) = sk_uc (rg_stacks reg ! i))"

lemma extends_refl [simp]: "extends reg reg"
  by (simp add: extends_def)

lemma extends_trans: "\<lbrakk>extends a b; extends b c\<rbrakk> \<Longrightarrow> extends a c"
  by (simp add: extends_def)

lemma extends_prefix: "extends reg reg' \<Longrightarrow> cachePrefix reg' = cachePrefix reg" "extends reg reg' \<Longrightarrow> built d reg' = built d reg"
  by (auto simp: extends_def cachePrefix_def built_def fun_eq_iff)

text \<open>The entry of an OLT of the inventory: kept with its stack, or built anew, or not connected.\<close>

definition keeps :: "'w registry \<Rightarrow> OLTRuntimeConfig \<Rightarrow> OLTEntry option" where
  "keeps reg olt = (case gm_get (rg_entries reg) (olt_ID olt) of
     None \<Rightarrow> None | Some e \<Rightarrow> if oltChangeKey (oe_OLT e) = oltChangeKey olt then Some e else None)"

definition entry_after :: "'w reg_deps \<Rightarrow> 'w registry \<Rightarrow> 'w registry \<Rightarrow> OLTRuntimeConfig \<Rightarrow> bool" where
  "entry_after d reg reg' olt \<longleftrightarrow>
     (case keeps reg olt of
        Some e \<Rightarrow> gm_get (rg_entries reg') (olt_ID olt) = Some (e\<lparr>oe_OLT := olt, oe_UserID := olt_UserID olt\<rparr>)
      | None \<Rightarrow> (gm_get (rg_entries reg') (olt_ID olt) = None \<and> \<not> connectable d olt)
          \<or> (\<exists>i. length (rg_stacks reg) \<le> i \<and> i < length (rg_stacks reg') \<and> built d reg olt (sk_uc (rg_stacks reg' ! i))
               \<and> gm_get (rg_entries reg') (olt_ID olt) = Some \<lparr>oe_OLT = olt, oe_stack = i,
                   oe_BoardPons = olt_BoardPons olt, oe_UserID = olt_UserID olt\<rparr>))"

lemma on_stack_extends: "(\<And>s. sk_uc (f s) = sk_uc s) \<Longrightarrow> extends reg (on_stack i f reg)"
  by (simp add: extends_def on_stack_def) (metis nth_list_update_eq nth_list_update_neq)

lemma retireEntry_uc [simp]: "sk_uc (retireEntry s) = sk_uc s"
  by (simp add: retireEntry_def)

lemma removeOLTLocked_extends: "extends reg (removeOLTLocked k e reg)"
  using on_stack_extends [OF retireEntry_uc, of reg "oe_stack e"]
  by (simp add: extends_def removeOLTLocked_def Let_def)

lemma entry_after_new:
  assumes "keeps reg olt = None"
    and "(gm_get (rg_entries reg') (olt_ID olt) = None \<and> \<not> connectable d olt)
       \<or> (length (rg_stacks reg) < length (rg_stacks reg')
          \<and> built d reg olt (sk_uc (rg_stacks reg' ! length (rg_stacks reg)))
          \<and> gm_get (rg_entries reg') (olt_ID olt) = Some (fresh_entry reg olt))"
  shows "entry_after d reg reg' olt"
  using assms(2) unfolding entry_after_def assms(1) option.case fresh_entry_def by blast

lemma removeOLTLocked_get: "gm_get (rg_entries (removeOLTLocked k e reg)) k' = (if k' = k then None else gm_get (rg_entries reg) k')"
  by (simp add: removeOLTLocked_def Let_def map_simps)

lemma add_step:
  assumes "reg_inv reg" "gm_get (rg_entries reg) (olt_ID olt) = None" "addOLTLocked d olt reg w = ((r, reg'), w')"
  shows "reg_inv reg' \<and> extends reg reg'
    \<and> (\<forall>k. k \<noteq> olt_ID olt \<longrightarrow> gm_get (rg_entries reg') k = gm_get (rg_entries reg) k)
    \<and> ((gm_get (rg_entries reg') (olt_ID olt) = None \<and> \<not> connectable d olt)
       \<or> (length (rg_stacks reg) < length (rg_stacks reg')
          \<and> built d reg olt (sk_uc (rg_stacks reg' ! length (rg_stacks reg)))
          \<and> gm_get (rg_entries reg') (olt_ID olt) = Some (fresh_entry reg olt)))"
proof (cases rule: addOLTLocked_cases [where d = d and olt = olt and reg = reg and w = w])
  case (failed err w'')
  then show ?thesis using assms by simp
next
  case (added u w'')
  then have reg': "reg' = reg\<lparr>rg_entries := gm_set (olt_ID olt) (fresh_entry reg olt) (rg_entries reg),
          rg_stacks := rg_stacks reg @ [new_stack u]\<rparr>" using assms(3) by simp
  have "extends reg reg'" "sk_uc (rg_stacks reg' ! length (rg_stacks reg)) = u"
    by (simp_all add: reg' extends_def nth_append new_stack_def)
  then show ?thesis
    using add_inv(1) [OF assms(1,2) reg'] added(1) by (auto simp: reg' map_simps)
qed

lemma reconcile_one_spec:
  assumes "reg_inv reg" "reconcile_one d olt reg w = (reg', w')"
  shows "reg_inv reg'" "extends reg reg'" "entry_after d reg reg' olt"
    "k \<noteq> olt_ID olt \<Longrightarrow> gm_get (rg_entries reg') k = gm_get (rg_entries reg) k"
proof -
  have "reg_inv reg' \<and> extends reg reg' \<and> entry_after d reg reg' olt
    \<and> (\<forall>k. k \<noteq> olt_ID olt \<longrightarrow> gm_get (rg_entries reg') k = gm_get (rg_entries reg) k)"
  proof (cases "gm_get (rg_entries reg) (olt_ID olt)")
    case None
    then have "keeps reg olt = None" by (simp add: keeps_def)
    moreover obtain r where "addOLTLocked d olt reg w = ((r, reg'), w')"
      using assms(2) None by (auto simp: reconcile_one_def split: prod.splits)
    ultimately show ?thesis
      using add_step [OF assms(1) None] entry_after_new by blast
  next
    case (Some e)
    show ?thesis
    proof (cases "oltChangeKey (oe_OLT e) = oltChangeKey olt")
      case True
      then have r: "reg' = reg\<lparr>rg_entries := gm_set (olt_ID olt)
          (e\<lparr>oe_OLT := olt, oe_UserID := olt_UserID olt\<rparr>) (rg_entries reg)\<rparr>"
        using assms(2) Some by (simp add: reconcile_one_def)
      have "keeps reg olt = Some e" using True Some by (simp add: keeps_def)
      moreover have "extends reg reg'" by (simp add: extends_def r)
      ultimately show ?thesis
        using meta_inv(1) [OF assms(1) Some _ _ r] by (simp add: entry_after_def r map_simps)
    next
      case False
      let ?m = "removeOLTLocked (olt_ID olt) e reg"
      obtain r where a: "addOLTLocked d olt ?m w = ((r, reg'), w')"
        using assms(2) Some False by (auto simp: reconcile_one_def split: prod.splits)
      have k: "keeps reg olt = None" using False Some by (simp add: keeps_def)
      have "gm_get (rg_entries ?m) (olt_ID olt) = None" by (simp add: removeOLTLocked_get)
      note s = add_step [OF removeOLTLocked_inv(1) [OF assms(1) Some] this a]
      have "length (rg_stacks ?m) = length (rg_stacks reg)" by (simp add: removeOLTLocked_def Let_def)
      moreover from this have "fresh_entry ?m olt = fresh_entry reg olt" by (simp add: fresh_entry_def)
      ultimately have "entry_after d reg reg' olt"
        using s entry_after_new [OF k] unfolding extends_prefix(2) [OF removeOLTLocked_extends] by simp
      moreover have "extends reg reg'"
        using extends_trans [OF removeOLTLocked_extends] s by blast
      ultimately show ?thesis using s by (simp add: removeOLTLocked_get)
    qed
  qed
  then show "reg_inv reg'" "extends reg reg'" "entry_after d reg reg' olt"
    "k \<noteq> olt_ID olt \<Longrightarrow> gm_get (rg_entries reg') k = gm_get (rg_entries reg) k" by blast+
qed


lemma reconcile_all_inv:
  "\<lbrakk>reg_inv reg; reconcile_all d olts reg w = (reg', w')\<rbrakk> \<Longrightarrow> reg_inv reg' \<and> extends reg reg'"
proof (induction olts arbitrary: reg w)
  case (Cons olt olts)
  obtain reg1 w1 where one: "reconcile_one d olt reg w = (reg1, w1)" by fastforce
  note s = reconcile_one_spec [OF Cons.prems(1) one]
  show ?case using Cons.IH [OF s(1)] Cons.prems(2) one extends_trans [OF s(2)] by auto
qed simp

lemma entry_after_later:
  assumes "entry_after d reg reg1 olt" "extends reg1 reg'"
    and "gm_get (rg_entries reg') (olt_ID olt) = gm_get (rg_entries reg1) (olt_ID olt)"
  shows "entry_after d reg reg' olt"
proof (cases "keeps reg olt")
  case None
  have "sk_uc (rg_stacks reg' ! i) = sk_uc (rg_stacks reg1 ! i) \<and> i < length (rg_stacks reg')"
    if "i < length (rg_stacks reg1)" for i
    using assms(2) that by (simp add: extends_def)
  then show ?thesis using assms(1) unfolding entry_after_def None option.case assms(3) by metis
next
  case (Some e)
  then show ?thesis using assms(1) by (simp add: entry_after_def assms(3))
qed

lemma entry_after_earlier:
  assumes "entry_after d reg1 reg' olt" "extends reg reg1"
    and "gm_get (rg_entries reg1) (olt_ID olt) = gm_get (rg_entries reg) (olt_ID olt)"
  shows "entry_after d reg reg' olt"
proof (cases "keeps reg olt")
  case None
  have k: "keeps reg1 olt = None" using None by (simp add: keeps_def assms(3))
  have "length (rg_stacks reg) \<le> length (rg_stacks reg1)" using assms(2) by (simp add: extends_def)
  then show ?thesis
    using assms(1) unfolding entry_after_def None k option.case extends_prefix(2) [OF assms(2)]
    by (meson order_trans)
next
  case (Some e)
  then have "keeps reg1 olt = Some e" by (simp add: keeps_def assms(3))
  with Some show ?thesis using assms(1) by (simp add: entry_after_def)
qed

lemma reconcile_all_spec:
  "\<lbrakk>reg_inv reg; distinct (map olt_ID olts); reconcile_all d olts reg w = (reg', w')\<rbrakk>
   \<Longrightarrow> (\<forall>olt \<in> set olts. entry_after d reg reg' olt)
     \<and> (\<forall>k. k \<notin> olt_ID ` set olts \<longrightarrow> gm_get (rg_entries reg') k = gm_get (rg_entries reg) k)"
proof (induction olts arbitrary: reg w)
  case (Cons olt olts)
  obtain reg1 w1 where one: "reconcile_one d olt reg w = (reg1, w1)" by fastforce
  note s = reconcile_one_spec [OF Cons.prems(1) one]
  have rest: "reconcile_all d olts reg1 w1 = (reg', w')" using Cons.prems(3) one by simp
  note later = reconcile_all_inv [OF s(1) rest]
  have d: "olt_ID olt \<notin> olt_ID ` set olts" "distinct (map olt_ID olts)" using Cons.prems(2) by auto
  note ih = Cons.IH [OF s(1) d(2) rest]
  have "entry_after d reg reg' olt"
    using entry_after_later [OF s(3)] later ih d(1) by blast
  moreover have "entry_after d reg reg' o'" if "o' \<in> set olts" for o'
  proof (rule entry_after_earlier [OF _ s(2)])
    show "entry_after d reg1 reg' o'" using ih that by blast
    show "gm_get (rg_entries reg1) (olt_ID o') = gm_get (rg_entries reg) (olt_ID o')"
      using s(4) d(1) that by (metis image_eqI)
  qed
  ultimately show ?case using ih s(4) by auto
qed simp

lemma remove_missing_spec:
  "\<lbrakk>reg_inv reg; distinct (map fst es); \<forall>(k, e) \<in> set es. gm_get (rg_entries reg) k = Some e\<rbrakk>
   \<Longrightarrow> reg_inv (remove_missing olts es reg) \<and> extends reg (remove_missing olts es reg)
     \<and> (\<forall>k. gm_get (rg_entries (remove_missing olts es reg)) k
          = (if k \<in> fst ` set es \<and> k \<notin> olt_ID ` set olts then None else gm_get (rg_entries reg) k))"
proof (induction es arbitrary: reg)
  case Nil
  then show ?case by (simp add: remove_missing_def)
next
  case (Cons x es)
  obtain k e where x: "x = (k, e)" by (cases x)
  have g: "gm_get (rg_entries reg) k = Some e" and d: "distinct (map fst es)" "k \<notin> fst ` set es"
    and rest: "\<forall>(k, e) \<in> set es. gm_get (rg_entries reg) k = Some e"
    using Cons.prems by (auto simp: x)
  show ?case
  proof (cases "k \<in> olt_ID ` set olts")
    case True
    then have "remove_missing olts (x # es) reg = remove_missing olts es reg"
      by (simp add: remove_missing_def x)
    then show ?thesis using Cons.IH [OF Cons.prems(1) d(1) rest] True by (auto simp: x)
  next
    case False
    let ?m = "removeOLTLocked k e reg"
    have r: "remove_missing olts (x # es) reg = remove_missing olts es ?m"
      using False by (simp add: remove_missing_def x)
    have "\<forall>(k', e) \<in> set es. gm_get (rg_entries ?m) k' = Some e"
      using rest d(2) by (force simp: removeOLTLocked_get)
    note ih = Cons.IH [OF removeOLTLocked_inv(1) [OF Cons.prems(1) g] d(1) this]
    show ?thesis
      unfolding r using ih extends_trans [OF removeOLTLocked_extends] False by (auto simp: x removeOLTLocked_get)
  qed
qed

lemma Reconcile_spec:
  assumes "reg_inv reg" "range_order ord" "Reconcile ord d olts reg w = (reg', w')"
  shows "reg_inv reg'" "extends reg reg'"
    and "distinct (map olt_ID olts) \<Longrightarrow> (\<forall>olt \<in> set olts. entry_after d reg reg' olt)
      \<and> (\<forall>k. k \<notin> olt_ID ` set olts \<longrightarrow> gm_get (rg_entries reg') k = None)"
proof -
  let ?m = "remove_missing olts (ord (rg_entries reg)) reg"
  have wf: "gm_wf (rg_entries reg)" using assms(1) by (simp add: reg_inv_def)
  have p: "mset (ord (rg_entries reg)) = mset (rg_entries reg)" using assms(2) by (rule range_order_mset)
  have "distinct (map fst (ord (rg_entries reg)))" by (rule gm_wf_perm [OF p wf])
  moreover have "\<forall>(k, e) \<in> set (ord (rg_entries reg)). gm_get (rg_entries reg) k = Some e"
    using wf by (auto simp: range_order_set [OF assms(2)])
  moreover note m = remove_missing_spec [OF assms(1) calculation, of olts]
  have keys: "fst ` set (ord (rg_entries reg)) = dom (gm_get (rg_entries reg))"
    by (simp add: range_order_set [OF assms(2)] dom_map_of_conv_image_fst)
  have all: "reconcile_all d olts ?m w = (reg', w')" using assms(3) by (simp add: Reconcile_def)
  note i = reconcile_all_inv [OF conjunct1 [OF m] all]
  show "reg_inv reg'" "extends reg reg'" using i m extends_trans by blast+
  assume "distinct (map olt_ID olts)"
  note s = reconcile_all_spec [OF conjunct1 [OF m] this all]
  have "gm_get (rg_entries ?m) k = None" if "k \<notin> olt_ID ` set olts" for k
    using m that unfolding keys by auto
  moreover have "entry_after d reg reg' olt" if "olt \<in> set olts" for olt
    using entry_after_earlier [of d ?m reg' olt reg] s m that by auto
  ultimately show "(\<forall>olt \<in> set olts. entry_after d reg reg' olt)
      \<and> (\<forall>k. k \<notin> olt_ID ` set olts \<longrightarrow> gm_get (rg_entries reg') k = None)" using s by auto
qed

end
