(* ===== verification/Olt_Lifecycle.thy ===== *)
theory Olt_Lifecycle
  imports Olt_Reconcile
begin

text \<open>
  Properties of the registry at run time, in every interleaving of its operations with the
  background jobs: no pool is closed under a job, closed twice or left open; the registry is the
  inventory; an entry's stack reaches the device the entry names; the trap components read the
  default OLT of the inventory.
\<close>

subsection \<open>Every reachable registry\<close>

lemma GoForEach_inv:
  assumes "reg_inv reg" "range_order ord"
  shows "reg_inv (GoForEach ord reg)" "extends reg (GoForEach ord reg)" "rg_entries (GoForEach ord reg) = rg_entries reg"
proof -
  have "reg_inv (fold f es r) \<and> extends r (fold f es r) \<and> rg_entries (fold f es r) = rg_entries r"
    if "f = (\<lambda>(_, e). on_stack (oe_stack e) start_job)" "reg_inv r" "set es \<subseteq> set (rg_entries r)" for f es r
    using that(2,3)
  proof (induction es arbitrary: r)
    case (Cons x es)
    have f: "f x r = on_stack (oe_stack (snd x)) start_job r" by (simp add: that(1) case_prod_beta)
    have "oe_stack (snd x) \<in> mapped r" using Cons.prems(2) by (auto simp: mapped_def)
    then have "reg_inv (f x r)"
      unfolding f by (intro reg_inv_on_stack Cons.prems(1)) (auto simp: stack_defs start_job_def)
    moreover have "extends r (f x r)" unfolding f by (rule on_stack_extends) (simp add: start_job_def)
    moreover have "rg_entries (f x r) = rg_entries r" by (simp add: f)
    ultimately show ?case using Cons.IH [of "f x r"] Cons.prems(2) extends_trans by auto
  qed simp
  from this [OF refl assms(1)] show "reg_inv (GoForEach ord reg)" "extends reg (GoForEach ord reg)"
    "rg_entries (GoForEach ord reg) = rg_entries reg"
    using range_order_set [OF assms(2)] by (simp_all add: GoForEach_def)
qed

lemma reg_Close_missing: "reg_Close ord reg = remove_missing [] (ord (rg_entries reg)) reg"
  by (simp add: reg_Close_def remove_missing_def removeOLTLocked_def Let_def case_prod_beta)

lemma reg_Close_inv:
  assumes "reg_inv reg" "range_order ord"
  shows "reg_inv (reg_Close ord reg)" "extends reg (reg_Close ord reg)" "gm_get (rg_entries (reg_Close ord reg)) k = None"
proof -
  have c: "Reconcile ord d [] reg w = (reg_Close ord reg, w)" for d w
    by (simp add: Reconcile_def reg_Close_missing)
  show "reg_inv (reg_Close ord reg)" "extends reg (reg_Close ord reg)" "gm_get (rg_entries (reg_Close ord reg)) k = None"
    using Reconcile_spec [OF assms c] by simp_all
qed

lemma reg_step_inv:
  assumes "reg_step ok d reg reg'" "reg_inv reg"
  shows "reg_inv reg' \<and> extends reg reg'"
  using assms(1)
proof cases
  case (reconcile ord olts w w')
  then show ?thesis using Reconcile_spec [OF assms(2)] by blast
next
  case (start_jobs ord)
  then show ?thesis using GoForEach_inv [OF assms(2)] by simp
next
  case (close_all ord)
  then show ?thesis using reg_Close_inv [OF assms(2)] by simp
next
  case (job_returns i)
  then show ?thesis
    by (auto intro!: reg_inv_on_stack assms(2) on_stack_extends simp: stack_defs)
next
  case (job_inactive i)
  then show ?thesis
    by (auto intro!: reg_inv_on_stack assms(2) on_stack_extends simp: stack_defs)
next
  case (job_done i)
  then show ?thesis
    by (auto intro!: reg_inv_on_stack assms(2) on_stack_extends simp: stack_defs)
next
  case (waiter_closes i)
  then show ?thesis
    by (auto intro!: reg_inv_on_stack assms(2) on_stack_extends simp: stack_defs)
qed

definition reachable_reg :: "(OLTRuntimeConfig \<Rightarrow> bool) \<Rightarrow> 'w reg_deps \<Rightarrow> 'w registry \<Rightarrow> bool" where
  "reachable_reg ok d reg \<longleftrightarrow> (\<exists>dflt. (reg_step ok d)\<^sup>*\<^sup>* (NewOLTRegistry dflt) reg)"

lemma reachable_reg_inv:
  assumes "reachable_reg ok d reg"
  shows "reg_inv reg"
proof -
  obtain dflt where "(reg_step ok d)\<^sup>*\<^sup>* (NewOLTRegistry dflt) reg" using assms by (auto simp: reachable_reg_def)
  then show ?thesis by (induction rule: rtranclp_induct) (use reg_inv_new reg_step_inv in blast)+
qed

text \<open>
  C4. A pool is never closed under a job, never closed twice and never left open. In every
  interleaving of polls, updates, shutdown and background jobs, a stack with a job in its function
  has an open pool; a pool is closed at most once; the stacks of the map are open and their jobs not
  cancelled; and of a stack that left the map the jobs are cancelled, and the pool is closed as soon
  as no job and no waiting goroutine is left.
\<close>

theorem pools_closed_once:
  assumes "reachable_reg ok d reg" "i < length (rg_stacks reg)" "s = rg_stacks reg ! i"
  shows "sk_closes s \<le> 1
    \<and> (sk_running s > 0 \<longrightarrow> sk_closes s = 0)
    \<and> (i \<in> mapped reg \<longrightarrow> sk_closes s = 0 \<and> \<not> sk_cancelled s)
    \<and> (i \<notin> mapped reg \<longrightarrow> sk_cancelled s \<and> sk_closes s + sk_waiting s = 1)"
  using reg_inv_stack [OF reachable_reg_inv [OF assms(1)] assms(2)]
  by (auto simp: assms(3) stack_defs split: if_splits)

text \<open>
  C3. \<open>Reconcile\<close> implements ``the inventory is the registry''. Whatever happened before, after it
  an id is in the registry exactly when the inventory has it and its OLT could be connected, with the
  inventory's configuration and owner; an OLT whose connection fields are as before keeps its stack,
  connected or not, and every other one gets a stack that was built for it after the call started.
\<close>

theorem Reconcile_refines:
  assumes "reachable_reg ok d reg" "range_order ord" "distinct (map olt_ID olts)"
    and "Reconcile ord d olts reg w = (reg', w')" "inventory = map_of (map (\<lambda>olt. (olt_ID olt, olt)) olts)"
  shows "(\<forall>k e. reg_Get reg' k = Some e \<longrightarrow> inventory k = Some (oe_OLT e) \<and> oe_UserID e = olt_UserID (oe_OLT e)
        \<and> (case keeps reg (oe_OLT e) of
             Some e0 \<Rightarrow> oe_stack e = oe_stack e0
           | None \<Rightarrow> length (rg_stacks reg) \<le> oe_stack e \<and> built d reg (oe_OLT e) (sk_uc (rg_stacks reg' ! oe_stack e))))
    \<and> (\<forall>k olt. inventory k = Some olt \<and> (keeps reg olt \<noteq> None \<or> connectable d olt) \<longrightarrow> reg_Get reg' k \<noteq> None)"
proof -
  note r = Reconcile_spec(3) [OF reachable_reg_inv [OF assms(1)] assms(2,4,3)]
  have inv: "inventory k = Some olt \<longleftrightarrow> olt \<in> set olts \<and> olt_ID olt = k" for k olt
    unfolding assms(5) using assms(3) by (subst map_of_eq_Some_iff) (auto simp: comp_def)
  have e: "entry_after d reg reg' olt" if "olt \<in> set olts" for olt using r that by blast
  have get: "\<exists>olt \<in> set olts. olt_ID olt = k" if "gm_get (rg_entries reg') k = Some e" for k e
    using r that by (metis image_iff option.distinct(1))
  have entry: "oe_OLT e = olt \<and> oe_UserID e = olt_UserID olt \<and> (case keeps reg olt of Some e0 \<Rightarrow> oe_stack e = oe_stack e0
       | None \<Rightarrow> length (rg_stacks reg) \<le> oe_stack e \<and> built d reg olt (sk_uc (rg_stacks reg' ! oe_stack e)))"
    if "olt \<in> set olts" "gm_get (rg_entries reg') (olt_ID olt) = Some e" for olt e
    using e [OF that(1)] that(2) by (cases "keeps reg olt") (auto simp: entry_after_def)
  have there: "gm_get (rg_entries reg') (olt_ID olt) \<noteq> None" if "olt \<in> set olts" "keeps reg olt \<noteq> None \<or> connectable d olt" for olt
    using e [OF that(1)] that(2) by (cases "keeps reg olt") (auto simp: entry_after_def)
  show ?thesis
  proof (intro conjI allI impI)
    fix k e assume g: "reg_Get reg' k = Some e"
    then obtain olt where o: "olt \<in> set olts" "olt_ID olt = k" using get by (auto simp: reg_Get_def)
    note x = entry [OF o(1), of e]
    show "inventory k = Some (oe_OLT e)" "oe_UserID e = olt_UserID (oe_OLT e)"
      "case keeps reg (oe_OLT e) of Some e0 \<Rightarrow> oe_stack e = oe_stack e0
        | None \<Rightarrow> length (rg_stacks reg) \<le> oe_stack e \<and> built d reg (oe_OLT e) (sk_uc (rg_stacks reg' ! oe_stack e))"
      using x g o by (auto simp: reg_Get_def inv)
  next
    fix k olt assume "inventory k = Some olt \<and> (keeps reg olt \<noteq> None \<or> connectable d olt)"
    then show "reg_Get reg' k \<noteq> None" using there [of olt] by (auto simp: inv reg_Get_def)
  qed
qed


subsection \<open>Entries and their devices\<close>

text \<open>Every entry has a stack that was built for an OLT with its change key.\<close>

definition entry_built :: "(OLTRuntimeConfig \<Rightarrow> bool) \<Rightarrow> 'w reg_deps \<Rightarrow> 'w registry \<Rightarrow> OLTEntry \<Rightarrow> bool" where
  "entry_built ok d reg e \<longleftrightarrow> ok (oe_OLT e) \<and> (\<exists>olt0. ok olt0 \<and> olt_ID olt0 = olt_ID (oe_OLT e)
     \<and> oltChangeKey olt0 = oltChangeKey (oe_OLT e) \<and> oe_BoardPons e = olt_BoardPons olt0
     \<and> built d reg olt0 (sk_uc (rg_stacks reg ! oe_stack e)))"

definition all_built :: "(OLTRuntimeConfig \<Rightarrow> bool) \<Rightarrow> 'w reg_deps \<Rightarrow> 'w registry \<Rightarrow> bool" where
  "all_built ok d reg \<longleftrightarrow> (\<forall>k e. gm_get (rg_entries reg) k = Some e \<longrightarrow> entry_built ok d reg e)"

lemma inv_entry:
  assumes "reg_inv reg" "gm_get (rg_entries reg) k = Some e"
  shows "oe_stack e < length (rg_stacks reg)" "olt_ID (oe_OLT e) = k"
proof -
  show "oe_stack e < length (rg_stacks reg)"
    using mapped_mem [OF assms(2)] assms(1) by (auto simp: reg_inv_def)
  show "olt_ID (oe_OLT e) = k" using map_of_SomeD [OF assms(2)] assms(1) by (auto simp: reg_inv_def)
qed

lemma entry_built_extends:
  assumes "reg_inv reg" "gm_get (rg_entries reg) k = Some e" "extends reg reg'" "entry_built ok d reg e"
  shows "entry_built ok d reg' e"
proof -
  have "sk_uc (rg_stacks reg' ! oe_stack e) = sk_uc (rg_stacks reg ! oe_stack e)"
    using inv_entry(1) [OF assms(1,2)] assms(3) by (simp add: extends_def)
  then show ?thesis using assms(4) by (simp add: entry_built_def extends_prefix(2) [OF assms(3)])
qed

lemma reconcile_one_built:
  assumes "reg_inv reg" "all_built ok d reg" "ok olt" "reconcile_one d olt reg w = (reg', w')"
  shows "all_built ok d reg'"
  unfolding all_built_def
proof (intro allI impI)
  fix k e assume g: "gm_get (rg_entries reg') k = Some e"
  note s = reconcile_one_spec [OF assms(1,4)]
  show "entry_built ok d reg' e"
  proof (cases "k = olt_ID olt")
    case False
    then have "gm_get (rg_entries reg) k = Some e" using g s(4) by simp
    then show ?thesis using entry_built_extends [OF assms(1) _ s(2)] assms(2) by (auto simp: all_built_def)
  next
    case True
    show ?thesis
    proof (cases "keeps reg olt")
      case None
      then obtain i where "built d reg olt (sk_uc (rg_stacks reg' ! i))"
        "e = \<lparr>oe_OLT = olt, oe_stack = i, oe_BoardPons = olt_BoardPons olt, oe_UserID = olt_UserID olt\<rparr>"
        using s(3) g True by (auto simp: entry_after_def)
      then show ?thesis using assms(3) by (auto simp: entry_built_def extends_prefix(2) [OF s(2)])
    next
      case (Some e0)
      then have e0: "gm_get (rg_entries reg) (olt_ID olt) = Some e0" "oltChangeKey (oe_OLT e0) = oltChangeKey olt"
        by (auto simp: keeps_def split: option.splits if_splits)
      have e: "e = e0\<lparr>oe_OLT := olt, oe_UserID := olt_UserID olt\<rparr>"
        using s(3) g True Some by (simp add: entry_after_def)
      have "entry_built ok d reg' e0"
        using entry_built_extends [OF assms(1) e0(1) s(2)] assms(2) e0(1) by (auto simp: all_built_def)
      then show ?thesis
        using assms(3) e0(2) inv_entry(2) [OF assms(1) e0(1)] by (auto simp: entry_built_def e)
    qed
  qed
qed

lemma reconcile_all_built:
  "\<lbrakk>reg_inv reg; all_built ok d reg; list_all ok olts; reconcile_all d olts reg w = (reg', w')\<rbrakk> \<Longrightarrow> all_built ok d reg'"
proof (induction olts arbitrary: reg w)
  case (Cons olt olts)
  obtain reg1 w1 where one: "reconcile_one d olt reg w = (reg1, w1)" by fastforce
  show ?case
    using Cons.IH [OF reconcile_one_spec(1) [OF Cons.prems(1) one] reconcile_one_built [OF Cons.prems(1,2) _ one]]
      Cons.prems(3,4) one by simp
qed simp

lemma all_built_sub:
  assumes "reg_inv reg" "all_built ok d reg" "extends reg reg'"
    and "\<And>k e. gm_get (rg_entries reg') k = Some e \<Longrightarrow> gm_get (rg_entries reg) k = Some e"
  shows "all_built ok d reg'"
  unfolding all_built_def
  using entry_built_extends [OF assms(1) _ assms(3)] assms(2,4) unfolding all_built_def by blast

lemma reg_step_built:
  assumes "reg_step ok d reg reg'" "reg_inv reg" "all_built ok d reg"
  shows "all_built ok d reg'"
  using assms(1)
proof cases
  case (reconcile ord olts w w')
  let ?m = "remove_missing olts (ord (rg_entries reg)) reg"
  have wf: "gm_wf (rg_entries reg)" using assms(2) by (simp add: reg_inv_def)
  have p: "mset (ord (rg_entries reg)) = mset (rg_entries reg)" using reconcile(1) by (rule range_order_mset)
  have "\<forall>(k, e) \<in> set (ord (rg_entries reg)). gm_get (rg_entries reg) k = Some e"
    using wf by (auto simp: range_order_set [OF reconcile(1)])
  note m = remove_missing_spec [OF assms(2) gm_wf_perm [OF p wf] this, of olts]
  have "all_built ok d ?m"
    by (rule all_built_sub [OF assms(2,3)]) (use m in \<open>auto split: if_splits\<close>)
  with reconcile(3) show ?thesis
    by (auto simp: Reconcile_def intro: reconcile_all_built [OF conjunct1 [OF m] _ reconcile(2)])
next
  case (start_jobs ord)
  then show ?thesis
    using all_built_sub [OF assms(2,3) GoForEach_inv(2) [OF assms(2)]] GoForEach_inv(3) [OF assms(2)] by simp
next
  case (close_all ord)
  then show ?thesis using reg_Close_inv(3) [OF assms(2)] by (simp add: all_built_def)
next
  case (job_returns i)
  then show ?thesis using all_built_sub [OF assms(2,3) on_stack_extends] by simp
next
  case (job_inactive i)
  then show ?thesis using all_built_sub [OF assms(2,3) on_stack_extends] by simp
next
  case (job_done i)
  then show ?thesis using all_built_sub [OF assms(2,3) on_stack_extends] by simp
next
  case (waiter_closes i)
  then show ?thesis using all_built_sub [OF assms(2,3) on_stack_extends] by simp
qed

lemma reachable_built:
  assumes "reachable_reg ok d reg"
  shows "all_built ok d reg"
proof -
  obtain dflt where "(reg_step ok d)\<^sup>*\<^sup>* (NewOLTRegistry dflt) reg" using assms by (auto simp: reachable_reg_def)
  then have "reg_inv reg \<and> all_built ok d reg"
  proof (induction rule: rtranclp_induct)
    case base
    show ?case by (simp add: reg_inv_new) (simp add: all_built_def NewOLTRegistry_def)
  next
    case (step y z)
    then show ?case using reg_step_inv [OF step(2)] reg_step_built [OF step(2)] by blast
  qed
  then show ?thesis by simp
qed

text \<open>
  C17. An entry's stack talks to the device the entry names. In every reachable registry the
  connection of an entry was dialled to the host, port and community of the entry's current
  configuration, it walks the way that configuration says, its topology has the configured ports,
  and its cache keys carry the entry's id unless it is the default OLT. Hosts must not contain the
  separator of the change key.
\<close>

theorem entry_reaches_device:
  assumes "reachable_reg (\<lambda>olt. CHR ''|'' \<notin> set (olt_Host olt)) d reg" "reg_Get reg k = Some e"
    and "u = entry_uc reg e" "olt = oe_OLT e"
  shows "(\<exists>w w'. rd_dial d (snmp_target_for (rd_env d) (olt_Host olt) (olt_Port olt) (olt_Community olt)) w
        = (Inr (sr_conn (uc_snmp u)), w'))
    \<and> sr_acquire (uc_snmp u) = (\<lambda>w. (True, w)) \<and> sr_useWalk (uc_snmp u) = olt_UseWalk olt
    \<and> mset (BoardPons (uc_cfg u)) = mset (olt_BoardPons olt) \<and> oe_BoardPons e = BoardPons (uc_cfg u)
    \<and> uc_oltID u = (if k = rg_defaultOLT reg then [] else k)"
proof -
  have g: "gm_get (rg_entries reg) k = Some e" using assms(2) by (simp add: reg_Get_def)
  note inv = reachable_reg_inv [OF assms(1)]
  obtain olt0 where o: "CHR ''|'' \<notin> set (olt_Host olt)" "CHR ''|'' \<notin> set (olt_Host olt0)" "olt_ID olt0 = k"
    "oltChangeKey olt0 = oltChangeKey olt" "oe_BoardPons e = olt_BoardPons olt0"
    "built d reg olt0 (sk_uc (rg_stacks reg ! oe_stack e))"
    using reachable_built [OF assms(1)] g inv_entry(2) [OF inv g] by (auto simp: all_built_def entry_built_def assms(4))
  note same = oltChangeKey_inj [OF o(4,2,1)]
  obtain repo w w' where b: "sk_uc (rg_stacks reg ! oe_stack e) = NewOnuUsecaseForOLT d repo (ForOLT (rd_cfg d) olt0) (cachePrefix reg olt0)"
    "rd_dial d (snmp_target_for (rd_env d) (olt_Host olt0) (olt_Port olt0) (olt_Community olt0)) w = (Inr (sr_conn repo), w')"
    "sr_acquire repo = (\<lambda>w. (True, w))" "sr_useWalk repo = olt_UseWalk olt0"
    using o(6) by (auto simp: built_def)
  have "serving (rg_stacks reg ! oe_stack e)"
    using reg_inv_stack [OF inv inv_entry(1) [OF inv g]] mapped_mem [OF g] by simp
  then have c: "sk_closes (rg_stacks reg ! oe_stack e) = 0" by (simp add: serving_def)
  have u: "uc_snmp u = repo\<lparr>sr_acquire := (\<lambda>w. (True, w))\<rparr>" "uc_cfg u = ForOLT (rd_cfg d) olt0" "uc_oltID u = cachePrefix reg olt0"
    by (simp_all add: assms(3) entry_uc_def stack_uc_def c b(1,3) NewOnuUsecaseForOLT_def)
  show ?thesis
    unfolding u using same b(2,4) o(3,5) by (auto simp: ForOLT_def cachePrefix_def)
qed


subsection \<open>The trap components read the default OLT\<close>

lemma default_fetcher:
  "GetDefault ord reg = Some e \<Longrightarrow> defaultOLTFetcher ordp ord reg = usecase_fetcher ordp (entry_uc reg e)"
  by (simp add: defaultOLTFetcher_def usecase_fetcher_def fun_eq_iff)

interpretation dflt: detail_source "defaultOLTFetcher ordp ord reg"
    "\<lambda>b p. range_order ordp \<and> (\<exists>e c onus val. GetDefault ord reg = Some e \<and> served_port (entry_uc reg e) b p c onus val)"
    "\<lambda>b p n dt. \<forall>e. GetDefault ord reg = Some e \<longrightarrow> device_detail (entry_uc reg e) b p n dt" for ordp ord reg
proof unfold_locales
  fix b p n w
  assume "range_order ordp \<and> (\<exists>e c onus val. GetDefault ord reg = Some e \<and> served_port (entry_uc reg e) b p c onus val)"
  then obtain e c onus val where e: "range_order ordp" "GetDefault ord reg = Some e" "served_port (entry_uc reg e) b p c onus val"
    by blast
  from dev.live [of ordp "entry_uc reg e" b p n w] e(1,3)
  show "\<exists>dt w'. ft_detail (defaultOLTFetcher ordp ord reg) b p n (ft_invalidate (defaultOLTFetcher ordp ord reg) b p n w)
        = (Inr dt, w') \<and> (\<forall>e. GetDefault ord reg = Some e \<longrightarrow> device_detail (entry_uc reg e) b p n dt)"
    unfolding default_fetcher [OF e(2)] by (auto simp: e(2))
qed

text \<open>
  C24. The trap components follow the inventory. Once \<open>Reconcile\<close> has applied an inventory
  that names the default OLT, and the OLT can be connected or kept its connection, an event is
  verified against that OLT's device and no other, also after the default OLT was rebuilt: the handler
  acts on what the stack of the inventory's configuration reads.
\<close>

theorem traps_follow_inventory:
  assumes "reachable_reg ok d reg" "range_order ord" "distinct (map olt_ID olts)" "Reconcile ord d olts reg w = (reg', w')"
    and "olt \<in> set olts" "olt_ID olt = rg_defaultOLT reg" "keeps reg olt \<noteq> None \<or> connectable d olt"
    and "range_order ordp"
  shows "\<exists>e. GetDefault ord' reg' = Some e \<and> oe_OLT e = olt
    \<and> (\<forall>ev c onus val aw inst batcher v. ev_Board ev \<noteq> 0 \<and> ev_PON ev \<noteq> 0 \<and> ev_OnuID ev \<noteq> 0
        \<and> served_port (entry_uc reg' e) (ev_Board ev) (ev_PON ev) c onus val \<longrightarrow>
        (\<exists>dt v'. device_detail (entry_uc reg' e) (ev_Board ev) (ev_PON ev) (ev_OnuID ev) dt
          \<and> HandleEvent (Some (defaultOLTFetcher ordp ord' reg')) aw inst ev batcher v
            = ((if cu_ID dt = 0 then (batcher, []) else alert_or_clear aw inst (verified_event dt ev) batcher), v')))"
proof -
  note r = Reconcile_spec [OF reachable_reg_inv [OF assms(1)] assms(2,4)]
  have e: "entry_after d reg reg' olt" using r(3) assms(3,5) by blast
  have dflt: "rg_defaultOLT reg' = olt_ID olt" using r(2) assms(6) by (simp add: extends_def)
  obtain e where g: "gm_get (rg_entries reg') (olt_ID olt) = Some e" "oe_OLT e = olt"
    using e assms(7) by (cases "keeps reg olt") (auto simp: entry_after_def)
  then have gd: "GetDefault ord' reg' = Some e" by (simp add: GetDefault_def dflt)
  have "\<exists>dt v'. device_detail (entry_uc reg' e) (ev_Board ev) (ev_PON ev) (ev_OnuID ev) dt
          \<and> HandleEvent (Some (defaultOLTFetcher ordp ord' reg')) aw inst ev batcher v
            = ((if cu_ID dt = 0 then (batcher, []) else alert_or_clear aw inst (verified_event dt ev) batcher), v')"
    if z: "ev_Board ev \<noteq> 0" "ev_PON ev \<noteq> 0" "ev_OnuID ev \<noteq> 0"
      and p: "served_port (entry_uc reg' e) (ev_Board ev) (ev_PON ev) c onus val" for ev c onus val aw inst batcher v
  proof -
    have "range_order ordp \<and> (\<exists>e c onus val. GetDefault ord' reg' = Some e
        \<and> served_port (entry_uc reg' e) (ev_Board ev) (ev_PON ev) c onus val)"
      using assms(8) gd p by blast
    from dflt.handler_follows_device [OF this z, of aw inst batcher v] gd show ?thesis by blast
  qed
  with gd g(2) show ?thesis by blast
qed

subsection \<open>The poller\<close>

text \<open>What the poller applies was accepted: usable OLTs with different ids.\<close>

lemma FetchRegistryOLTConfigs_good:
  assumes "FetchRegistryOLTConfigs ordb ops url key zero w = (Inr (Some olts), w')" "range_order ordb"
  shows "list_all mapped_olt olts" "distinct (map olt_ID olts)"
proof -
  obtain js dflt where js: "js \<noteq> []" "BuildOLTRegistry ordb js [] zero = Inr (olts, dflt)"
    using assms(1) by (auto simp: FetchRegistryOLTConfigs_def split: prod.splits sum.splits if_splits)
  show "list_all mapped_olt olts" "distinct (map olt_ID olts)"
    using BuildOLTRegistry_good [OF js(2) assms(2)] js(1) good_olt_mapped by (auto simp: list_all_iff good_registry_def)
qed

text \<open>The registry mirrors an inventory.\<close>

definition mirrors :: "'w reg_deps \<Rightarrow> OLTRuntimeConfig list \<Rightarrow> 'w registry \<Rightarrow> bool" where
  "mirrors d olts reg \<longleftrightarrow>
     (\<forall>k e. reg_Get reg k = Some e \<longrightarrow> oe_OLT e \<in> set olts \<and> olt_ID (oe_OLT e) = k \<and> oe_UserID e = olt_UserID (oe_OLT e))
     \<and> (\<forall>olt \<in> set olts. connectable d olt \<longrightarrow> reg_Get reg (olt_ID olt) \<noteq> None)"

lemma Reconcile_mirrors:
  assumes "reg_inv reg" "range_order ord" "distinct (map olt_ID olts)" "Reconcile ord d olts reg w = (reg', w')"
  shows "mirrors d olts reg'"
proof -
  note r = Reconcile_spec(3) [OF assms(1,2,4,3)]
  have ea: "entry_after d reg reg' olt" if "olt \<in> set olts" for olt using r that by blast
  have one: "oe_OLT e = olt \<and> oe_UserID e = olt_UserID olt"
    if "olt \<in> set olts" "gm_get (rg_entries reg') (olt_ID olt) = Some e" for olt e
    using ea [OF that(1)] that(2) by (cases "keeps reg olt") (auto simp: entry_after_def)
  have there: "gm_get (rg_entries reg') (olt_ID olt) \<noteq> None" if "olt \<in> set olts" "connectable d olt" for olt
    using ea [OF that(1)] that(2) by (cases "keeps reg olt") (auto simp: entry_after_def)
  have "\<exists>olt \<in> set olts. olt_ID olt = k" if "gm_get (rg_entries reg') k = Some e" for k e
    using r that by (metis image_iff option.distinct(1))
  then show ?thesis using one there by (fastforce simp: mirrors_def reg_Get_def)
qed

lemma poll_tick_cases:
  assumes "reachable_reg mapped_olt d reg" "range_order ord" "range_order ordb"
    and "poll_tick ord ordb d ops zero url key reg w = (reg', w')"
  shows "reachable_reg mapped_olt d reg' \<and> (reg' = reg
    \<or> (\<exists>olts w1. FetchRegistryOLTConfigs ordb ops url key zero w = (Inr (Some olts), w1) \<and> mirrors d olts reg'))"
proof (cases "\<exists>olts w1. FetchRegistryOLTConfigs ordb ops url key zero w = (Inr (Some olts), w1)")
  case True
  then obtain olts w1 where f: "FetchRegistryOLTConfigs ordb ops url key zero w = (Inr (Some olts), w1)" by blast
  note good = FetchRegistryOLTConfigs_good [OF f assms(3)]
  have r: "Reconcile ord d olts reg w1 = (reg', w')" using assms(4) f by (simp add: poll_tick_def)
  have "reg_step mapped_olt d reg reg'" by (rule reg_step.reconcile [OF assms(2) good(1) r])
  then have "reachable_reg mapped_olt d reg'"
    using assms(1) unfolding reachable_reg_def by (meson rtranclp.rtrancl_into_rtrancl)
  with f Reconcile_mirrors [OF reachable_reg_inv [OF assms(1)] assms(2) good(2) r] show ?thesis by blast
next
  case False
  then have "reg' = reg" using assms(4) by (auto simp: poll_tick_def split: prod.splits sum.splits option.splits)
  with assms(1) show ?thesis by simp
qed


subsection \<open>Examples\<close>

definition ex_deps :: "(bytes, bytes) gomap reg_deps" where
  "ex_deps = \<lparr>rd_cfg = ex_cfg, rd_redis = plain_redis, rd_env = (\<lambda>_. []),
     rd_dial = (\<lambda>t w. (Inr (sr_conn (table_device ex_olt ex_onus ex_val)), w)),
     rd_now = (\<lambda>w. (0, w)), rd_tz = (\<lambda>_. None)\<rparr>"

definition host_olt :: "bytes \<Rightarrow> OLTRuntimeConfig" where
  "host_olt h = \<lparr>olt_ID = ''c320'', olt_UserID = 0, olt_Host = h, olt_Port = 161, olt_Community = ''public'',
     olt_MaxConcurrent = 0, olt_Boards = [1], olt_BoardPons = [(1, 1)], olt_PonsPerBoard = 1,
     olt_BoardPonMap = [((1, 1), ex_port)], olt_UseWalk = False\<rparr>"

definition host_uc :: "bytes \<Rightarrow> (bytes, bytes) gomap onu_uc" where
  "host_uc h = NewOnuUsecaseForOLT ex_deps (table_device ex_olt ex_onus ex_val) (ForOLT ex_cfg (host_olt h)) []"

definition host_entry :: "bytes \<Rightarrow> nat \<Rightarrow> OLTEntry" where
  "host_entry h i = \<lparr>oe_OLT = host_olt h, oe_stack = i, oe_BoardPons = [(1, 1)], oe_UserID = 0\<rparr>"

text \<open>The OLT is added, a pre-warm starts, and then the inventory gives it another host.\<close>

definition ex_reg1 :: "(bytes, bytes) gomap registry" where
  "ex_reg1 = \<lparr>rg_entries = [(''c320'', host_entry ''a'' 0)], rg_stacks = [new_stack (host_uc ''a'')], rg_defaultOLT = ''c320''\<rparr>"

definition ex_reg3 :: "(bytes, bytes) gomap registry" where
  "ex_reg3 = \<lparr>rg_entries = [(''c320'', host_entry ''b'' 1)],
     rg_stacks = [retireEntry (start_job (new_stack (host_uc ''a''))), new_stack (host_uc ''b'')], rg_defaultOLT = ''c320''\<rparr>"

lemma host_connectable: "h \<noteq> [] \<Longrightarrow> connectable ex_deps (host_olt h)"
  by (simp add: connectable_def host_olt_def ex_deps_def)

lemma pool_filled: "\<exists>p. new_pool (createConnection (rd_dial ex_deps) t) c w = (p, w)"
  by (simp add: new_pool_def createConnection_def ex_deps_def DefaultPoolSize_def numeral_3_eq_3)

lemma host_added:
  assumes "h \<noteq> []" "rg_defaultOLT reg = ''c320''"
  shows "addOLTLocked ex_deps (host_olt h) reg w = ((None, reg\<lparr>rg_entries := gm_set ''c320'' (host_entry h (length (rg_stacks reg))) (rg_entries reg),
     rg_stacks := rg_stacks reg @ [new_stack (host_uc h)]\<rparr>), w)"
proof -
  have c: "SetupSnmpConnectionWith (rd_env ex_deps) (rd_dial ex_deps) (olt_Host (host_olt h)) (olt_Port (host_olt h))
      (olt_Community (host_olt h)) w = (Inr (sr_conn (table_device ex_olt ex_onus ex_val)), w)"
    using assms(1) by (simp add: SetupSnmpConnectionWith_def ex_deps_def host_olt_def)
  have t: "\<lparr>sr_conn = sr_conn (table_device ex_olt ex_onus ex_val), sr_acquire = (\<lambda>w. (True, w)), sr_useWalk = False\<rparr>
      = table_device ex_olt ex_onus ex_val"
    by (simp add: table_device_def Let_def)
  have r: "NewPonRepositoryWithConcurrency (rd_dial ex_deps) tg (sr_conn (table_device ex_olt ex_onus ex_val)) (olt_UseWalk (host_olt h)) w
      = (table_device ex_olt ex_onus ex_val, w)" for tg
    using pool_filled [of "pool_target tg" "sr_conn (table_device ex_olt ex_onus ex_val)" w]
    by (auto simp: NewPonRepositoryWithConcurrency_def t host_olt_def)
  have "cachePrefix reg (host_olt h) = []" by (simp add: cachePrefix_def host_olt_def assms(2))
  then show ?thesis
    unfolding addOLTLocked_def c prod.case sum.case r
    by (simp add: Let_def host_entry_def host_uc_def) (simp add: host_olt_def ex_deps_def)
qed

lemma ex_reg1_reached: "Reconcile (\<lambda>m. m) ex_deps [host_olt ''a''] (NewOLTRegistry ''c320'') w = (ex_reg1, w)"
  by (simp add: Reconcile_def remove_missing_def NewOLTRegistry_def reconcile_one_def host_added ex_reg1_def)

lemma other_host: "oltChangeKey (host_olt ''a'') \<noteq> oltChangeKey (host_olt ''b'')"
  by (simp add: oltChangeKey_def host_olt_def)

lemma ex_reg3_reached: "Reconcile (\<lambda>m. m) ex_deps [host_olt ''b''] (GoForEach (\<lambda>m. m) ex_reg1) w = (ex_reg3, w)"
proof -
  have b: "oe_OLT (host_entry ''a'' 0) = host_olt ''a''" "oe_stack (host_entry ''a'' 0) = 0" "olt_ID (host_olt ''b'') = ''c320''"
    by (simp_all add: host_entry_def host_olt_def)
  have "GoForEach (\<lambda>m. m) ex_reg1 = ex_reg1\<lparr>rg_stacks := [start_job (new_stack (host_uc ''a''))]\<rparr>"
    by (simp add: GoForEach_def ex_reg1_def on_stack_def b(2))
  moreover have "removeOLTLocked ''c320'' (host_entry ''a'' 0) (ex_reg1\<lparr>rg_stacks := [start_job (new_stack (host_uc ''a''))]\<rparr>)
      = \<lparr>rg_entries = [], rg_stacks = [retireEntry (start_job (new_stack (host_uc ''a'')))], rg_defaultOLT = ''c320''\<rparr>"
    by (simp add: removeOLTLocked_def on_stack_def b(2) ex_reg1_def)
  moreover have "gm_get (rg_entries (ex_reg1\<lparr>rg_stacks := s\<rparr>)) ''c320'' = Some (host_entry ''a'' 0)" for s
    by (simp add: ex_reg1_def)
  ultimately have "reconcile_one ex_deps (host_olt ''b'') (GoForEach (\<lambda>m. m) ex_reg1) w = (ex_reg3, w)"
    by (simp add: reconcile_one_def b other_host host_added ex_reg3_def)
  moreover have "remove_missing [host_olt ''b''] (rg_entries (GoForEach (\<lambda>m. m) ex_reg1)) (GoForEach (\<lambda>m. m) ex_reg1)
      = GoForEach (\<lambda>m. m) ex_reg1"
    unfolding \<open>GoForEach (\<lambda>m. m) ex_reg1 = _\<close> by (simp add: remove_missing_def ex_reg1_def b(3))
  ultimately show ?thesis by (simp add: Reconcile_def)
qed

lemma ex_reachable:
  "reachable_reg (\<lambda>olt. CHR ''|'' \<notin> set (olt_Host olt)) ex_deps (GoForEach (\<lambda>m. m) ex_reg1)"
  "reachable_reg (\<lambda>olt. CHR ''|'' \<notin> set (olt_Host olt)) ex_deps ex_reg3"
proof -
  let ?step = "reg_step (\<lambda>olt. CHR ''|'' \<notin> set (olt_Host olt)) ex_deps"
  have a: "?step (NewOLTRegistry ''c320'') ex_reg1"
    by (rule reg_step.reconcile [OF range_order_id _ ex_reg1_reached]) (simp add: host_olt_def)
  have b: "?step ex_reg1 (GoForEach (\<lambda>m. m) ex_reg1)"
    by (rule reg_step.start_jobs [OF range_order_id])
  have c: "?step (GoForEach (\<lambda>m. m) ex_reg1) ex_reg3"
    by (rule reg_step.reconcile [OF range_order_id _ ex_reg3_reached]) (simp add: host_olt_def)
  have ab: "?step\<^sup>*\<^sup>* (NewOLTRegistry ''c320'') (GoForEach (\<lambda>m. m) ex_reg1)"
    by (rule converse_rtranclp_into_rtranclp [OF a r_into_rtranclp [of ?step, OF b]])
  show "reachable_reg (\<lambda>olt. CHR ''|'' \<notin> set (olt_Host olt)) ex_deps (GoForEach (\<lambda>m. m) ex_reg1)"
    unfolding reachable_reg_def by (rule exI [of _ "''c320''"]) (rule ab)
  show "reachable_reg (\<lambda>olt. CHR ''|'' \<notin> set (olt_Host olt)) ex_deps ex_reg3"
    unfolding reachable_reg_def
    by (rule exI [of _ "''c320''"]) (rule rtranclp.rtrancl_into_rtrancl [of ?step, OF ab c])
qed

theorem pools_closed_once_witness:
  "sk_running (rg_stacks ex_reg3 ! 0) = 1 \<and> sk_closes (rg_stacks ex_reg3 ! 0) = 0 \<and> sk_cancelled (rg_stacks ex_reg3 ! 0)
   \<and> sk_waiting (rg_stacks ex_reg3 ! 0) = 1"
proof -
  have "sk_running (rg_stacks ex_reg3 ! 0) = 1" "0 \<notin> mapped ex_reg3"
    by (simp_all add: ex_reg3_def retireEntry_def start_job_def new_stack_def mapped_def host_entry_def)
  then show ?thesis
    using pools_closed_once [OF ex_reachable(2) _ refl, of 0] by (simp add: ex_reg3_def)
qed


lemma host_olt_fields: "olt_ID (host_olt h) = ''c320''" "olt_Host (host_olt h) = h"
  by (simp_all add: host_olt_def)

lemma ex_reg3_entry: "reg_Get ex_reg3 ''c320'' = Some (host_entry ''b'' 1)"
  by (simp add: reg_Get_def ex_reg3_def)

theorem Reconcile_refines_witness:
  "length (rg_stacks (GoForEach (\<lambda>m. m) ex_reg1)) \<le> 1
   \<and> built ex_deps (GoForEach (\<lambda>m. m) ex_reg1) (host_olt ''b'') (sk_uc (rg_stacks ex_reg3 ! 1))"
proof -
  have k: "keeps (GoForEach (\<lambda>m. m) ex_reg1) (host_olt ''b'') = None"
    by (simp add: keeps_def GoForEach_def ex_reg1_def on_stack_def host_entry_def host_olt_fields other_host)
  have o: "oe_OLT (host_entry ''b'' 1) = host_olt ''b''" "oe_stack (host_entry ''b'' 1) = 1"
    by (simp_all add: host_entry_def)
  have dist: "distinct (map olt_ID [host_olt ''b''])" by simp
  have "case keeps (GoForEach (\<lambda>m. m) ex_reg1) (oe_OLT (host_entry ''b'' 1)) of
      Some e0 \<Rightarrow> oe_stack (host_entry ''b'' 1) = oe_stack e0
    | None \<Rightarrow> length (rg_stacks (GoForEach (\<lambda>m. m) ex_reg1)) \<le> oe_stack (host_entry ''b'' 1)
        \<and> built ex_deps (GoForEach (\<lambda>m. m) ex_reg1) (oe_OLT (host_entry ''b'' 1)) (sk_uc (rg_stacks ex_reg3 ! oe_stack (host_entry ''b'' 1)))"
    using conjunct1 [OF Reconcile_refines [OF ex_reachable(1) range_order_id dist ex_reg3_reached refl], rule_format, OF ex_reg3_entry]
    by blast
  then show ?thesis unfolding o k by simp
qed

theorem entry_reaches_device_witness:
  "\<exists>w w'. rd_dial ex_deps (snmp_target_for (rd_env ex_deps) ''b'' 161 ''public'') w
     = (Inr (sr_conn (uc_snmp (entry_uc ex_reg3 (host_entry ''b'' 1)))), w')"
  using entry_reaches_device [OF ex_reachable(2) ex_reg3_entry refl refl]
  by (simp add: host_entry_def host_olt_def)

lemma ex_reg3_served: "served_port (entry_uc ex_reg3 (host_entry ''b'' 1)) 1 1 ex_olt ex_onus ex_val"
proof -
  have u: "entry_uc ex_reg3 (host_entry ''b'' 1) = host_uc ''b''"
    by (simp add: entry_uc_def stack_uc_def ex_reg3_def host_entry_def new_stack_def)
  have "BoardPonMap ex_cfg = [((1, 1), ex_port)]" by (simp add: ex_cfg_def Let_def)
  then have "BoardPonMap (uc_cfg (host_uc ''b'')) = BoardPonMap (uc_cfg ex_uc)" "OltCfg (uc_cfg (host_uc ''b'')) = OltCfg (uc_cfg ex_uc)"
    by (simp_all add: host_uc_def NewOnuUsecaseForOLT_def ForOLT_def host_olt_def ex_uc_def)
  then have "getOltConfig (host_uc ''b'') 1 1 = getOltConfig ex_uc 1 1"
    by (simp add: getOltConfig_def getBoardConfig_def cong: sum.case_cong)
  then have "getOltConfig (host_uc ''b'') 1 1 = Inr ex_olt" using ex_uc_config by metis
  moreover have "uc_snmp (host_uc ''b'') = table_device ex_olt ex_onus ex_val"
    by (simp add: host_uc_def NewOnuUsecaseForOLT_def)
  ultimately show ?thesis unfolding u served_port_def by (simp add: table_device_serves ex_uc_numbers)
qed

theorem traps_follow_inventory_witness:
  "\<exists>dt v'. device_detail (entry_uc ex_reg3 (host_entry ''b'' 1)) 1 1 7 dt
     \<and> HandleEvent (Some (defaultOLTFetcher rev rev ex_reg3)) no_active None
         (zero_event\<lparr>ev_Board := 1, ev_PON := 1, ev_OnuID := 7\<rparr>) (Some []) []
       = ((if cu_ID dt = 0 then (Some [], [])
           else alert_or_clear no_active None (verified_event dt (zero_event\<lparr>ev_Board := 1, ev_PON := 1, ev_OnuID := 7\<rparr>)) (Some [])), v')"
proof -
  let ?ev = "zero_event\<lparr>ev_Board := 1, ev_PON := 1, ev_OnuID := 7\<rparr>"
  have c: "keeps (GoForEach (\<lambda>m. m) ex_reg1) (host_olt ''b'') \<noteq> None \<or> connectable ex_deps (host_olt ''b'')"
    using host_connectable by simp
  have dflt: "olt_ID (host_olt ''b'') = rg_defaultOLT (GoForEach (\<lambda>m. m) ex_reg1)"
    by (simp add: host_olt_fields GoForEach_def ex_reg1_def)
  obtain e where e: "GetDefault rev ex_reg3 = Some e"
    and t: "\<forall>ev c onus val aw inst batcher v. ev_Board ev \<noteq> 0 \<and> ev_PON ev \<noteq> 0 \<and> ev_OnuID ev \<noteq> 0
        \<and> served_port (entry_uc ex_reg3 e) (ev_Board ev) (ev_PON ev) c onus val \<longrightarrow>
        (\<exists>dt v'. device_detail (entry_uc ex_reg3 e) (ev_Board ev) (ev_PON ev) (ev_OnuID ev) dt
          \<and> HandleEvent (Some (defaultOLTFetcher rev rev ex_reg3)) aw inst ev batcher v
            = ((if cu_ID dt = 0 then (batcher, []) else alert_or_clear aw inst (verified_event dt ev) batcher), v'))"
    using traps_follow_inventory [OF ex_reachable(1) range_order_id _ ex_reg3_reached _ dflt c range_order_rev, of rev] by auto
  have "e = host_entry ''b'' 1" using e by (simp add: GetDefault_def ex_reg3_def)
  then show ?thesis
    using spec [OF t, of ?ev] ex_reg3_served by fastforce
qed

end
