(* ===== verification/Onu_Cache.thy ===== *)
theory Onu_Cache
  imports Onu_Queries
begin

text \<open>
  Pages of the ONU list, invalidation of the cache, pre-warming and uptime: properties of
  \<open>internal/usecase/onu.go\<close> and \<open>prewarm.go\<close>.
\<close>

subsection \<open>Pages\<close>

fun page_items :: "'a page \<Rightarrow> 'a list" where
  "page_items (Page (Some ys) _) = ys"
| "page_items _ = []"

lemma paginate_page:
  assumes "0 \<le> k" "1 \<le> psize" "(k + 1) * psize < 9223372036854775808"
  shows "paginate l (k + 1) psize
    = Page (Some (take (nat psize) (drop (nat (k * psize)) (slice_list l)))) (int (length (slice_list l)))"
proof -
  have k: "k \<le> k * psize" "0 \<le> k * psize" "(k + 1) * psize = k * psize + psize"
    using assms mult_left_mono [of 1 psize k] by (simp_all add: distrib_right)
  have s: "int64 k = k" "int64 (k * psize) = k * psize" "int64 (k * psize + psize) = k * psize + psize"
    using assms k by simp_all
  show ?thesis
  proof (cases "k * psize < int (length (slice_list l))")
    case True
    define c where "c = min (k * psize + psize) (int (length (slice_list l)))"
    have e: "(if k * psize + psize > int (length (slice_list l)) then int (length (slice_list l)) else k * psize + psize) = c"
      by (simp add: c_def)
    have c: "k * psize \<le> c" "c \<le> int (length (slice_list l))" using True assms k by (simp_all add: c_def)
    have "take (nat (c - k * psize)) (drop (nat (k * psize)) (slice_list l))
        = take (nat psize) (drop (nat (k * psize)) (slice_list l))"
      using True assms k by (auto simp: c_def min_def)
    with c k show ?thesis using True by (simp add: paginate_def Let_def s e slice_range_def)
  next
    case False
    then show ?thesis using k by (simp add: paginate_def Let_def s)
  qed
qed

lemma concat_chunks:
  "concat (map (\<lambda>k. take m (drop (k * m) xs)) [0..<n]) = take (n * m) xs"
proof (induction n)
  case (Suc n)
  have "take (Suc n * m) xs = take (n * m) xs @ take m (drop (n * m) xs)"
    by (simp add: take_add add.commute [of m])
  then show ?case using Suc by simp
qed simp

text \<open>
  The pages of the ONU list, with any page size of at least one, put together give
  the whole list: no ONU is lost or repeated at a page boundary, and no page panics.
\<close>

theorem pages_cover:
  assumes "1 \<le> psize" "int n * psize < 9223372036854775808" "int (length (slice_list l)) \<le> int n * psize"
  shows "concat (map (\<lambda>k. page_items (paginate l (int k + 1) psize)) [0..<n]) = slice_list l"
proof -
  have page: "page_items (paginate l (int k + 1) psize) = take (nat psize) (drop (k * nat psize) (slice_list l))"
    if "k < n" for k
  proof -
    have "(int k + 1) * psize \<le> int n * psize" using that assms(1) by (intro mult_right_mono) auto
    then have "(int k + 1) * psize < 9223372036854775808" using assms(2) by linarith
    then show ?thesis
      using paginate_page [of "int k" psize l] assms by (simp add: nat_mult_distrib)
  qed
  have "concat (map (\<lambda>k. page_items (paginate l (int k + 1) psize)) [0..<n])
      = concat (map (\<lambda>k. take (nat psize) (drop (k * nat psize) (slice_list l))) [0..<n])"
    using page by (intro arg_cong [of _ _ concat] map_cong) simp_all
  also have "\<dots> = take (n * nat psize) (slice_list l)" by (rule concat_chunks)
  also have "\<dots> = slice_list l"
    using assms(1,3) by (simp add: zle_int [symmetric] del: zle_int)
  finally show ?thesis .
qed

theorem pages_cover_witness:
  "concat (map (\<lambda>k. page_items (paginate (Some [10 :: int, 20, 30]) (int k + 1) 2)) [0..<2]) = [10, 20, 30]"
  using pages_cover [of 2 2 "Some [10 :: int, 20, 30]"] by (simp add: slice_list_def)

text \<open>
  The query does not check the page it is asked for: on a port with ONUs, page 0
  (and every other page below 1 that does not overflow) makes the slice expression panic.
\<close>

theorem page_zero_panics:
  assumes "page \<le> 0" "1 \<le> psize" "- 9223372036854775808 \<le> (page - 1) * psize" "- 9223372036854775808 \<le> page - 1"
  shows "paginate l page psize = Panic"
proof -
  have neg: "(page - 1) * psize < 0" using assms(1,2) by (simp add: mult_neg_pos)
  then have "int64 (int64 (page - 1) * psize) = (page - 1) * psize" using assms by simp
  with neg show ?thesis by (simp add: paginate_def Let_def slice_range_def)
qed

theorem page_zero_panics_witness: "paginate (Some [zero_ONUInfoPerBoard]) 0 10 = Panic"
  by (rule page_zero_panics) simp_all

subsection \<open>Invalidation\<close>

text \<open>
  The documented behaviour of Redis that invalidation relies on, over a view \<open>look\<close> of
  the stored keys: \<open>DEL\<close> touches its key only, and once it has succeeded \<open>GET\<close> finds
  nothing there.
\<close>

definition redis_del_law :: "'w redis_ops \<Rightarrow> ('w \<Rightarrow> bytes \<Rightarrow> bytes option) \<Rightarrow> bool" where
  "redis_del_law ops look \<longleftrightarrow>
     (\<forall>k w k'. k' \<noteq> k \<longrightarrow> look (snd (rd_del ops k w)) k' = look w k')
     \<and> (\<forall>k w n. fst (rd_del ops k w) = Inr n \<longrightarrow> look (snd (rd_del ops k w)) k = None)
     \<and> (\<forall>k w. look w k = None \<longrightarrow> (\<exists>e. fst (rd_get ops k w) = Inl e))"

lemma Delete_other:
  assumes "redis_del_law ops look" "k' \<noteq> k"
  shows "look (snd (Delete ops k w)) k' = look w k'"
  using assms by (auto simp: redis_del_law_def Delete_def split: prod.splits sum.splits) (metis snd_conv)+

lemma Delete_done:
  assumes "redis_del_law ops look" "fst (Delete ops k w) = None"
  shows "look (snd (Delete ops k w)) k = None"
  using assms by (auto simp: redis_del_law_def Delete_def split: prod.splits sum.splits) (metis fst_conv snd_conv)

lemma absent_is_miss:
  assumes "redis_del_law ops look" "look w k = None"
  shows "fst (get_key ops dec what k w) \<noteq> Inr x"
  using assms by (auto simp: redis_del_law_def get_key_def split: prod.splits sum.splits) (metis fst_conv sum.distinct(1))

definition port_entries :: "int \<Rightarrow> int \<Rightarrow> cache_entry set" where
  "port_entries b p = {InfoList b p, SerialList b p}"

lemma DeleteCache_ok:
  assumes "DeleteCache u b p w = (None, w')"
  obtains w1 where "Delete (uc_redis u) (cacheKey (uc_oltID u) (entry_key (InfoList b p))) w = (None, w1)"
    and "w' = snd (Delete (uc_redis u) (cacheKey (uc_oltID u) (entry_key (SerialList b p))) w1)"
  using assms by (auto simp: DeleteCache_def split: sum.splits prod.splits option.splits)

text \<open>
  Deleting the cache of a port removes the ONU list of that port, touches no entry
  of another port, of another kind or of another OLT, and the next read of the port's list does
  not come from the cache.
\<close>

theorem DeleteCache_effect:
  assumes "redis_del_law (uc_redis u) look" "DeleteCache u b p w = (None, w')"
  shows "look w' (cacheKey (uc_oltID u) (entry_key (InfoList b p))) = None
    \<and> (\<forall>oltID e. \<not> (oltID = uc_oltID u \<and> e \<in> port_entries b p)
          \<longrightarrow> look w' (cacheKey oltID (entry_key e)) = look w (cacheKey oltID (entry_key e)))
    \<and> (\<forall>l. fst (GetONUInfoList (uc_redis u) (cacheKey (uc_oltID u) (GenerateRedisKey RedisKeyTypeONUInfo b p)) w')
            \<noteq> Inr (Some l))"
proof -
  let ?k = "\<lambda>e. cacheKey (uc_oltID u) (entry_key e)"
  obtain w1 where w1: "Delete (uc_redis u) (?k (InfoList b p)) w = (None, w1)"
    and w': "w' = snd (Delete (uc_redis u) (?k (SerialList b p)) w1)"
    using DeleteCache_ok [OF assms(2)] .
  have d1: "look w1 (?k (InfoList b p)) = None" using Delete_done [OF assms(1), of "?k (InfoList b p)" w] w1 by simp
  have o1: "look w1 k' = look w k'" if "k' \<noteq> ?k (InfoList b p)" for k'
    using Delete_other [OF assms(1) that, of w] w1 by simp
  have o2: "look w' k' = look w1 k'" if "k' \<noteq> ?k (SerialList b p)" for k'
    using Delete_other [OF assms(1) that, of w1] w' by simp
  have gone: "look w' (?k (InfoList b p)) = None"
    using d1 o2 by (simp add: entry_key_same del: entry_key.simps)
  moreover have "look w' (cacheKey oltID (entry_key e)) = look w (cacheKey oltID (entry_key e))"
    if "\<not> (oltID = uc_oltID u \<and> e \<in> port_entries b p)" for oltID e
  proof -
    have "cacheKey oltID (entry_key e) \<noteq> ?k (InfoList b p)" "cacheKey oltID (entry_key e) \<noteq> ?k (SerialList b p)"
      using that by (auto simp: entry_key_same port_entries_def simp del: entry_key.simps)
    then show ?thesis by (simp add: o1 o2)
  qed
  moreover have "fst (GetONUInfoList (uc_redis u) (cacheKey (uc_oltID u) (GenerateRedisKey RedisKeyTypeONUInfo b p)) w')
      \<noteq> Inr (Some l)" for l
    using absent_is_miss [OF assms(1) gone] by (simp add: GetONUInfoList_def)
  ultimately show ?thesis by blast
qed

lemma plain_redis_del_law: "redis_del_law plain_redis gm_get"
  by (simp add: redis_del_law_def plain_redis_def map_simps)

theorem DeleteCache_effect_witness:
  "\<exists>w'. DeleteCache ex_uc 1 1 [(''olt_c320_board_1_pon_1'', ''null''), (''board_1_pon_1'', ''[]'')] = (None, w')
     \<and> gm_get w' ''olt_c320_board_1_pon_1'' = None \<and> gm_get w' ''board_1_pon_1'' = Some ''[]''"
proof -
  let ?w = "[(''olt_c320_board_1_pon_1'', ''null''), (''board_1_pon_1'', ''[]'')] :: (bytes, bytes) gomap"
  have r: "uc_redis ex_uc = plain_redis" "uc_oltID ex_uc = ''c320''" by (simp_all add: ex_uc_def)
  have d: "DeleteCache ex_uc 1 1 ?w = (None, snd (DeleteCache ex_uc 1 1 ?w))"
    using ex_uc_config by (simp add: DeleteCache_def getOltConfig_def r Delete_def plain_redis_def)
  note e = DeleteCache_effect [OF _ d, of gm_get, unfolded r, OF plain_redis_del_law]
  have k: "cacheKey ''c320'' (entry_key (InfoList 1 1)) = ''olt_c320_board_1_pon_1''"
    "cacheKey [] (entry_key (InfoList 1 1)) = ''board_1_pon_1''" by code_simp+
  have "gm_get (snd (DeleteCache ex_uc 1 1 ?w)) (cacheKey [] (entry_key (InfoList 1 1)))
      = gm_get ?w (cacheKey [] (entry_key (InfoList 1 1)))"
    using e by blast
  with e d k show ?thesis by (intro exI [of _ "snd (DeleteCache ex_uc 1 1 ?w)"]) simp
qed

text \<open>
  The invalidation the trap handler asks for leaves no list, serial list or detail
  of the ONU's port behind when Redis does not fail, and touches no other entry.
\<close>

theorem InvalidateONUCache_effect:
  assumes "redis_del_law (uc_redis u) look" "\<forall>k w. \<exists>n. fst (rd_del (uc_redis u) k w) = Inr n"
  shows "fst (InvalidateONUCache u b p n w) = None
    \<and> (\<forall>oltID e. look (snd (InvalidateONUCache u b p n w)) (cacheKey oltID (entry_key e))
        = (if oltID = uc_oltID u \<and> e \<in> {Detail b p n, InfoList b p, SerialList b p} then None
           else look w (cacheKey oltID (entry_key e))))"
proof -
  let ?k = "\<lambda>e. cacheKey (uc_oltID u) (entry_key e)"
  let ?d = "\<lambda>e w. snd (Delete (uc_redis u) (?k e) w)"
  have ok: "fst (Delete (uc_redis u) k w) = None" for k w
    using spec [OF spec [OF assms(2)], of k w] by (auto simp: Delete_def split: prod.splits sum.splits)
  have one: "look (?d e' w) (cacheKey oltID (entry_key e)) =
      (if oltID = uc_oltID u \<and> e = e' then None else look w (cacheKey oltID (entry_key e)))" for e e' oltID w
    using Delete_done [OF assms(1) ok] Delete_other [OF assms(1)] by (auto simp: entry_key_same simp del: entry_key.simps)
  have r: "InvalidateONUCache u b p n w = (None, ?d (SerialList b p) (?d (InfoList b p) (?d (Detail b p n) w)))"
    by (simp add: InvalidateONUCache_def Let_def)
  show ?thesis unfolding r by (simp add: one del: entry_key.simps)
qed

theorem InvalidateONUCache_effect_witness:
  "gm_get (snd (InvalidateONUCache ex_uc 1 1 5 [(cacheKey ''c320'' (entry_key (SerialList 1 1)), ''[]'')]))
     (cacheKey ''c320'' (entry_key (SerialList 1 1))) = None"
proof -
  have r: "uc_redis ex_uc = plain_redis" "uc_oltID ex_uc = ''c320''" by (simp_all add: ex_uc_def)
  have "\<forall>k w. \<exists>n. fst (rd_del plain_redis k w) = Inr n" by (simp add: plain_redis_def)
  with InvalidateONUCache_effect [of ex_uc gm_get, unfolded r, OF plain_redis_del_law] show ?thesis
    by (simp del: entry_key.simps)
qed

subsection \<open>Pre-warming\<close>

definition serves_all :: "'w onu_uc \<Rightarrow> bool" where
  "serves_all u \<longleftrightarrow> (\<forall>key \<in> fst ` set (BoardPonMap (uc_cfg u)). \<exists>c onus val.
     getOltConfig u (fst key) (snd key) = Inr c \<and> serves (uc_snmp u) c onus val \<and> onu_numbers onus)"

lemma GetByBoardIDAndPonID_served:
  assumes "getOltConfig u b p = Inr c" "serves (uc_snmp u) c onus val" "onu_numbers onus" "range_order ord"
  shows "\<exists>l again w'. GetByBoardIDAndPonID ord u b p w = ((Inr l, again), w')"
proof -
  have wk: "\<exists>l w'. walk_infos ord u c b p w1 = (Inr l, w')" for w1
    using walk_infos_served [OF assms(2-4), of b p w1] by (metis prod.collapse)
  show ?thesis
    unfolding GetByBoardIDAndPonID_def assms(1) Let_def sum.case
    by (auto split: prod.split sum.split option.split) (use wk in \<open>metis Inl_Inr_False fst_conv\<close>)+
qed

lemma prewarm_loop_served:
  assumes "range_order ord" "\<forall>w. fst (stop w) = False"
    and "\<forall>key \<in> set keys. \<exists>c onus val. getOltConfig u (fst key) (snd key) = Inr c
           \<and> serves (uc_snmp u) c onus val \<and> onu_numbers onus"
  shows "fst (prewarm_loop ord u stop keys good errors w) = (True, good + int (length keys), errors)"
  using assms(3)
proof (induction keys arbitrary: good w)
  case (Cons key keys)
  obtain b p where key: "key = (b, p)" by (cases key)
  obtain w1 where d1: "stop w = (False, w1)" using assms(2) by (metis prod.collapse)
  obtain l again w2 where g: "GetByBoardIDAndPonID ord u b p w1 = ((Inr l, again), w2)"
    using Cons.prems key GetByBoardIDAndPonID_served [OF _ _ _ assms(1)] by (metis fst_conv list.set_intros(1) snd_conv)
  obtain w3 where d2: "stop w2 = (False, w3)" using assms(2) by (metis prod.collapse)
  have "fst (prewarm_loop ord u stop keys (good + 1) errors w') = (True, good + 1 + int (length keys), errors)" for w'
    using Cons by simp
  then show ?case using key d1 d2 g by simp
qed simp



subsection \<open>Uptime\<close>

text \<open>
  For an OLT whose clock runs at a fixed offset, the uptime of an ONU is the time
  that has passed since the instant its last-online text stands for in the OLT's own zone, and
  zero if that lies in the future.
\<close>

theorem getUptimeDuration_elapsed:
  assumes "valid_datetime t" "dt_year t < 10000" "uc_now u w = (now, w')"
    and "uc_tz u (oc_Timezone (OltCfg (uc_cfg u))) = Some (fixed_zone offset)" "oc_Timezone (OltCfg (uc_cfg u)) \<noteq> []"
    and "\<bar>now\<bar> < 4611686018427387904" "\<bar>wall_seconds t - offset\<bar> < 4611686018"
  shows "getUptimeDuration u (format_datetime t) w
    = (Inr (ConvertDurationToString (max 0 (now - (wall_seconds t - offset) * 1000000000))), w')"
proof -
  have z: "zoned_seconds (fixed_zone offset) (wall_seconds t) = wall_seconds t - offset"
    using assms(7) by (auto simp: zoned_seconds_def fixed_zone_def Let_def abs_less_iff)
  have l: "oltLocation u = fixed_zone offset" using assms(4,5) by (simp add: oltLocation_def Let_def)
  have sub: "time_sub now (instant_of (wall_seconds t - offset) 0) = now - (wall_seconds t - offset) * 1000000000"
    using assms(6,7) by (simp add: time_sub_def instant_of_def abs_less_iff min_def max_def)
  show ?thesis
    using assms(3) by (simp add: getUptimeDuration_def parse_format_datetime [OF assms(1,2)] l z sub Let_def max_def)
qed

theorem getUptimeDuration_elapsed_witness:
  "\<exists>u. oc_Timezone (OltCfg (uc_cfg u)) = ''Asia/Jakarta''
     \<and> getUptimeDuration u ''2024-01-02 07:00:00'' ()
       = (Inr (ConvertDurationToString (max 0 (1704157200000000000 - 1704153600000000000))), ())"
proof -
  let ?u = "\<lparr>uc_snmp = table_device ex_olt [] ex_val, uc_redis = \<lparr>rd_get = \<lambda>k w. (Inr [], w),
    rd_set = \<lambda>k v t w. (None, w), rd_del = \<lambda>k w. (Inr 0, w), rd_ttl = \<lambda>k w. (Inr 0, w)\<rparr>, uc_cfg = ex_cfg,
    uc_oltID = [], uc_now = (\<lambda>w. (1704157200000000000, w)), uc_tz = (\<lambda>_. Some (fixed_zone 25200))\<rparr> :: unit onu_uc"
  let ?t = "go_date 2024 1 2 7 0 0"
  have t: "valid_datetime ?t \<and> dt_year ?t < 10000" "format_datetime ?t = ''2024-01-02 07:00:00''"
    "wall_seconds ?t = 1704178800" by code_simp+
  have tz: "oc_Timezone (OltCfg (uc_cfg ?u)) = ''Asia/Jakarta''" by (simp add: ex_cfg_def load_OltCfg_def getEnv_def Let_def)
  have "getUptimeDuration ?u (format_datetime ?t) ()
      = (Inr (ConvertDurationToString (max 0 (1704157200000000000 - (wall_seconds ?t - 25200) * 1000000000))), ())"
    by (rule getUptimeDuration_elapsed) (use t tz in simp_all)
  with t tz show ?thesis by (intro exI [of _ ?u]) simp
qed

end
