(* ===== verification/Http_Api.thy ===== *)
theory Http_Api
  imports Http_Routes Olt_Lifecycle Onu_Cache
begin

text \<open>
  Properties of the HTTP API as a whole: who may call it, what a tenant can see of the others,
  that the ids a handler works with name a configured port, what a list request answers, and which
  headers every response carries.
\<close>

subsection \<open>Authentication\<close>

definition unauthorized :: "'e req_ctx \<Rightarrow> headers \<Rightarrow> response" where
  "unauthorized cx h = send_reply h (writeUnauthorized cx)"

lemma gm_get_map_snd: "gm_get (map (\<lambda>(k, v). (k, f v)) m) k = map_option f (gm_get m k)"
  by (induction m) auto

lemma map_of_filter_wf:
  "gm_wf m \<Longrightarrow> gm_get (filter P m) k = (case gm_get m k of None \<Rightarrow> None | Some v \<Rightarrow> if P (k, v) then Some v else None)"
proof (induction m)
  case (Cons x m)
  then have "fst x \<notin> fst ` set m" by simp
  then have "gm_get m (fst x) = None" by (simp add: map_of_eq_None_iff)
  with Cons show ?case by (cases x) (auto split: option.splits)
qed simp

text \<open>What a request with a key of the configured users does.\<close>

definition as_user :: "APIUser \<Rightarrow> 'e req_ctx \<Rightarrow> 'e req_ctx" where
  "as_user u cx = cx\<lparr>cx_Principal := Some \<lparr>pr_UserID = au_UserID u, pr_Admin = IsAdmin u\<rparr>\<rparr>"

lemma served_as:
  assumes "buildUserRegistry js = Inr (Some users)" "sv_users sv = principals (Some users)"
  shows "gm_get users (header_get r ''X-API-Key'') = None \<Longrightarrow> serve_route sv (Rt_Api rt) r cx h w = (unauthorized cx h, w)"
    and "gm_get users (header_get r ''X-API-Key'') = Some u \<Longrightarrow> good_user (header_get r ''X-API-Key'') u
      \<and> serve_route sv (Rt_Api rt) r cx h w = api_endpoint sv rt r (as_user u cx) h w"
proof -
  let ?k = "header_get r ''X-API-Key''"
  have good: "users \<noteq> []" "\<And>k u. gm_get users k = Some u \<Longrightarrow> good_user k u"
    using buildUserRegistry_good [OF assms(1)] by blast+
  have us: "sv_users sv = Some (map (\<lambda>(key, u). (key, \<lparr>pr_UserID = au_UserID u, pr_Admin = IsAdmin u\<rparr>)) users)"
    using good(1) assms(2) by (simp add: principals_def)
  note get = gm_get_map_snd [of "\<lambda>u. \<lparr>pr_UserID = au_UserID u, pr_Admin = IsAdmin u\<rparr>" users ?k]
  show "serve_route sv (Rt_Api rt) r cx h w = (unauthorized cx h, w)" if "gm_get users ?k = None"
    using that by (simp add: serve_route_def Authenticator_def Let_def us get unauthorized_def)
  show "good_user ?k u \<and> serve_route sv (Rt_Api rt) r cx h w = api_endpoint sv rt r (as_user u cx) h w"
    if "gm_get users ?k = Some u"
  proof -
    have g: "good_user ?k u" by (rule good(2) [OF that])
    then have "?k \<noteq> []" by (auto simp: good_user_def)
    with g that show ?thesis
      by (simp add: serve_route_def Authenticator_def Let_def us get WithPrincipal_def as_user_def)
  qed
qed

text \<open>
  C9. The API runs for configured users only, and as the user whose key the request carries. A
  request whose \<open>X-API-Key\<close> is not the key of a configured user is answered 401, on every
  route, and changes nothing; with the key of a user the endpoint runs with the id of that user, who
  is an admin only when the configuration says so and who otherwise has a real tenant id.
\<close>

theorem api_only_with_key:
  assumes "buildUserRegistry js = Inr (Some users)" "sv_users sv = principals (Some users)"
  shows "case gm_get users (header_get r ''X-API-Key'') of
      None \<Rightarrow> serve_route sv (Rt_Api rt) r cx h w = (unauthorized cx h, w)
    | Some u \<Rightarrow> au_APIKey u = header_get r ''X-API-Key'' \<and> (IsAdmin u \<or> 1 \<le> au_UserID u)
        \<and> serve_route sv (Rt_Api rt) r cx h w = api_endpoint sv rt r (as_user u cx) h w"
  using served_as [OF assms] by (auto simp: good_user_def split: option.splits)

subsection \<open>Tenants\<close>

text \<open>The registry as if there were no OLT of another owner.\<close>

definition own_registry :: "int \<Rightarrow> 'w registry \<Rightarrow> 'w registry" where
  "own_registry uid reg = reg\<lparr>rg_entries := filter (\<lambda>(_, e). oe_UserID e = uid) (rg_entries reg)\<rparr>"

lemma owns_user [simp]: "owns (as_user u cx) uid \<longleftrightarrow> IsAdmin u \<or> au_UserID u = uid"
  by (simp add: owns_def as_user_def)

lemma own_registry_endpoint:
  assumes "gm_wf (rg_entries (sv_reg sv))" "\<not> IsAdmin u" "\<forall>ort. rt \<noteq> Api_Default ort"
  shows "api_endpoint (sv\<lparr>sv_reg := own_registry (au_UserID u) (sv_reg sv)\<rparr>) rt r (as_user u cx) h w
    = api_endpoint sv rt r (as_user u cx) h w"
proof (cases rt)
  case (Api_Olt ort)
  let ?reg = "own_registry (au_UserID u) (sv_reg sv)"
  have same: "entry_uc ?reg e = entry_uc (sv_reg sv) e" for e by (simp add: entry_uc_def own_registry_def)
  have onu: "dynamic_onu os ?reg ort = dynamic_onu os (sv_reg sv) ort" for os
    by (simp add: dynamic_onu_def dynamicHandler_def same)
  have "gm_get (filter (\<lambda>(_, e). oe_UserID e = au_UserID u) (rg_entries (sv_reg sv))) k
    = (case gm_get (rg_entries (sv_reg sv)) k of None \<Rightarrow> None | Some e \<Rightarrow> if oe_UserID e = au_UserID u then Some e else None)" for k
    by (auto simp: map_of_filter_wf [OF assms(1)] split: option.splits)
  then show ?thesis
    using assms(2) unfolding Api_Olt
    by (auto simp: api_endpoint_def resolveOLT_def reg_Get_def onu Let_def)
      (auto simp: own_registry_def Let_def split: option.splits)
qed (use assms(3) in \<open>auto simp: api_endpoint_def\<close>)


subsection \<open>The ids of a request\<close>

definition needs_onu :: "onu_route \<Rightarrow> bool" where
  "needs_onu rt \<longleftrightarrow> rt = R_Detail \<or> rt = R_OnuCacheClear"

text \<open>The slot, port and ONU a request names, as numbers in range.\<close>

definition names_port :: "(int, int) gomap \<Rightarrow> onu_route \<Rightarrow> request \<Rightarrow> int \<Rightarrow> int \<Rightarrow> int \<Rightarrow> bool" where
  "names_port pons rt r b p n \<longleftrightarrow>
     atoi (rq_Param r ''board_id'') = Some b \<and> atoi (rq_Param r ''pon_id'') = Some p
     \<and> (\<exists>m. gm_get pons b = Some m \<and> 1 \<le> p \<and> p \<le> m)
     \<and> (needs_onu rt \<longrightarrow> atoi (rq_Param r ''onu_id'') = Some n \<and> 1 \<le> n \<and> n \<le> 128)"

text \<open>The OLT and the route below it that a request is for.\<close>

definition route_entry :: "'w server \<Rightarrow> api_route \<Rightarrow> request \<Rightarrow> (onu_route \<times> OLTEntry) option" where
  "route_entry sv art r =
     (case art of
        Api_Olt rt \<Rightarrow> map_option (Pair rt) (reg_Get (sv_reg sv) (rq_Param r ''olt_id''))
      | Api_Default rt \<Rightarrow> map_option (Pair rt) (GetDefault (or_entries (sv_orders sv)) (sv_reg sv))
      | _ \<Rightarrow> None)"

lemma api_endpoint_owned:
  assumes "route_entry sv art r = Some (rt, e)" "owns cx (oe_UserID e)"
  shows "api_endpoint sv art r cx h w = dynamic_onu (sv_orders sv) (sv_reg sv) rt r (cx\<lparr>cx_Entry := Some e\<rparr>) h w"
  using assms by (cases art) (auto simp: route_entry_def api_endpoint_def resolveOLT_def resolveDefaultOLT_def Let_def)

lemma route_entry_listed:
  assumes "route_entry sv art r = Some (rt, e)" "reg_inv (sv_reg sv)" "range_order (or_entries (sv_orders sv))"
  shows "\<exists>k. reg_Get (sv_reg sv) k = Some e"
proof (cases art)
  case (Api_Default ort)
  have wf: "gm_wf (rg_entries (sv_reg sv))" using assms(2) by (simp add: reg_inv_def)
  have "\<exists>k. (k, e) \<in> set (rg_entries (sv_reg sv))"
    using assms(1) range_order_set [OF assms(3), of "rg_entries (sv_reg sv)"]
    unfolding Api_Default route_entry_def
    by (auto simp: GetDefault_def split: option.splits list.splits prod.splits dest!: map_of_SomeD)
  with wf show ?thesis by (auto simp: reg_Get_def)
qed (use assms(1) in \<open>auto simp: route_entry_def\<close>)

text \<open>The entries of a registry whose OLTs were accepted: their ports have identifiers.\<close>

lemma entry_port:
  assumes "reachable_reg mapped_olt d reg" "reg_Get reg k = Some e"
  shows "oe_BoardPons e \<noteq> []"
    and "(\<exists>c. getOltConfig (entry_uc reg e) b p = Inr c) \<longleftrightarrow> (\<exists>m. gm_get (oe_BoardPons e) b = Some m \<and> 1 \<le> p \<and> p \<le> m)"
    and "gm_get (oe_BoardPons e) b = Some m \<Longrightarrow> valid_slot b \<and> valid_pon m"
proof -
  have g: "gm_get (rg_entries reg) k = Some e" using assms(2) by (simp add: reg_Get_def)
  obtain olt0 repo where o: "mapped_olt olt0" "oe_BoardPons e = olt_BoardPons olt0"
    and u: "sk_uc (rg_stacks reg ! oe_stack e) = NewOnuUsecaseForOLT d repo (ForOLT (rd_cfg d) olt0) (cachePrefix reg olt0)"
    using reachable_built [OF assms(1)] g unfolding all_built_def entry_built_def built_def by blast
  have top: "good_topology (olt_Boards olt0) (olt_BoardPons olt0)" "complete_map (olt_BoardPons olt0) (olt_BoardPonMap olt0)"
    using o(1) by (simp_all add: mapped_olt_def)
  show ne: "oe_BoardPons e \<noteq> []" using top(1) o(2) by (simp add: good_topology_def)
  show valid: "valid_slot b \<and> valid_pon m" if "gm_get (oe_BoardPons e) b = Some m" for b m
    using that top(1) o(2) by (auto simp: good_topology_def good_specs_def dest!: map_of_SomeD)
  have map: "BoardPonMap (uc_cfg (entry_uc reg e)) = olt_BoardPonMap olt0"
    by (simp add: entry_uc_def stack_uc_def u NewOnuUsecaseForOLT_def ForOLT_def)
  have "in_topology (olt_BoardPons olt0) b p \<longleftrightarrow> (\<exists>m. gm_get (oe_BoardPons e) b = Some m \<and> 1 \<le> p \<and> p \<le> m)"
    using ne o(2) valid [of b] by (auto simp: in_topology_def topology_def clamp_pons_def valid_pon_def split: option.splits)
  moreover have "(\<exists>c. getOltConfig (entry_uc reg e) b p = Inr c) \<longleftrightarrow> gm_get (olt_BoardPonMap olt0) (b, p) \<noteq> None"
    by (auto simp: getOltConfig_def getBoardConfig_def GetBoardPonConfig_def map split: option.splits)
  ultimately show "(\<exists>c. getOltConfig (entry_uc reg e) b p = Inr c) \<longleftrightarrow> (\<exists>m. gm_get (oe_BoardPons e) b = Some m \<and> 1 \<le> p \<and> p \<le> m)"
    using top(2) by (auto simp: complete_map_def)
qed

text \<open>
  C5. A handler never sees an id that is not a configured port. For every OLT of a registry that
  follows accepted inventories, a request on a route of a port runs the route's query exactly when its
  ids are numbers that name a configured slot, one of that slot's ports and, where the route needs
  one, an ONU from 1 to 128; the query then runs with these numbers, on the device of that OLT, and
  finds the identifiers of the port. Any other request is answered 400 without effect.
\<close>

theorem requests_name_ports:
  assumes "reachable_reg mapped_olt d (sv_reg sv)" "range_order (or_entries (sv_orders sv))"
    and "route_entry sv art r = Some (rt, e)" "owns cx (oe_UserID e)" "rt \<noteq> R_Uplinks"
  shows "if \<exists>b p n. names_port (oe_BoardPons e) rt r b p n
    then \<exists>b p n c. names_port (oe_BoardPons e) rt r b p n \<and> getOltConfig (entry_uc (sv_reg sv) e) b p = Inr c
      \<and> api_endpoint sv art r cx h w = onu_endpoint (sv_orders sv) rt (entry_uc (sv_reg sv) e) r
          (cx\<lparr>cx_Entry := Some e, cx_BoardID := Some b, cx_PonID := Some p, cx_OnuID := if needs_onu rt then Some n else cx_OnuID cx\<rparr>) h w
    else rs_Status (fst (api_endpoint sv art r cx h w)) = 400 \<and> snd (api_endpoint sv art r cx h w) = w"
proof -
  obtain k where k: "reg_Get (sv_reg sv) k = Some e"
    using route_entry_listed [OF assms(3) reachable_reg_inv [OF assms(1)] assms(2)] by blast
  note port = entry_port [OF assms(1) k]
  let ?cx = "cx\<lparr>cx_Entry := Some e\<rparr>"
  let ?run = "\<lambda>cx. dynamicHandler (sv_reg sv) (onu_endpoint (sv_orders sv) rt) r cx h w"
  note run = api_endpoint_owned [OF assms(3,4), of h w]
  show ?thesis
  proof (cases "\<exists>b p n. names_port (oe_BoardPons e) rt r b p n")
    case True
    then obtain b p n where n: "names_port (oe_BoardPons e) rt r b p n" by blast
    then obtain c where c: "getOltConfig (entry_uc (sv_reg sv) e) b p = Inr c"
      using port(2) [of b p] by (auto simp: names_port_def)
    have "api_endpoint sv art r cx h w = onu_endpoint (sv_orders sv) rt (entry_uc (sv_reg sv) e) r
          (cx\<lparr>cx_Entry := Some e, cx_BoardID := Some b, cx_PonID := Some p, cx_OnuID := if needs_onu rt then Some n else cx_OnuID cx\<rparr>) h w"
      using n assms(5) port(1) unfolding run
      by (cases rt) (auto simp: dynamic_onu_def names_port_def needs_onu_def dynamicValidateBoardPon_def with_entry_def
          ValidateBoardPonParams_def ValidateOnuIDParam_def board_pons_or_legacy_def dynamicHandler_def Let_def)
    with True n c show ?thesis by auto
  next
    case False
    have bad: "rp_status (HandleError i (Some (NewValidationError m x))) = 400" for i m x
      by (simp add: HandleError_def NewValidationError_def writeError_def SendJSONResponse_def)
    have pos: "(\<forall>n \<ge> 1. x \<noteq> n) \<longleftrightarrow> x < 1" for x :: int by (metis not_le)
    have "rs_Status (fst (api_endpoint sv art r cx h w)) = 400 \<and> snd (api_endpoint sv art r cx h w) = w"
      using False assms(5) port(1) unfolding run
      by (cases rt) (auto simp: dynamic_onu_def names_port_def needs_onu_def dynamicValidateBoardPon_def with_entry_def
          ValidateBoardPonParams_def ValidateOnuIDParam_def board_pons_or_legacy_def send_reply_def bad
          invalid_board_def invalid_pon_def Let_def pos split: option.splits)
    with False show ?thesis by simp
  qed
qed

subsection \<open>A list request from end to end\<close>


subsection \<open>Pages\<close>

text \<open>The pages of a list of \<open>rows\<close> entries.\<close>

lemma page_count_bounds:
  fixes rows limit page :: int
  assumes "0 < limit"
  shows "page \<le> (rows + limit - 1) div limit \<longleftrightarrow> (page - 1) * limit < rows"
proof -
  let ?n = "(rows + limit - 1) div limit"
  have "?n * limit + (rows + limit - 1) mod limit = rows + limit - 1" by (rule div_mult_mod_eq)
  then have n: "?n * limit \<le> rows + limit - 1" "rows + limit - 1 < ?n * limit + limit"
    using pos_mod_sign [OF assms, of "rows + limit - 1"] pos_mod_bound [OF assms, of "rows + limit - 1"] by linarith+
  have e: "(page - 1) * limit = page * limit - limit" by (simp add: left_diff_distrib)
  show ?thesis
  proof (cases "page \<le> ?n")
    case True
    then have "page * limit \<le> ?n * limit" using assms by (intro mult_right_mono) auto
    with n(1) True e show ?thesis by linarith
  next
    case False
    then have "(?n + 1) * limit \<le> page * limit" using assms by (intro mult_right_mono) auto
    then have "?n * limit + limit \<le> page * limit" by (simp only: distrib_right mult_1)
    with n(2) False e show ?thesis by linarith
  qed
qed



subsection \<open>The headers of every response\<close>

text \<open>A handler that keeps the headers set before it, but for the type of the content.\<close>

definition keeps_headers :: "('e, 'w) handler \<Rightarrow> bool" where
  "keeps_headers f \<longleftrightarrow> (\<forall>r cx h w k v. gm_get h k = Some v \<and> k \<noteq> ''Content-Type''
     \<and> (k = ''X-Content-Type-Options'' \<longrightarrow> v = ''nosniff'') \<longrightarrow> gm_get (rs_Headers (fst (f r cx h w))) k = Some v)"

lemma keepsD:
  "\<lbrakk>keeps_headers f; gm_get h k = Some v; k \<noteq> ''Content-Type''; k = ''X-Content-Type-Options'' \<longrightarrow> v = ''nosniff''\<rbrakk>
    \<Longrightarrow> gm_get (rs_Headers (fst (f r cx h w))) k = Some v"
  by (auto simp: keeps_headers_def)

lemma keeps_replies:
  "\<lbrakk>gm_get h k = Some v; k \<noteq> ''Content-Type''\<rbrakk> \<Longrightarrow> gm_get (rs_Headers (send_reply h rp)) k = Some v"
  "\<lbrakk>gm_get h k = Some v; k \<noteq> ''Content-Type''; k = ''X-Content-Type-Options'' \<longrightarrow> v = ''nosniff''\<rbrakk>
    \<Longrightarrow> gm_get (rs_Headers (http_Error h msg code)) k = Some v"
  "gm_get h k = Some v \<Longrightarrow> gm_get (rs_Headers (recovered h)) k = Some v"
  by (auto simp: send_reply_def http_Error_def recovered_def gm_get_set)

lemma keeps_onu_endpoint: "keeps_headers (onu_endpoint os rt u)"
  by (cases rt) (auto simp: keeps_headers_def answer_with_def keeps_replies split: prod.splits option.splits)

lemma keeps_dynamic_onu:
  fixes reg :: "'w registry"
  shows "keeps_headers (dynamic_onu os reg rt)"
proof -
  have run: "keeps_headers (dynamicHandler reg (onu_endpoint os rt))" for rt
    unfolding keeps_headers_def dynamicHandler_def with_entry_def
    by (auto simp: keeps_replies split: option.splits intro: keepsD [OF keeps_onu_endpoint])
  have board: "keeps_headers (dynamicValidateBoardPon f)" if "keeps_headers f" for f :: "'w app_handler"
    using that by (auto simp: keeps_headers_def dynamicValidateBoardPon_def with_entry_def ValidateBoardPonParams_def
        keeps_replies Let_def split: option.splits)
  have onu: "keeps_headers (ValidateOnuIDParam f)" if "keeps_headers f" for f :: "'w app_handler"
    using that by (auto simp: keeps_headers_def ValidateOnuIDParam_def keeps_replies Let_def split: option.splits)
  show ?thesis unfolding dynamic_onu_def by (cases rt) (simp_all add: run board onu del: onu_endpoint.simps)
qed

lemma keeps_api: "keeps_headers (api_endpoint sv rt)"
proof (cases rt)
  case (Api_Olt ort)
  then show ?thesis
    using keeps_dynamic_onu [of "sv_orders sv" "sv_reg sv" ort]
    by (auto simp: keeps_headers_def api_endpoint_def resolveOLT_def keeps_replies Let_def split: option.splits)
next
  case (Api_Default ort)
  then show ?thesis
    using keeps_dynamic_onu [of "sv_orders sv" "sv_reg sv" ort]
    by (auto simp: keeps_headers_def api_endpoint_def resolveDefaultOLT_def keeps_replies split: option.splits)
qed (auto simp: keeps_headers_def api_endpoint_def keeps_replies split: prod.splits)

lemma keeps_Authenticator:
  assumes "keeps_headers f"
  shows "keeps_headers (Authenticator users legacyKey f)"
  using assms by (auto simp: keeps_headers_def Authenticator_def keeps_replies Let_def split: option.splits)

lemma keeps_router:
  assumes "keeps_headers (sv_miss sv)" "keeps_headers (sv_metrics sv)"
  shows "keeps_headers (router sv)"
proof -
  have api: "keeps_headers (Authenticator (sv_users sv) (sv_legacyKey sv) (api_endpoint sv rt))" for rt
    by (rule keeps_Authenticator [OF keeps_api])
  have "keeps_headers (serve_route sv rt)" for rt
  proof (cases rt)
    case (Rt_Api art)
    then show ?thesis using api [of art] by (simp add: keeps_headers_def serve_route_def)
  next
    case Rt_Metrics
    then show ?thesis using assms(2) by (simp add: keeps_headers_def serve_route_def)
  qed (auto simp: keeps_headers_def serve_route_def keeps_replies rootHandler_def split: prod.splits)
  then show ?thesis using assms(1) by (auto simp: keeps_headers_def router_def split: option.splits)
qed

text \<open>
  Every response of the server carries the security headers, the request id and the versions:
  also a response of the rate limiter, of the authentication, of a route that does not exist and of a
  handler that panics. The request id is the one the client sent, and a new one when it sent none.
  Of the routing library, the CORS middleware and the metrics handler it is assumed that they do not
  take away headers that were set before them.
\<close>

theorem responses_marked:
  assumes "keeps_headers (sv_miss sv)" "keeps_headers (sv_metrics sv)"
    and "\<forall>opts f. keeps_headers f \<longrightarrow> keeps_headers (sv_cors sv opts f)"
    and "resp = fst (loadRoutesWithRegistry sv r cx h w)"
  shows "(\<forall>(k, v) \<in> set security_headers. gm_get (rs_Headers resp) k = Some v)
    \<and> gm_get (rs_Headers resp) ''X-Request-ID''
      = Some (if header_get r ''X-Request-ID'' = [] then fst (sv_new_id sv w) else header_get r ''X-Request-ID'')
    \<and> (bi_APIVersion (sv_build sv) \<noteq> [] \<longrightarrow> gm_get (rs_Headers resp) ''X-API-Version'' = Some (bi_APIVersion (sv_build sv)))
    \<and> (bi_Version (sv_build sv) \<noteq> [] \<longrightarrow> gm_get (rs_Headers resp) ''X-App-Version'' = Some (bi_Version (sv_build sv)))"
proof -
  let ?inner = "RateLimiter (sv_allow sv) (MaxBodySize 1048576 (sv_cors sv (cors_options_of (sv_env sv)) (router sv)))"
  have "keeps_headers (sv_cors sv (cors_options_of (sv_env sv)) (router sv))"
    using assms(3) keeps_router [OF assms(1,2)] by blast
  then have inner: "keeps_headers ?inner"
    by (auto simp: keeps_headers_def RateLimiter_def MaxBodySize_def keeps_replies split: prod.splits bool.splits)
  define i where "i = (if header_get r ''X-Request-ID'' = [] then fst (sv_new_id sv w) else header_get r ''X-Request-ID'')"
  let ?b = "sv_build sv"
  define h1 where "h1 = set_nonempty ''X-Build-Commit'' (bi_Commit ?b) (set_nonempty ''X-App-Version'' (bi_Version ?b)
     (set_nonempty ''X-API-Version'' (bi_APIVersion ?b) (gm_set ''X-Request-ID'' i h)))"
  define h2 where "h2 = fold (\<lambda>(k, v). gm_set k v) security_headers h1"
  obtain w1 where resp: "resp = fst (?inner r (WithRequestID i cx) h2 w1)"
    by (rule that [of "if header_get r ''X-Request-ID'' = [] then snd (sv_new_id sv w) else w"])
      (simp add: assms(4) loadRoutesWithRegistry_def RequestID_mw_def APIVersionHeader_def DefaultAPIVersionConfig_def
        SecurityHeaders_def h2_def h1_def i_def Let_def case_prod_beta)
  have keep: "gm_get (rs_Headers resp) k = Some v"
    if "gm_get h2 k = Some v" "k \<noteq> ''Content-Type''" "k = ''X-Content-Type-Options'' \<longrightarrow> v = ''nosniff''" for k v
    using inner that unfolding resp keeps_headers_def by blast
  have other: "gm_get h2 k = gm_get h1 k" if "k \<notin> fst ` set security_headers" for k
    using that by (simp add: h2_def security_headers_def gm_get_set)
  have h1: "gm_get h1 ''X-Request-ID'' = Some i"
    "bi_APIVersion ?b \<noteq> [] \<longrightarrow> gm_get h1 ''X-API-Version'' = Some (bi_APIVersion ?b)"
    "bi_Version ?b \<noteq> [] \<longrightarrow> gm_get h1 ''X-App-Version'' = Some (bi_Version ?b)"
    by (simp_all add: h1_def set_nonempty_def gm_get_set)
  have sec: "\<forall>(k, v) \<in> set security_headers. gm_get h2 k = Some v"
    by (simp add: h2_def security_headers_def gm_get_set)
  have "\<forall>(k, v) \<in> set security_headers. k \<noteq> ''Content-Type'' \<and> (k = ''X-Content-Type-Options'' \<longrightarrow> v = ''nosniff'')"
    by (simp add: security_headers_def)
  with sec keep have "\<forall>(k, v) \<in> set security_headers. gm_get (rs_Headers resp) k = Some v" by fast
  moreover have "''X-Request-ID'' \<notin> fst ` set security_headers" "''X-API-Version'' \<notin> fst ` set security_headers"
    "''X-App-Version'' \<notin> fst ` set security_headers" by (simp_all add: security_headers_def)
  ultimately show ?thesis
    using keep [of "''X-Request-ID''"] keep [of "''X-API-Version''"] keep [of "''X-App-Version''"]
    by (auto simp: other h1 i_def)
qed

subsection \<open>A server with two tenants\<close>

text \<open>Two OLTs of the owners 7 and 8, each with one port; the devices answer, the cache is empty.\<close>

definition web_olt :: "bytes \<Rightarrow> int \<Rightarrow> OLTRuntimeConfig" where
  "web_olt i uid = \<lparr>olt_ID = i, olt_UserID = uid, olt_Host = ''10.0.0.1'', olt_Port = 161, olt_Community = ''public'',
     olt_MaxConcurrent = 5, olt_Boards = [1], olt_BoardPons = [(1, 1)], olt_PonsPerBoard = 1,
     olt_BoardPonMap = [((1, 1), bp_cfg (1, 1))], olt_UseWalk = False\<rparr>"

definition web_c :: OnuOltConfig where
  "web_c = projr (getOltConfig (ex_uc\<lparr>uc_cfg := ForOLT ex_cfg (web_olt ''c320'' 7)\<rparr>) 1 1)"

definition web_deps :: "(bytes, bytes) gomap reg_deps" where
  "web_deps = ex_deps\<lparr>rd_dial := (\<lambda>t w. (Inr (sr_conn (table_device web_c ex_onus ex_val)), w))\<rparr>"

definition web_olts :: "OLTRuntimeConfig list" where
  "web_olts = [web_olt ''c320'' 7, web_olt ''c300'' 8]"

definition web_reg :: "(bytes, bytes) gomap registry" where
  "web_reg = fst (Reconcile (\<lambda>m. m) web_deps web_olts (NewOLTRegistry ''c320'') [])"

lemma web_olt_mapped: "mapped_olt (web_olt i uid)"
proof -
  have "in_topology [(1, 1)] s p \<longleftrightarrow> s = 1 \<and> p = 1" for s p
    by (auto simp: in_topology_def topology_def clamp_pons_def oid_consts)
  then have "complete_map [(1, 1)] [((1, 1), bp_cfg (1, 1))]" by (auto simp: complete_map_def)
  moreover have "good_topology [1] [(1, 1)]"
    by (simp add: good_topology_def good_specs_def valid_slot_def valid_pon_def oid_consts)
  ultimately show ?thesis by (simp add: mapped_olt_def web_olt_def)
qed

lemma web_reachable: "reachable_reg mapped_olt web_deps web_reg"
proof -
  have r: "Reconcile (\<lambda>m. m) web_deps web_olts (NewOLTRegistry ''c320'') [] = (web_reg, snd (Reconcile (\<lambda>m. m) web_deps web_olts (NewOLTRegistry ''c320'') []))"
    by (simp add: web_reg_def)
  have "reg_step mapped_olt web_deps (NewOLTRegistry ''c320'') web_reg"
    by (rule reg_step.reconcile [OF range_order_id _ r]) (simp add: web_olts_def web_olt_mapped)
  then show ?thesis
    unfolding reachable_reg_def by (intro exI [of _ "''c320''"]) (rule r_into_rtranclp)
qed

lemma web_entry:
  assumes "olt \<in> set web_olts"
  obtains e where "reg_Get web_reg (olt_ID olt) = Some e" "oe_UserID e = olt_UserID olt" "oe_BoardPons e = [(1, 1)]"
    "served_port (entry_uc web_reg e) 1 1 web_c ex_onus ex_val" "uc_redis (entry_uc web_reg e) = plain_redis"
proof -
  have r: "Reconcile (\<lambda>m. m) web_deps web_olts (NewOLTRegistry ''c320'') [] = (web_reg, snd (Reconcile (\<lambda>m. m) web_deps web_olts (NewOLTRegistry ''c320'') []))"
    by (simp add: web_reg_def)
  have dist: "distinct (map olt_ID web_olts)" by (simp add: web_olts_def web_olt_def)
  have "entry_after web_deps (NewOLTRegistry ''c320'') web_reg olt"
    using Reconcile_spec(3) [OF reg_inv_new range_order_id r dist] assms by blast
  moreover have "keeps (NewOLTRegistry ''c320'' :: (bytes, bytes) gomap registry) olt = None" by (simp add: keeps_def NewOLTRegistry_def)
  moreover have "connectable web_deps olt"
    using assms by (auto simp: connectable_def web_olts_def web_olt_def web_deps_def)
  ultimately obtain i where i: "built web_deps (NewOLTRegistry ''c320'') olt (sk_uc (rg_stacks web_reg ! i))"
    "gm_get (rg_entries web_reg) (olt_ID olt) = Some \<lparr>oe_OLT = olt, oe_stack = i, oe_BoardPons = olt_BoardPons olt, oe_UserID = olt_UserID olt\<rparr>"
    by (auto simp: entry_after_def)
  let ?e = "\<lparr>oe_OLT = olt, oe_stack = i, oe_BoardPons = olt_BoardPons olt, oe_UserID = olt_UserID olt\<rparr>"
  note inv = reachable_reg_inv [OF web_reachable]
  have "serving (rg_stacks web_reg ! oe_stack ?e)"
    using reg_inv_stack [OF inv inv_entry(1) [OF inv i(2)]] mapped_mem [OF i(2)] by simp
  then have open_pool: "sk_closes (rg_stacks web_reg ! i) = 0" by (simp add: serving_def)
  obtain repo w w' where repo: "sk_uc (rg_stacks web_reg ! i) = NewOnuUsecaseForOLT web_deps repo (ForOLT (rd_cfg web_deps) olt) (cachePrefix (NewOLTRegistry ''c320'' :: (bytes, bytes) gomap registry) olt)"
    "rd_dial web_deps (snmp_target_for (rd_env web_deps) (olt_Host olt) (olt_Port olt) (olt_Community olt)) w = (Inr (sr_conn repo), w')"
    "sr_acquire repo = (\<lambda>w. (True, w))" "sr_useWalk repo = olt_UseWalk olt"
    using i(1) unfolding built_def by blast
  have conn: "sr_conn repo = sr_conn (table_device web_c ex_onus ex_val)"
    using repo(2) by (simp add: web_deps_def)
  have walk: "olt_UseWalk olt = False" "olt_BoardPons olt = [(1, 1)]" "olt_BoardPonMap olt = [((1, 1), bp_cfg (1, 1))]"
    using assms by (auto simp: web_olts_def web_olt_def)
  have dev: "repo = table_device web_c ex_onus ex_val"
    using conn repo(3,4) walk(1) by (simp add: table_device_def Let_def)
  have uc: "uc_snmp (entry_uc web_reg ?e) = table_device web_c ex_onus ex_val" "uc_redis (entry_uc web_reg ?e) = plain_redis"
    "uc_cfg (entry_uc web_reg ?e) = ForOLT ex_cfg olt"
    using open_pool repo(3) by (simp_all add: entry_uc_def stack_uc_def repo(1) dev NewOnuUsecaseForOLT_def web_deps_def ex_deps_def)
  have "getOltConfig (entry_uc web_reg ?e) 1 1 = Inr web_c"
    by (simp add: web_c_def getOltConfig_def getBoardConfig_def GetBoardPonConfig_def uc(3) ForOLT_def walk(3))
      (simp add: web_olt_def)
  then have "served_port (entry_uc web_reg ?e) 1 1 web_c ex_onus ex_val"
    by (simp add: served_port_def uc(1) table_device_serves ex_uc_numbers)
  then show thesis
    using that [of ?e] i(2) walk(2) uc(2) by (simp add: reg_Get_def)
qed

text \<open>The tenant 7 has the key \<open>k1\<close>.\<close>

definition web_users_json :: bytes where
  "web_users_json = ''[{'' @ quoted ''user_id'' @ '':7,'' @ quoted ''api_key'' @ '':'' @ quoted ''k1'' @ ''}]''"

definition web_user :: APIUser where
  "web_user = \<lparr>au_UserID = 7, au_APIKey = ''k1'', au_Role = ''user''\<rparr>"

definition web_server :: "(bytes, bytes) gomap server" where
  "web_server = \<lparr>sv_reg = web_reg, sv_orders = \<lparr>or_pdu = rev, or_ports = rev, or_cards = rev, or_entries = rev\<rparr>,
     sv_users = principals (Some [(''k1'', web_user)]), sv_legacyKey = [], sv_env = (\<lambda>_. []),
     sv_build = \<lparr>bi_Version = ''3.0.0'', bi_Commit = [], bi_BuildTime = [], bi_APIVersion = ''v1''\<rparr>,
     sv_whEnv = url_settings [], sv_fmt = jakarta_env,
     sv_regops = \<lparr>rg_now = (\<lambda>w. (0, w)), rg_sleep = (\<lambda>_ w. w), rg_get = (\<lambda>_ _ w. (Inl (Plain ''refused''), w))\<rparr>,
     sv_http = \<lparr>ht_now = (\<lambda>w. (0, w)), ht_sleep = (\<lambda>_ w. w), ht_post = (\<lambda>_ _ _ _ w. (Inl (Plain ''refused''), w))\<rparr>,
     sv_dial = rd_dial web_deps, sv_checker = None, sv_find = (\<lambda>_ _. None),
     sv_miss = (\<lambda>r cx h w. (http_Error h ''404 page not found'' 404, w)), sv_new_id = (\<lambda>w. (''id1'', w)),
     sv_allow = (\<lambda>w. (True, w)), sv_cors = (\<lambda>_ f. f), sv_metrics = (\<lambda>r cx h w. (rootHandler h, w)),
     sv_uptime = (\<lambda>w. (''1s'', w)), sv_show = []\<rparr>"

definition web_request :: "bytes \<Rightarrow> bytes \<Rightarrow> bytes \<Rightarrow> request" where
  "web_request key olt pon = \<lparr>rq_Method = ''GET'', rq_Path = [], rq_RemoteAddr = ''10.0.0.9:4000'',
     rq_Header = (\<lambda>k. if k = ''X-API-Key'' then [key] else []), rq_Query = [],
     rq_Param = (\<lambda>k. if k = ''olt_id'' then olt else if k = ''board_id'' then ''1'' else if k = ''pon_id'' then pon else []),
     rq_Body = []\<rparr>"

lemma web_users: "buildUserRegistry web_users_json = Inr (Some [(''k1'', web_user)])"
  unfolding web_users_json_def web_user_def by code_simp

lemma web_server_facts:
  "sv_reg web_server = web_reg" "sv_users web_server = principals (Some [(''k1'', web_user)])"
  "range_order (or_entries (sv_orders web_server))" "range_order (or_pdu (sv_orders web_server))"
  "reachable_reg mapped_olt web_deps (sv_reg web_server)"
  by (simp_all add: web_server_def range_order_rev web_reachable)

lemma web_request_key: "header_get (web_request key olt pon) ''X-API-Key'' = key"
  by (simp add: header_get_def web_request_def)

lemma web_key: "gm_get [(''k1'', web_user)] (header_get (web_request ''k1'' olt pon) ''X-API-Key'') = Some web_user"
  by (simp add: web_request_key)

lemma web_params: "rq_Param (web_request key olt pon) ''olt_id'' = olt" "rq_Param (web_request key olt pon) ''board_id'' = ''1''"
  "rq_Param (web_request key olt pon) ''pon_id'' = pon" "rq_Query (web_request key olt pon) = []"
  by (simp_all add: web_request_def)

lemma web_numbers: "itoa 1 = ''1''" "atoi ''1'' = Some 1" "atoi ''9'' = Some 9"
  by code_simp+

theorem api_only_with_key_witness:
  "serve_route web_server (Rt_Api Api_Test) (web_request ''k2'' [] []) Background [] [] = (unauthorized (Background :: OLTEntry req_ctx) [], [])
   \<and> serve_route web_server (Rt_Api Api_Test) (web_request ''k1'' [] []) Background [] []
     = api_endpoint web_server Api_Test (web_request ''k1'' [] []) (as_user web_user Background) [] []"
  using api_only_with_key [OF web_users web_server_facts(2), of Api_Test "web_request ''k1'' [] []"]
    api_only_with_key [OF web_users web_server_facts(2), of Api_Test "web_request ''k2'' [] []"]
  by (simp add: web_request_key)


theorem requests_name_ports_witness:
  "rs_Status (fst (api_endpoint web_server (Api_Olt R_List) (web_request ''k1'' ''c320'' ''9'') Background [] [])) = 400
   \<and> (\<exists>e c. reg_Get web_reg ''c320'' = Some e \<and> getOltConfig (entry_uc web_reg e) 1 1 = Inr c
        \<and> api_endpoint web_server (Api_Olt R_List) (web_request ''k1'' ''c320'' ''1'') Background [] []
          = onu_endpoint (sv_orders web_server) R_List (entry_uc web_reg e) (web_request ''k1'' ''c320'' ''1'')
              (Background\<lparr>cx_Entry := Some e, cx_BoardID := Some 1, cx_PonID := Some 1\<rparr>) [] [])"
proof -
  have "web_olt ''c320'' 7 \<in> set web_olts" by (simp add: web_olts_def)
  then obtain e where e: "reg_Get web_reg ''c320'' = Some e" "oe_BoardPons e = [(1, 1)]"
    using web_entry [of "web_olt ''c320'' 7"] by (auto simp: web_olt_def)
  have route: "route_entry web_server (Api_Olt R_List) (web_request ''k1'' ''c320'' pon) = Some (R_List, e)" for pon
    by (simp add: route_entry_def web_params web_server_facts e(1))
  have owns: "owns (Background :: OLTEntry req_ctx) (oe_UserID e)" by (simp add: owns_def Background_def)
  have names: "names_port (oe_BoardPons e) R_List (web_request ''k1'' ''c320'' ''1'') b p n \<longleftrightarrow> b = 1 \<and> p = 1"
    "\<not> names_port (oe_BoardPons e) R_List (web_request ''k1'' ''c320'' ''9'') b p n" for b p n
    by (auto simp: names_port_def web_params web_numbers e(2) needs_onu_def)
  note w = requests_name_ports [OF web_server_facts(5,3) route owns, of _ "[]" "[]"]
  show ?thesis using w [of "''1''"] w [of "''9''"] e(1) by (simp add: names web_server_facts needs_onu_def Background_def)
qed


theorem responses_marked_witness:
  "gm_get (rs_Headers (fst (loadRoutesWithRegistry web_server (web_request [] [] []) Background [] []))) ''X-Request-ID'' = Some ''id1''
   \<and> gm_get (rs_Headers (fst (loadRoutesWithRegistry web_server (web_request [] [] []) Background [] []))) ''X-Frame-Options'' = Some ''DENY''"
proof -
  have k: "keeps_headers (sv_miss web_server)" "keeps_headers (sv_metrics web_server)"
    "\<forall>opts f. keeps_headers f \<longrightarrow> keeps_headers (sv_cors web_server opts f)"
    by (auto simp: web_server_def keeps_headers_def keeps_replies rootHandler_def)
  have "(''X-Frame-Options'', ''DENY'') \<in> set security_headers" by (simp add: security_headers_def)
  moreover have "sv_new_id web_server [] = (''id1'', [])" "header_get (web_request [] [] []) ''X-Request-ID'' = []"
    by (simp_all add: web_server_def header_get_def web_request_def)
  ultimately show ?thesis using responses_marked [OF k refl, of "web_request [] [] []" Background "[]" "[]"] by auto
qed


end
