(* ===== verification/App_Start.thy ===== *)
theory App_Start
  imports Http_Api
begin

text \<open>
  The start of the service: \<open>app/app.go\<close>, \<open>pkg/redis/redis.go\<close>, the decision between HTTP
  and HTTPS of \<open>pkg/graceful\<close> and the names of \<open>pkg/sentry/resolve.go\<close>. \<open>Start\<close> gives what
  is running when the server begins to listen: the goroutines it starts are the components of the other
  theories, with the settings recorded here. The end of the service is in
  \<open>App_Process\<close>.
\<close>

subsection \<open>Redis\<close>

record redis_options =
  ro_Addr :: bytes
  ro_Password :: bytes
  ro_DB :: int
  ro_MinIdleConns :: int
  ro_PoolSize :: int
  ro_PoolTimeout :: int

definition NewRedisClient :: "env \<Rightarrow> Config \<Rightarrow> redis_options" where
  "NewRedisClient getenv cfg =
     (if getenv ''APP_ENV'' = ''development'' \<or> getenv ''APP_ENV'' = ''production''
      then \<lparr>ro_Addr = getenv ''REDIS_HOST'' @ '':'' @ getenv ''REDIS_PORT'', ro_Password = getenv ''REDIS_PASSWORD'',
            ro_DB = ConvertStringToInteger (getenv ''REDIS_DB''),
            ro_MinIdleConns = ConvertStringToInteger (getenv ''REDIS_MIN_IDLE_CONNECTIONS''),
            ro_PoolSize = ConvertStringToInteger (getenv ''REDIS_POOL_SIZE''),
            ro_PoolTimeout = int64 (ConvertStringToInteger (getenv ''REDIS_POOL_TIMEOUT'') * 1000000000)\<rparr>
      else \<lparr>ro_Addr = rc_Host (RedisCfg cfg) @ '':'' @ rc_Port (RedisCfg cfg), ro_Password = rc_Password (RedisCfg cfg),
            ro_DB = rc_DB (RedisCfg cfg), ro_MinIdleConns = rc_MinIdleConnections (RedisCfg cfg),
            ro_PoolSize = rc_PoolSize (RedisCfg cfg),
            ro_PoolTimeout = int64 (rc_PoolTimeout (RedisCfg cfg) * 1000000000)\<rparr>)"

subsection \<open>The trap components\<close>

text \<open>
  The batcher reads the device through the default OLT of the registry at the time; its settings
  are fixed here. The monitor hands its alerts to the batcher when there is one.
\<close>

record batcher_setup =
  bs_intervals :: "(Severity, int) gomap"
  bs_repeat :: "(Severity, int) gomap"
  bs_high :: f64
  bs_low :: f64

record trap_setup =
  ts_actions :: actions
  ts_whEnv :: WebhookSettings
  ts_active :: active_webhook
  ts_refresher :: bool
  ts_batcher :: "batcher_setup option"
  ts_Port :: int
  ts_Community :: bytes
  ts_monitor :: "PowerMonitorConfig option"

definition webhook_env :: "TrapConfig \<Rightarrow> WebhookSettings" where
  "webhook_env tc = \<lparr>ws_URL = tc_WebhookURL tc, ws_Type = tc_WebhookType tc, ws_ChatID = tc_WebhookChatID tc,
     ws_Enabled = (tc_WebhookURL tc \<noteq> []), ws_Retries = tc_WebhookRetries tc, ws_Timeout = tc_WebhookTimeout tc\<rparr>"

definition webhook_possible :: "env \<Rightarrow> TrapConfig \<Rightarrow> bool" where
  "webhook_possible getenv tc \<longleftrightarrow> tc_WebhookURL tc \<noteq> [] \<or> getenv ''REGISTRY_URL'' \<noteq> []"

definition start_batcher :: "TrapConfig \<Rightarrow> batcher_setup option" where
  "start_batcher tc =
     (let intervals = BuildIntervals (tc_CriticalInterval tc) (tc_HighInterval tc) (tc_MediumInterval tc) (tc_LowInterval tc) in
      if intervals = [] then None
      else Some \<lparr>bs_intervals = intervals,
        bs_repeat = BuildRepeatIntervals (tc_CriticalRepeat tc) (tc_HighRepeat tc) (tc_MediumRepeat tc) (tc_LowRepeat tc),
        bs_high = tc_RxPowerHighThreshold tc, bs_low = tc_RxPowerLowThreshold tc\<rparr>)"

definition start_monitor :: "Config \<Rightarrow> PowerMonitorConfig" where
  "start_monitor cfg =
     (let tc = TrapCfg cfg in
      \<lparr>pm_Interval = int64 (tc_PowerMonitorInterval tc * 1000000000), pm_Cron = tc_PowerMonitorCron tc,
       pm_Timezone = tc_PowerMonitorTimezone tc, pm_HighThreshold = tc_RxPowerHighThreshold tc,
       pm_LowThreshold = tc_RxPowerLowThreshold tc, pm_Source = snmp_IP (SnmpCfg cfg), pm_Boards = Boards cfg,
       pm_PonsPerBoard = PonsPerBoard cfg\<rparr>)"

definition start_traps :: "'w reg_ops \<Rightarrow> env \<Rightarrow> Config \<Rightarrow> 'w \<Rightarrow> trap_setup option \<times> 'w" where
  "start_traps ops getenv cfg w =
     (let tc = TrapCfg cfg in
      if \<not> tc_Enabled tc then (None, w)
      else (case initWebhook ops getenv (webhook_env tc) no_active w of
              ((active, refresher), w) \<Rightarrow>
                (Some \<lparr>ts_actions = SetActionMessages (tc_ActionCritical tc) (tc_ActionHigh tc) (tc_ActionMedium tc)
                         (tc_ActionLow tc) actionMessages,
                       ts_whEnv = webhook_env tc, ts_active = active, ts_refresher = refresher,
                       ts_batcher = (if webhook_possible getenv tc then start_batcher tc else None),
                       ts_Port = tc_Port tc, ts_Community = tc_Community tc,
                       ts_monitor = (if tc_PowerMonitor tc \<and> webhook_possible getenv tc
                                     then Some (start_monitor cfg) else None)\<rparr>, w)))"

subsection \<open>Probes\<close>

definition default_probe :: "entry_ord \<Rightarrow> 'w registry \<Rightarrow> 'w probe" where
  "default_probe ord reg w =
     (case GetDefault ord reg of
        None \<Rightarrow> (Some (Plain ''no default OLT registered''), w)
      | Some e \<Rightarrow> snmp_Ping (uc_snmp (entry_uc reg e)) w)"

definition start_checker ::
    "'w probe \<Rightarrow> entry_ord \<Rightarrow> ('w \<Rightarrow> gerror option) \<Rightarrow> 'w registry \<Rightarrow> 'w dependency list" where
  "start_checker ping ord ctxErr reg =
     RegisterOptional ''snmp_olts'' (30 * 1000000000) (reg_HealthCheck ord ctxErr reg)
       (Register ''snmp_default'' (30 * 1000000000) (default_probe ord reg)
         (Register ''redis'' (5 * 1000000000) ping []))"

subsection \<open>The process\<close>

text \<open>What the process runs on: files, the device registry, Redis for given options, SNMP, time.\<close>

record ('w, 'a, 'p) process =
  pc_env :: env
  pc_readFile :: "bytes \<Rightarrow> gerror + bytes"
  pc_regops :: "'w reg_ops"
  pc_ips :: "('a, 'p) ip_ops"
  pc_redis :: "redis_options \<Rightarrow> 'w redis_ops"
  pc_ping :: "redis_options \<Rightarrow> 'w probe"
  pc_dial :: "'w dialer"
  pc_now :: "'w \<Rightarrow> instant \<times> 'w"
  pc_tz :: "bytes \<Rightarrow> tzloc option"

record ('w, 'p) running =
  rn_cfg :: Config
  rn_trusted :: "'p list"
  rn_reg :: "'w registry"
  rn_poller :: "(bytes \<times> bytes \<times> int) option"
  rn_traps :: "trap_setup option"
  rn_users :: "(bytes, Principal) gomap option"
  rn_addr :: bytes

definition defaultPollInterval :: int where "defaultPollInterval = 30 * 1000000000"

definition start_poller :: "env \<Rightarrow> (bytes \<times> bytes \<times> int) option" where
  "start_poller getenv =
     (let registryURL = getenv ''REGISTRY_URL''; v = getenv ''REGISTRY_POLL_INTERVAL'' in
      if registryURL = [] then None
      else Some (registryURL, getenv ''REGISTRY_API_KEY'',
                 if v = [] then defaultPollInterval
                 else (case ParseDuration v of Some d \<Rightarrow> d | None \<Rightarrow> defaultPollInterval)))"

definition process_deps :: "('w, 'a, 'p) process \<Rightarrow> Config \<Rightarrow> 'w reg_deps" where
  "process_deps p cfg = \<lparr>rd_cfg = cfg, rd_redis = pc_redis p (NewRedisClient (pc_env p) cfg), rd_env = pc_env p,
     rd_dial = pc_dial p, rd_now = pc_now p, rd_tz = pc_tz p\<rparr>"

definition server_addr :: "env \<Rightarrow> bytes" where
  "server_addr getenv = '':'' @ (if getenv ''SERVER_PORT'' = [] then ''8081'' else getenv ''SERVER_PORT'')"

text \<open>From the loaded configuration on.\<close>

definition start_with ::
    "entry_ord \<Rightarrow> ('w, 'a, 'p) process \<Rightarrow> Config \<Rightarrow> 'w \<Rightarrow> (gerror + ('w, 'p) running) \<times> 'w" where
  "start_with ord p cfg w =
     (case ParseTrustedProxies (pc_ips p) (TrustedProxies cfg) of
        Inl err \<Rightarrow> (Inl (Wrap ''RATE_LIMIT_TRUSTED_PROXIES: '' err), w)
      | Inr trusted \<Rightarrow>
          (case pc_ping p (NewRedisClient (pc_env p) cfg) w of
             (_, w) \<Rightarrow>
               (case Reconcile ord (process_deps p cfg) (OLTs cfg) (NewOLTRegistry (DefaultOLT cfg)) w of
                  (reg, w) \<Rightarrow>
                    (if reg_Len reg = 0 then (Inl (Plain ''no OLT could be initialized''), w)
                     else
                       (let reg = (if PreWarm (CacheCfg cfg) then GoForEach ord reg else reg) in
                        case start_traps (pc_regops p) (pc_env p) cfg w of
                          (traps, w) \<Rightarrow>
                            (Inr \<lparr>rn_cfg = cfg, rn_trusted = trusted, rn_reg = reg, rn_poller = start_poller (pc_env p),
                                  rn_traps = traps, rn_users = principals (APIUsers cfg),
                                  rn_addr = server_addr (pc_env p)\<rparr>, w))))))"

text \<open>\<open>None\<close> is a start that waits for the device registry without end.\<close>

definition Start ::
    "(int, int) range_ord \<Rightarrow> entry_ord \<Rightarrow> ('w, 'a, 'p) process \<Rightarrow> 'w \<Rightarrow> ((gerror + ('w, 'p) running) \<times> 'w) option" where
  "Start ordb ord p w =
     (case LoadConfig ordb (pc_regops p) (pc_env p) (pc_readFile p) w of
        None \<Rightarrow> None
      | Some (Inl err, w) \<Rightarrow> Some (Inl err, w)
      | Some (Inr cfg, w) \<Rightarrow> Some (start_with ord p cfg w))"

text \<open>
  The server of a running process; \<open>sv\<close> gives the libraries around it. The webhook settings
  of the environment and the action texts are those that the start of the trap components has left.
\<close>

definition process_server :: "('w, 'a, 'p) process \<Rightarrow> ('w, 'p) running \<Rightarrow> 'w server \<Rightarrow> 'w server" where
  "process_server p rn sv = sv\<lparr>sv_reg := rn_reg rn, sv_users := rn_users rn, sv_legacyKey := APIKey (rn_cfg rn),
     sv_env := pc_env p, sv_regops := pc_regops p, sv_dial := pc_dial p,
     sv_whEnv := (case rn_traps rn of Some t \<Rightarrow> ts_whEnv t
       | None \<Rightarrow> \<lparr>ws_URL = [], ws_Type = [], ws_ChatID = [], ws_Enabled = False, ws_Retries = 0, ws_Timeout = 0\<rparr>),
     sv_fmt := (sv_fmt sv)\<lparr>fe_actions := (case rn_traps rn of Some t \<Rightarrow> ts_actions t | None \<Rightarrow> actionMessages)\<rparr>\<rparr>"

text \<open>\<open>graceful.Shutdown\<close> serves plain HTTP, or HTTPS with a certificate and a key.\<close>

definition listen_mode :: "env \<Rightarrow> gerror + (bytes \<times> bytes) option" where
  "listen_mode getenv =
     (if getenv ''USE_TLS'' = ''true'' then
        (if getenv ''TLS_CERT_FILE'' = [] \<or> getenv ''TLS_KEY_FILE'' = []
         then Inl (Plain ''TLS enabled but TLS_CERT_FILE or TLS_KEY_FILE not provided'')
         else Inr (Some (getenv ''TLS_CERT_FILE'', getenv ''TLS_KEY_FILE'')))
      else Inr None)"

subsection \<open>Release names\<close>

definition isFullSHA :: "bytes \<Rightarrow> bool" where
  "isFullSHA s \<longleftrightarrow> length s = 40 \<and> list_all (\<lambda>c. is_digit c \<or> (CHR ''a'' \<le> c \<and> c \<le> CHR ''f'')) s"

definition normalizeVersion :: "bytes \<Rightarrow> bytes" where
  "normalizeVersion version =
     (let v = trim_space version in if v = [] then ''dev'' else if isFullSHA v then take 7 v else v)"

definition Resolve :: "env \<Rightarrow> bytes \<Rightarrow> bytes \<Rightarrow> bytes \<Rightarrow> bytes \<times> bytes" where
  "Resolve getenv service fallbackEnv version =
     (let environment = trim_space (getenv ''SENTRY_ENVIRONMENT''); release = trim_space (getenv ''SENTRY_RELEASE'')
      in (if environment = [] then fallbackEnv else environment,
          if release = [] then service @ ''@'' @ normalizeVersion version else release))"

subsection \<open>What a start gives\<close>

lemma mirrors_entries: "rg_entries reg' = rg_entries reg \<Longrightarrow> mirrors d olts reg' = mirrors d olts reg"
  by (simp add: mirrors_def reg_Get_def)

lemma start_with_reg:
  assumes "LoadConfig ordb ops env readFile w0 = Some (Inr cfg, w)" "range_order ordb" "range_order ord"
    and "start_with ord p cfg w = (Inr rn, w')"
  shows "rn_cfg rn = cfg \<and> rn_users rn = principals (APIUsers cfg)
    \<and> reachable_reg mapped_olt (process_deps p cfg) (rn_reg rn) \<and> mirrors (process_deps p cfg) (OLTs cfg) (rn_reg rn)"
proof -
  let ?d = "process_deps p cfg" and ?new = "NewOLTRegistry (DefaultOLT cfg)"
  note good = LoadConfig_good [OF assms(1,2)]
  obtain reg w1 w2 where r: "Reconcile ord ?d (OLTs cfg) ?new w1 = (reg, w2)"
    and rn: "rn_reg rn = (if PreWarm (CacheCfg cfg) then GoForEach ord reg else reg)" "rn_cfg rn = cfg"
      "rn_users rn = principals (APIUsers cfg)"
    using assms(4) by (auto simp: start_with_def Let_def split: sum.splits prod.splits if_splits)
  have ok: "list_all mapped_olt (OLTs cfg)" "distinct (map olt_ID (OLTs cfg))"
    using good by (auto simp: list_all_iff good_config_def good_registry_def)
  let ?step = "reg_step mapped_olt ?d"
  have s: "?step ?new reg" by (rule reg_step.reconcile [OF assms(3) ok(1) r])
  have inv: "reg_inv reg" using reg_step_inv [OF s reg_inv_new] by blast
  have m: "mirrors ?d (OLTs cfg) reg" by (rule Reconcile_mirrors [OF reg_inv_new assms(3) ok(2) r])
  have reached: "reachable_reg mapped_olt ?d (rn_reg rn)"
  proof (cases "PreWarm (CacheCfg cfg)")
    case True
    have "?step reg (rn_reg rn)" using reg_step.start_jobs [OF assms(3), of mapped_olt ?d reg] True by (simp add: rn(1))
    then have "?step\<^sup>*\<^sup>* ?new (rn_reg rn)"
      using rtranclp.rtrancl_into_rtrancl [OF r_into_rtranclp [of ?step, OF s]] by blast
    then show ?thesis by (auto simp: reachable_reg_def)
  next
    case False
    then show ?thesis using r_into_rtranclp [of ?step, OF s] by (auto simp: reachable_reg_def rn(1))
  qed
  have "mirrors ?d (OLTs cfg) (rn_reg rn)"
    using m mirrors_entries [OF GoForEach_inv(3) [OF inv assms(3)], of ?d "OLTs cfg"] by (simp add: rn(1))
  with reached rn show ?thesis by blast
qed

lemma start_runs:
  assumes "LoadConfig ordb (pc_regops p) (pc_env p) (pc_readFile p) w = Some (Inr cfg, w1)"
    and "ParseTrustedProxies (pc_ips p) (TrustedProxies cfg) = Inr trusted"
    and "olt \<in> set (OLTs cfg)" "connectable (process_deps p cfg) olt" "range_order ordb" "range_order ord"
  shows "\<exists>rn w'. Start ordb ord p w = Some (Inr rn, w') \<and> rn_cfg rn = cfg \<and> rn_trusted rn = trusted
    \<and> reachable_reg mapped_olt (process_deps p cfg) (rn_reg rn)
    \<and> mirrors (process_deps p cfg) (OLTs cfg) (rn_reg rn)
    \<and> reg_Get (rn_reg rn) (olt_ID olt) \<noteq> None"
proof -
  let ?d = "process_deps p cfg" and ?new = "NewOLTRegistry (DefaultOLT cfg)"
  obtain w2 where ping: "snd (pc_ping p (NewRedisClient (pc_env p) cfg) w1) = w2" by blast
  obtain reg w3 where r: "Reconcile ord ?d (OLTs cfg) ?new w2 = (reg, w3)" by fastforce
  have "distinct (map olt_ID (OLTs cfg))"
    using LoadConfig_good [OF assms(1,5)] by (simp add: good_config_def good_registry_def)
  from Reconcile_mirrors [OF reg_inv_new assms(6) this r] assms(3,4)
  have "reg_Get reg (olt_ID olt) \<noteq> None" by (auto simp: mirrors_def)
  then have "reg_Len reg \<noteq> 0" by (auto simp: reg_Len_def reg_Get_def)
  then obtain rn w' where st: "start_with ord p cfg w1 = (Inr rn, w')" "rn_trusted rn = trusted"
    using assms(2) r ping
    by (auto simp: start_with_def Let_def case_prod_beta prod_eq_iff)
  note s = start_with_reg [OF assms(1,5,6) st(1)]
  have "Start ordb ord p w = Some (Inr rn, w')" by (simp add: Start_def assms(1) st(1))
  moreover have "reg_Get (rn_reg rn) (olt_ID olt) \<noteq> None" using s assms(3,4) by (auto simp: mirrors_def)
  ultimately show ?thesis using s st(2) by blast
qed


text \<open>The keys that open the API.\<close>

definition credentials :: "Config \<Rightarrow> bytes set" where
  "credentials cfg = (case APIUsers cfg of None \<Rightarrow> {APIKey cfg} | Some us \<Rightarrow> fst ` set us)"

text \<open>
  C11. In production the API is closed. A service that started with \<open>APP_ENV=production\<close> has
  credentials, none of them blank, and whatever its registry becomes it answers 401 to every API
  request that does not carry one of them, without any effect.
\<close>

theorem production_api_closed:
  assumes "Start ordb ord p w = Some (Inr rn, w')" "range_order ordb" "range_order ord"
    and "getEnv (pc_env p) ''APP_ENV'' [] = ''production''"
    and "header_get r ''X-API-Key'' \<notin> credentials (rn_cfg rn)"
  shows "credentials (rn_cfg rn) \<noteq> {} \<and> [] \<notin> credentials (rn_cfg rn)
    \<and> serve_route ((process_server p rn sv)\<lparr>sv_reg := reg\<rparr>) (Rt_Api art) r cx h v = (unauthorized cx h, v)"
proof -
  obtain cfg w1 where c: "LoadConfig ordb (pc_regops p) (pc_env p) (pc_readFile p) w = Some (Inr cfg, w1)"
    "start_with ord p cfg w1 = (Inr rn, w')"
    using assms(1) by (auto simp: Start_def split: option.splits sum.splits prod.splits)
  note good = LoadConfig_good [OF c(1) assms(2)] and s = start_with_reg [OF c(1) assms(2,3) c(2)]
  let ?sv = "(process_server p rn sv)\<lparr>sv_reg := reg\<rparr>"
  have sv: "sv_users ?sv = principals (APIUsers cfg)" "sv_legacyKey ?sv = APIKey cfg"
    using s by (simp_all add: process_server_def)
  show ?thesis
  proof (cases "APIUsers cfg")
    case None
    then have "APIKey cfg \<noteq> []" using good assms(4) by blast
    then show ?thesis
      using None assms(5) s sv
      by (simp add: credentials_def serve_route_def Authenticator_def principals_def Let_def unauthorized_def)
  next
    case (Some us)
    then have b: "buildUserRegistry (getEnv (pc_env p) ''API_USERS'' []) = Inr (Some us)" using good by simp
    note users = buildUserRegistry_good [OF b]
    have "[] \<notin> fst ` set us"
    proof
      assume "[] \<in> fst ` set us"
      then obtain u where "gm_get us [] = Some u" by (metis map_of_eq_None_iff not_None_eq)
      then have "good_user [] u" using users by blast
      then show False by (simp add: good_user_def)
    qed
    moreover have "us \<noteq> []" using users by blast
    moreover have "gm_get us (header_get r ''X-API-Key'') = None"
      using assms(5) Some s by (simp add: credentials_def map_of_eq_None_iff)
    then have "serve_route ?sv (Rt_Api art) r cx h v = (unauthorized cx h, v)"
      using served_as(1) [OF b, of ?sv] sv(1) Some by simp
    ultimately show ?thesis using Some s by (simp add: credentials_def)
  qed
qed

subsection \<open>Example\<close>

text \<open>One OLT from the environment, in production, with an API key; every device answers the dialler.\<close>

definition down_redis :: "int redis_ops" where
  "down_redis = \<lparr>rd_get = (\<lambda>k w. (Inl (Plain ''refused''), w)), rd_set = (\<lambda>k v ttl w. (Some (Plain ''refused''), w)),
     rd_del = (\<lambda>k w. (Inl (Plain ''refused''), w)), rd_ttl = (\<lambda>k w. (Inl (Plain ''refused''), w))\<rparr>"

definition small_process :: "(int, bytes, bytes) process" where
  "small_process = \<lparr>pc_env = small_env, pc_readFile = (\<lambda>_. Inl (Plain [])), pc_regops = slow_registry,
     pc_ips = text_ips, pc_redis = (\<lambda>_. down_redis), pc_ping = (\<lambda>_ w. (None, w)),
     pc_dial = (\<lambda>t w. (Inr (sr_conn (table_device ex_olt ex_onus ex_val)), w)), pc_now = (\<lambda>w. (w, w)), pc_tz = (\<lambda>_. None)\<rparr>"

definition startable :: "((gerror + Config) \<times> int) option \<Rightarrow> bool" where
  "startable r = (case r of Some (Inr cfg, w) \<Rightarrow> TrustedProxies cfg = [] \<and> APIKey cfg = ''k1'' \<and> APIUsers cfg = None
     \<and> list_ex (\<lambda>olt. olt_Host olt \<noteq> [] \<and> olt_Port olt \<noteq> 0 \<and> olt_Community olt \<noteq> []) (OLTs cfg) | _ \<Rightarrow> False)"

lemma small_loads:
  obtains cfg w' olt where "LoadConfig (\<lambda>m. m) (pc_regops small_process) (pc_env small_process) (pc_readFile small_process) 0 = Some (Inr cfg, w')"
    "ParseTrustedProxies (pc_ips small_process) (TrustedProxies cfg) = Inr []"
    "olt \<in> set (OLTs cfg)" "connectable (process_deps small_process cfg) olt" "credentials cfg = {''k1''}"
proof -
  have "startable (LoadConfig (\<lambda>m. m) slow_registry small_env (\<lambda>_. Inl (Plain [])) 0)" by code_simp
  then obtain cfg w' olt where l: "LoadConfig (\<lambda>m. m) slow_registry small_env (\<lambda>_. Inl (Plain [])) 0 = Some (Inr cfg, w')"
    "TrustedProxies cfg = []" "APIKey cfg = ''k1''" "APIUsers cfg = None" "olt \<in> set (OLTs cfg)" "olt_Host olt \<noteq> []" "olt_Port olt \<noteq> 0" "olt_Community olt \<noteq> []"
    by (auto simp: startable_def list_ex_iff split: option.splits sum.splits)
  have "ParseTrustedProxies text_ips [] = Inr []" by code_simp
  moreover have "connectable (process_deps small_process cfg) olt"
    using l by (simp add: connectable_def process_deps_def small_process_def)
  ultimately show thesis using that [of cfg w' olt] l by (simp add: small_process_def credentials_def)
qed


theorem production_api_closed_witness:
  "\<exists>rn w'. Start (\<lambda>m. m) rev small_process 0 = Some (Inr rn, w') \<and> [] \<notin> credentials (rn_cfg rn)
     \<and> (\<forall>sv cx h v. serve_route ((process_server small_process rn sv)\<lparr>sv_reg := rn_reg rn\<rparr>) (Rt_Api Api_Test)
          (web_request ''k2'' [] []) cx h v = (unauthorized cx h, v))"
proof -
  obtain cfg w1 olt where c: "LoadConfig (\<lambda>m. m) (pc_regops small_process) (pc_env small_process) (pc_readFile small_process) 0 = Some (Inr cfg, w1)"
    "ParseTrustedProxies (pc_ips small_process) (TrustedProxies cfg) = Inr []"
    "olt \<in> set (OLTs cfg)" "connectable (process_deps small_process cfg) olt" "credentials cfg = {''k1''}"
    by (rule small_loads)
  obtain rn w' where rn: "Start (\<lambda>m. m) rev small_process 0 = Some (Inr rn, w')" "rn_cfg rn = cfg"
    using start_runs [OF c(1-4) range_order_id range_order_rev] by blast
  have env: "getEnv (pc_env small_process) ''APP_ENV'' [] = ''production''"
    by (simp add: getEnv_def small_process_def small_env_def)
  have "header_get (web_request ''k2'' [] []) ''X-API-Key'' \<notin> credentials (rn_cfg rn)"
    by (simp add: rn(2) c(5) web_request_key)
  note closed = production_api_closed [OF rn(1) range_order_id range_order_rev env this]
  show ?thesis
    by (intro exI [of _ rn] exI [of _ w'] conjI allI rn(1)) (use closed in blast)+
qed

end
