(* ===== verification/Http_Observed.thy ===== *)
theory Http_Observed
  imports Http_Routes
begin

text \<open>
  What the service reports about its requests: the counters of \<open>pkg/metrics/prometheus.go\<close>,
  the access log of \<open>internal/middleware/logger.go\<close>, which also stops panics, and the audit log
  of \<open>internal/middleware/audit.go\<close>. Their state, \<open>observed\<close>, runs beside the world.
  Measured times and sizes are left out: a histogram is the number of its observations.

  Here a handler that has not written anything, and one that panics, are outcomes of their own.
\<close>

subsection \<open>Outcomes of a handler\<close>

text \<open>
  \<open>AbortHandler\<close> is the panic with \<open>http.ErrAbortHandler\<close>. A panic unwinds with the
  headers set so far and what was written before it. The status that the wrapped response writer
  reports is 0 while nothing is written, and once the header is written it stays.
\<close>

datatype panic = AbortHandler | OtherPanic bytes

datatype outcome = Returned "response option" | Panicked panic headers "response option"

type_synonym ('e, 'w) raw_handler = "request \<Rightarrow> 'e req_ctx \<Rightarrow> headers \<Rightarrow> 'w \<Rightarrow> outcome \<times> 'w"

definition written_status :: "response option \<Rightarrow> int" where
  "written_status rs = (case rs of None \<Rightarrow> 0 | Some rs \<Rightarrow> rs_Status rs)"

subsection \<open>The collectors\<close>

datatype metric_kind = Counter | Histogram | Gauge

text \<open>Name, kind and labels of each collector, in the order \<open>init\<close> registers them.\<close>

definition collectors :: "(bytes \<times> metric_kind \<times> bytes list) list" where
  "collectors =
     [(''http_requests_total'', Counter, [''method'', ''path'', ''status'']),
      (''http_request_duration_seconds'', Histogram, [''method'', ''path'']),
      (''http_requests_in_flight'', Gauge, []),
      (''snmp_operations_total'', Counter, [''operation'', ''status'']),
      (''snmp_operation_duration_seconds'', Histogram, [''operation'']),
      (''snmp_cache_hits_total'', Counter, [''type'']),
      (''snmp_cache_misses_total'', Counter, [''type''])]"

text \<open>\<open>MustRegister\<close> panics on a name that is taken.\<close>

lemma collectors_distinct: "distinct (map fst collectors)"
  by code_simp

record access_line =
  al_RequestID :: bytes
  al_RemoteAddr :: bytes
  al_Path :: bytes
  al_Method :: bytes
  al_UserAgent :: bytes
  al_Status :: int

record panic_line =
  pl_Recover :: panic
  pl_RequestID :: bytes
  pl_Method :: bytes
  pl_Path :: bytes

record audit_line =
  ad_RequestID :: bytes
  ad_Method :: bytes
  ad_Path :: bytes
  ad_Status :: int
  ad_IP :: bytes
  ad_APIKey :: bytes
  ad_UserAgent :: bytes

record observed =
  HTTPRequestsTotal :: "(bytes \<times> bytes \<times> bytes, int) gomap"
  HTTPRequestDuration :: "(bytes \<times> bytes, int) gomap"
  HTTPRequestsInFlight :: int
  SNMPOperationsTotal :: "(bytes \<times> bytes, int) gomap"
  SNMPOperationDuration :: "(bytes, int) gomap"
  CacheHitsTotal :: "(bytes, int) gomap"
  CacheMissesTotal :: "(bytes, int) gomap"
  ob_access :: "access_line list"
  ob_panics :: "panic_line list"
  ob_audit :: "audit_line list"

definition counter :: "('k, int) gomap \<Rightarrow> 'k \<Rightarrow> int" where
  "counter m k = (case gm_get m k of Some n \<Rightarrow> n | None \<Rightarrow> 0)"

definition inc :: "'k \<Rightarrow> ('k, int) gomap \<Rightarrow> ('k, int) gomap" where
  "inc k m = gm_set k (counter m k + 1) m"

lemma counter_inc: "counter (inc k m) k' = counter m k' + (if k' = k then 1 else 0)"
  by (simp add: counter_def inc_def map_simps)

definition RecordSNMPOperation :: "bytes \<Rightarrow> gerror option \<Rightarrow> observed \<Rightarrow> observed" where
  "RecordSNMPOperation operation err ob =
     (let status = (if err = None then ''success'' else ''error'') in
      ob\<lparr>SNMPOperationsTotal := inc (operation, status) (SNMPOperationsTotal ob),
         SNMPOperationDuration := inc operation (SNMPOperationDuration ob)\<rparr>)"

definition RecordCacheHit :: "bytes \<Rightarrow> observed \<Rightarrow> observed" where
  "RecordCacheHit cacheType ob = ob\<lparr>CacheHitsTotal := inc cacheType (CacheHitsTotal ob)\<rparr>"

definition RecordCacheMiss :: "bytes \<Rightarrow> observed \<Rightarrow> observed" where
  "RecordCacheMiss cacheType ob = ob\<lparr>CacheMissesTotal := inc cacheType (CacheMissesTotal ob)\<rparr>"

subsection \<open>Paths as labels\<close>

text \<open>The matches of \<open>/\d+\<close>, from the left and as long as they can be.\<close>

function NormalizePath :: "bytes \<Rightarrow> bytes" where
  "NormalizePath [] = []"
| "NormalizePath (c # s) =
     (if c = CHR ''/'' \<and> s \<noteq> [] \<and> is_digit (hd s) then ''/:id'' @ NormalizePath (dropWhile is_digit s)
      else c # NormalizePath s)"
  by pat_completeness auto
termination
  by (relation "measure length") (auto simp: length_dropWhile_le le_imp_less_Suc)

declare NormalizePath.simps [simp del]

definition skipMetricPaths :: "bytes list" where
  "skipMetricPaths = [''/health'', ''/healthz'', ''/ready'', ''/readyz'', ''/metrics'', ''/'']"

subsection \<open>The middlewares\<close>

text \<open>The decrement of the gauge is deferred: it happens in a panic too.\<close>

definition metrics_Middleware :: "('e, 'w \<times> observed) raw_handler \<Rightarrow> ('e, 'w \<times> observed) raw_handler" where
  "metrics_Middleware nxt r cx h v =
     (if rq_Path r \<in> set skipMetricPaths then nxt r cx h v
      else
        (let path = NormalizePath (rq_Path r); w = fst v; ob = snd v in
         case nxt r cx h (w, ob\<lparr>HTTPRequestsInFlight := HTTPRequestsInFlight ob + 1\<rparr>) of
           (out, (w, ob)) \<Rightarrow>
             (let ob = (case out of
                          Returned rs \<Rightarrow>
                            ob\<lparr>HTTPRequestsTotal := inc (rq_Method r, path, itoa (written_status rs)) (HTTPRequestsTotal ob),
                               HTTPRequestDuration := inc (rq_Method r, path) (HTTPRequestDuration ob)\<rparr>
                        | Panicked _ _ _ \<Rightarrow> ob)
              in (out, (w, ob\<lparr>HTTPRequestsInFlight := HTTPRequestsInFlight ob - 1\<rparr>)))))"

definition skipLogPaths :: "bytes list" where
  "skipLogPaths = [''/health'', ''/healthz'', ''/ready'', ''/readyz'', ''/metrics'']"

text \<open>The deferred function of the logger: \<open>recover\<close>, and the line of the request.\<close>

definition after_panic :: "request \<Rightarrow> 'e req_ctx \<Rightarrow> outcome \<Rightarrow> observed \<Rightarrow> response option \<times> observed" where
  "after_panic r cx out ob =
     (case out of
        Returned rs \<Rightarrow> (rs, ob)
      | Panicked AbortHandler _ rs \<Rightarrow> (rs, ob)
      | Panicked p h rs \<Rightarrow>
          (Some (case rs of Some rs \<Rightarrow> rs | None \<Rightarrow> recovered h),
           ob\<lparr>ob_panics := ob_panics ob @ [\<lparr>pl_Recover = p, pl_RequestID = RequestIDFromContext cx,
                pl_Method = rq_Method r, pl_Path = rq_Path r\<rparr>]\<rparr>))"

definition Logger :: "('e, 'w \<times> observed) raw_handler \<Rightarrow> ('e, 'w \<times> observed) raw_handler" where
  "Logger nxt r cx h v =
     (if rq_Path r \<in> set skipLogPaths then nxt r cx h v
      else
        (case nxt r cx h v of
           (out, (w, ob)) \<Rightarrow>
             (case after_panic r cx out ob of
                (rs, ob) \<Rightarrow>
                  (Returned rs, (w, ob\<lparr>ob_access := ob_access ob @
                     [\<lparr>al_RequestID = RequestIDFromContext cx, al_RemoteAddr = rq_RemoteAddr r, al_Path = rq_Path r,
                       al_Method = rq_Method r, al_UserAgent = header_get r ''User-Agent'', al_Status = written_status rs\<rparr>]\<rparr>)))))"

text \<open>\<open>ips\<close> and \<open>trusted\<close> are the trusted proxies that the start of the service has set.\<close>

definition audit_entry :: "('a, 'p) ip_ops \<Rightarrow> 'p list \<Rightarrow> request \<Rightarrow> 'e req_ctx \<Rightarrow> int \<Rightarrow> audit_line" where
  "audit_entry ips trusted r cx status =
     \<lparr>ad_RequestID = RequestIDFromContext cx, ad_Method = rq_Method r, ad_Path = rq_Path r, ad_Status = status,
      ad_IP = ClientIP ips trusted r, ad_APIKey = maskAPIKey (header_get r ''X-API-Key''),
      ad_UserAgent = header_get r ''User-Agent''\<rparr>"

definition AuditLog ::
    "('a, 'p) ip_ops \<Rightarrow> 'p list \<Rightarrow> ('e, 'w \<times> observed) raw_handler \<Rightarrow> ('e, 'w \<times> observed) raw_handler" where
  "AuditLog ips trusted nxt r cx h v =
     (if isReadMethod (rq_Method r) then nxt r cx h v
      else
        (case nxt r cx h v of
           (Returned rs, (w, ob)) \<Rightarrow>
             (Returned rs, (w, ob\<lparr>ob_audit := ob_audit ob @ [audit_entry ips trusted r cx (written_status rs)]\<rparr>))
         | (Panicked p h rs, v) \<Rightarrow> (Panicked p h rs, v)))"


text \<open>
  The chain of \<open>loadRoutesWithRegistry\<close> with its reports, and the order in which the source
  puts them: behind the limits. \<open>beside\<close> runs a handler of the model next to the reports; the
  panics of the page endpoint have become the answer they end in there, and leave no line of their own.
  What a handler leaves unwritten, \<open>net/http\<close> answers with 200, and after a panic it closes the
  connection: the status 0.
\<close>

definition beside :: "('e, 'w) handler \<Rightarrow> ('e, 'w \<times> observed) raw_handler" where
  "beside nxt r cx h v = (case nxt r cx h (fst v) of (rs, w) \<Rightarrow> (Returned (Some rs), (w, snd v)))"

definition on_world :: "('w \<Rightarrow> 'b \<times> 'w) \<Rightarrow> 'w \<times> observed \<Rightarrow> 'b \<times> ('w \<times> observed)" where
  "on_world f v = (case f (fst v) of (a, w) \<Rightarrow> (a, (w, snd v)))"

definition served :: "('e, 'w) raw_handler \<Rightarrow> ('e, 'w) handler" where
  "served nxt r cx h v =
     (case nxt r cx h v of
        (Returned (Some rs), v) \<Rightarrow> (rs, v)
      | (Returned None, v) \<Rightarrow> (\<lparr>rs_Status = 200, rs_Headers = h, rs_Body = TextBody []\<rparr>, v)
      | (Panicked _ _ _, v) \<Rightarrow> (\<lparr>rs_Status = 0, rs_Headers = [], rs_Body = TextBody []\<rparr>, v))"

definition observed_server ::
    "('a, 'p) ip_ops \<Rightarrow> 'p list \<Rightarrow> 'w server \<Rightarrow> (OLTEntry, 'w \<times> observed) handler" where
  "observed_server ips trusted sv =
     RequestID_mw (on_world (sv_new_id sv))
       (APIVersionHeader (DefaultAPIVersionConfig (bi_APIVersion (sv_build sv)) (bi_Version (sv_build sv)) (bi_Commit (sv_build sv)))
         (SecurityHeaders (RateLimiter (on_world (sv_allow sv)) (MaxBodySize 1048576
           (served (metrics_Middleware (Logger (AuditLog ips trusted
             (beside (sv_cors sv (cors_options_of (sv_env sv)) (router sv)))))))))))"

subsection \<open>One request, one report\<close>

text \<open>The parts of the reports that belong to requests. A handler adds at most SNMP operations to the others: the source
  counts the walks of the uplink detection, and never a cache hit or miss.\<close>

definition same_requests :: "observed \<Rightarrow> observed \<Rightarrow> bool" where
  "same_requests ob ob' \<longleftrightarrow> HTTPRequestsTotal ob' = HTTPRequestsTotal ob \<and> HTTPRequestDuration ob' = HTTPRequestDuration ob
     \<and> HTTPRequestsInFlight ob' = HTTPRequestsInFlight ob \<and> ob_access ob' = ob_access ob
     \<and> ob_panics ob' = ob_panics ob \<and> ob_audit ob' = ob_audit ob"

lemma skip_log_metric: "x \<notin> set skipMetricPaths \<Longrightarrow> x \<notin> set skipLogPaths"
  by (auto simp: skipMetricPaths_def skipLogPaths_def)

definition panicked :: "outcome \<Rightarrow> bool" where
  "panicked out \<longleftrightarrow> (case out of Returned _ \<Rightarrow> False | Panicked _ _ _ \<Rightarrow> True)"

definition access_entry :: "request \<Rightarrow> 'e req_ctx \<Rightarrow> int \<Rightarrow> access_line" where
  "access_entry r cx status = \<lparr>al_RequestID = RequestIDFromContext cx, al_RemoteAddr = rq_RemoteAddr r,
     al_Path = rq_Path r, al_Method = rq_Method r, al_UserAgent = header_get r ''User-Agent'', al_Status = status\<rparr>"

lemma Logger_result:
  assumes "rq_Path r \<notin> set skipLogPaths" "nxt r cx h v = (out, (w, ob))"
  shows "\<exists>rs lines. Logger nxt r cx h v = (Returned rs, (w, ob\<lparr>
        ob_access := ob_access ob @ [access_entry r cx (written_status rs)], ob_panics := ob_panics ob @ lines\<rparr>))
    \<and> (\<forall>x. out = Returned x \<longrightarrow> rs = x \<and> lines = [])
    \<and> (\<forall>m h'. out = Panicked (OtherPanic m) h' None \<longrightarrow> rs = Some (recovered h')
         \<and> lines = [\<lparr>pl_Recover = OtherPanic m, pl_RequestID = RequestIDFromContext cx,
              pl_Method = rq_Method r, pl_Path = rq_Path r\<rparr>])"
proof (cases out)
  case (Panicked p h' rs)
  show ?thesis
  proof (cases p)
    case AbortHandler
    then show ?thesis using assms Panicked
      by (intro exI [of _ rs] exI [of _ "[]"]) (simp add: Logger_def after_panic_def access_entry_def)
  next
    case (OtherPanic m)
    then show ?thesis using assms Panicked
      by (intro exI [of _ "Some (case rs of Some rs \<Rightarrow> rs | None \<Rightarrow> recovered h')"]
          exI [of _ "[\<lparr>pl_Recover = p, pl_RequestID = RequestIDFromContext cx, pl_Method = rq_Method r, pl_Path = rq_Path r\<rparr>]"])
        (simp add: Logger_def after_panic_def access_entry_def)
  qed
qed (use assms in \<open>simp add: Logger_def after_panic_def access_entry_def\<close>)

lemma AuditLog_result:
  assumes "nxt r cx h v = (out, (w, ob))"
  shows "AuditLog ips trusted nxt r cx h v = (out, (w, ob\<lparr>ob_audit := ob_audit ob @
    (if isReadMethod (rq_Method r) then [] else (case out of Returned rs \<Rightarrow> [audit_entry ips trusted r cx (written_status rs)]
       | Panicked _ _ _ \<Rightarrow> []))\<rparr>))"
  using assms by (simp add: AuditLog_def split: outcome.split)

lemma metrics_result:
  assumes "rq_Path r \<notin> set skipMetricPaths"
    and "nxt r cx h (w, ob\<lparr>HTTPRequestsInFlight := HTTPRequestsInFlight ob + 1\<rparr>) = (Returned rs, (w', ob'))"
  shows "metrics_Middleware nxt r cx h (w, ob) = (Returned rs, (w',
    ob'\<lparr>HTTPRequestsTotal := inc (rq_Method r, NormalizePath (rq_Path r), itoa (written_status rs)) (HTTPRequestsTotal ob'),
        HTTPRequestDuration := inc (rq_Method r, NormalizePath (rq_Path r)) (HTTPRequestDuration ob'),
        HTTPRequestsInFlight := HTTPRequestsInFlight ob' - 1\<rparr>))"
  using assms by (simp add: metrics_Middleware_def Let_def)

text \<open>
  C15. Whatever a handler does, return or panic, its request is reported once. For a path that is
  not excluded no panic gets past the logger, and one that comes before anything is written is answered
  with 500; the gauge of requests in flight is as before; the counter of the method, the normalised path
  and the status that was sent grows by one and no other does; the access log has one more line, with that
  status; the audit log has one more line exactly when the method writes and the handler returned.
\<close>

theorem request_reported_once:
  assumes "rq_Path r \<notin> set skipMetricPaths"
    and "nxt r cx h (w, ob\<lparr>HTTPRequestsInFlight := HTTPRequestsInFlight ob + 1\<rparr>) = (out, (w', ob1))"
    and "same_requests (ob\<lparr>HTTPRequestsInFlight := HTTPRequestsInFlight ob + 1\<rparr>) ob1"
  shows "\<exists>rs ob'. metrics_Middleware (Logger (AuditLog ips trusted nxt)) r cx h (w, ob) = (Returned rs, (w', ob'))
    \<and> (\<forall>x. out = Returned x \<longrightarrow> rs = x)
    \<and> (\<forall>m h'. out = Panicked (OtherPanic m) h' None \<longrightarrow> rs = Some (recovered h'))
    \<and> HTTPRequestsInFlight ob' = HTTPRequestsInFlight ob
    \<and> (\<forall>k. counter (HTTPRequestsTotal ob') k = counter (HTTPRequestsTotal ob) k
          + (if k = (rq_Method r, NormalizePath (rq_Path r), itoa (written_status rs)) then 1 else 0))
    \<and> (\<forall>k. counter (HTTPRequestDuration ob') k = counter (HTTPRequestDuration ob) k
          + (if k = (rq_Method r, NormalizePath (rq_Path r)) then 1 else 0))
    \<and> ob_access ob' = ob_access ob @ [access_entry r cx (written_status rs)]
    \<and> ob_audit ob' = ob_audit ob @ (if isReadMethod (rq_Method r) \<or> panicked out then []
          else [audit_entry ips trusted r cx (written_status rs)])"
proof -
  let ?v = "(w, ob\<lparr>HTTPRequestsInFlight := HTTPRequestsInFlight ob + 1\<rparr>)"
  let ?audit = "if isReadMethod (rq_Method r) then [] else (case out of
      Returned rs \<Rightarrow> [audit_entry ips trusted r cx (written_status rs)] | Panicked _ _ _ \<Rightarrow> [])"
  let ?ob = "ob1\<lparr>ob_audit := ob_audit ob1 @ ?audit\<rparr>"
  note a = AuditLog_result [of nxt r cx h ?v, OF assms(2), of ips trusted]
  obtain rs lines where l: "Logger (AuditLog ips trusted nxt) r cx h ?v = (Returned rs, (w', ?ob\<lparr>
        ob_access := ob_access ?ob @ [access_entry r cx (written_status rs)], ob_panics := ob_panics ?ob @ lines\<rparr>))"
    and b: "\<forall>x. out = Returned x \<longrightarrow> rs = x" "\<forall>m h'. out = Panicked (OtherPanic m) h' None \<longrightarrow> rs = Some (recovered h')"
    using Logger_result [of r "AuditLog ips trusted nxt" cx h ?v, OF skip_log_metric [OF assms(1)] a] by blast
  have o: "HTTPRequestsTotal ob1 = HTTPRequestsTotal ob" "HTTPRequestDuration ob1 = HTTPRequestDuration ob"
    "HTTPRequestsInFlight ob1 = HTTPRequestsInFlight ob + 1" "ob_access ob1 = ob_access ob" "ob_audit ob1 = ob_audit ob"
    using assms(3) by (simp_all add: same_requests_def)
  have audit: "?audit = (if isReadMethod (rq_Method r) \<or> panicked out then []
          else [audit_entry ips trusted r cx (written_status rs)])"
    using b(1) by (cases out) (simp_all add: panicked_def)
  note m = metrics_result [of r "Logger (AuditLog ips trusted nxt)" cx h w ob, OF assms(1) l]
  show ?thesis
    by (rule exI [of _ rs], rule exI, rule conjI, rule m, intro conjI b) (simp_all add: o counter_inc audit)
qed


definition ex_request :: "bytes \<Rightarrow> bytes \<Rightarrow> request" where
  "ex_request meth path = \<lparr>rq_Method = meth, rq_Path = path, rq_RemoteAddr = ''192.0.2.7:5000'', rq_Header = (\<lambda>k.
     if k = ''X-API-Key'' then [''0123456789abcdef''] else []), rq_Query = [], rq_Param = (\<lambda>_. []), rq_Body = []\<rparr>"

definition no_reports :: observed where
  "no_reports = \<lparr>HTTPRequestsTotal = [], HTTPRequestDuration = [], HTTPRequestsInFlight = 0, SNMPOperationsTotal = [],
     SNMPOperationDuration = [], CacheHitsTotal = [], CacheMissesTotal = [], ob_access = [], ob_panics = [], ob_audit = []\<rparr>"

text \<open>A handler that panics, and its request.\<close>

theorem request_reported_once_witness:
  "\<exists>ob. metrics_Middleware (Logger (AuditLog text_ips []
       (\<lambda>r cx h v. (Panicked (OtherPanic ''index out of range'') h None, v))))
     (ex_request ''POST'' ''/api/v1/board/2/pon/16/onu_id/update'') (Background :: OLTEntry req_ctx) [] ((), no_reports)
     = (Returned (Some (recovered [])), ((), ob))
   \<and> HTTPRequestsInFlight ob = 0 \<and> ob_audit ob = []
   \<and> counter (HTTPRequestsTotal ob) (''POST'', ''/api/v1/board/:id/pon/:id/onu_id/update'', ''500'') = 1"
proof -
  let ?r = "ex_request ''POST'' ''/api/v1/board/2/pon/16/onu_id/update''"
  let ?nxt = "\<lambda>(r :: request) (cx :: OLTEntry req_ctx) (h :: headers) v. (Panicked (OtherPanic ''index out of range'') h None, v :: unit \<times> observed)"
  have s: "rq_Path ?r \<notin> set skipMetricPaths" by (simp add: ex_request_def skipMetricPaths_def)
  have five: "itoa 500 = ''500''" by code_simp
  have "NormalizePath ''/api/v1/board/2/pon/16/onu_id/update'' = ''/api/v1/board/:id/pon/:id/onu_id/update''" by code_simp
  then have f: "rq_Method ?r = ''POST''" "NormalizePath (rq_Path ?r) = ''/api/v1/board/:id/pon/:id/onu_id/update''"
    by (simp_all add: ex_request_def)
  let ?ob = "no_reports\<lparr>HTTPRequestsInFlight := HTTPRequestsInFlight no_reports + 1\<rparr>"
  have "same_requests ?ob ?ob" by (simp add: same_requests_def)
  note same = this
  have p: "?nxt ?r (Background :: OLTEntry req_ctx) [] ((), ?ob) = (Panicked (OtherPanic ''index out of range'') [] None, ((), ?ob))"
    by simp
  from request_reported_once [of ?r ?nxt "Background :: OLTEntry req_ctx" "[]" "()" no_reports, OF s p same, of text_ips "[]"]
  obtain rs ob where x: "metrics_Middleware (Logger (AuditLog text_ips [] ?nxt)) ?r (Background :: OLTEntry req_ctx) [] ((), no_reports) = (Returned rs, ((), ob))"
    "rs = Some (recovered [])" "HTTPRequestsInFlight ob = 0" "ob_audit ob = []"
    "counter (HTTPRequestsTotal ob) (''POST'', ''/api/v1/board/:id/pon/:id/onu_id/update'', itoa (written_status rs)) = 1"
    by (auto simp: f no_reports_def panicked_def counter_def)
  then show ?thesis by (intro exI [of _ ob]) (simp add: written_status_def recovered_def five)
qed


subsection \<open>The server behind its reports\<close>

definition request_id :: "'w server \<Rightarrow> request \<Rightarrow> 'w \<Rightarrow> bytes \<times> 'w" where
  "request_id sv r w = (if header_get r ''X-Request-ID'' = [] then sv_new_id sv w else (header_get r ''X-Request-ID'', w))"

definition over_limit :: "'w server \<Rightarrow> request \<Rightarrow> 'w \<Rightarrow> bool" where
  "over_limit sv r w \<longleftrightarrow> rq_Path r \<notin> set rateLimitExemptPaths \<and> \<not> fst (sv_allow sv (snd (request_id sv r w)))"

text \<open>The report of a request whose answer has the given status.\<close>

definition reported :: "('a, 'p) ip_ops \<Rightarrow> 'p list \<Rightarrow> request \<Rightarrow> 'e req_ctx \<Rightarrow> int \<Rightarrow> observed \<Rightarrow> observed" where
  "reported ips trusted r cx status ob = ob
     \<lparr>HTTPRequestsTotal := (if rq_Path r \<in> set skipMetricPaths then HTTPRequestsTotal ob
        else inc (rq_Method r, NormalizePath (rq_Path r), itoa status) (HTTPRequestsTotal ob)),
      HTTPRequestDuration := (if rq_Path r \<in> set skipMetricPaths then HTTPRequestDuration ob
        else inc (rq_Method r, NormalizePath (rq_Path r)) (HTTPRequestDuration ob)),
      ob_access := ob_access ob @ (if rq_Path r \<in> set skipLogPaths then [] else [access_entry r cx status]),
      ob_audit := ob_audit ob @ (if isReadMethod (rq_Method r) then [] else [audit_entry ips trusted r cx status])\<rparr>"

lemma reported_body [simp]: "reported ips trusted (r\<lparr>rq_Body := x\<rparr>) cx status ob = reported ips trusted r cx status ob"
  by (simp add: reported_def access_entry_def audit_entry_def header_get_def ClientIP_def)

lemma served_beside:
  "served (metrics_Middleware (Logger (AuditLog ips trusted (beside nxt)))) r cx h (w, ob)
     = (case nxt r cx h w of (rs, w') \<Rightarrow> (rs, (w', reported ips trusted r cx (rs_Status rs) ob)))"
  using skip_log_metric [of "rq_Path r"]
  by (cases "nxt r cx h w")
    (simp add: served_def beside_def metrics_Middleware_def Logger_def AuditLog_def after_panic_def Let_def
      reported_def written_status_def access_entry_def)

definition version_headers :: "APIVersionConfig \<Rightarrow> headers \<Rightarrow> headers" where
  "version_headers cfg h =
     fold (\<lambda>(k, v). gm_set k v) security_headers
       (set_nonempty (av_CommitHeader cfg) (av_Commit cfg) (set_nonempty (av_AppVersionHeader cfg) (av_AppVersion cfg)
         (set_nonempty (av_APIVersionHeader cfg) (av_APIVersion cfg) h)))"

lemma version_chain:
  "APIVersionHeader (DefaultAPIVersionConfig a b c) (SecurityHeaders nxt) r cx h w
     = nxt r cx (version_headers (DefaultAPIVersionConfig a b c) h) w"
  by (simp add: APIVersionHeader_def SecurityHeaders_def version_headers_def DefaultAPIVersionConfig_def Let_def)


subsection \<open>How many labels there are\<close>

definition path_of :: "bytes list \<Rightarrow> bytes" where
  "path_of segs = concat (map (\<lambda>s. CHR ''/'' # s) segs)"

definition segment_label :: "bytes \<Rightarrow> bytes" where
  "segment_label s = (if s \<noteq> [] \<and> is_digit (hd s) then '':id'' @ dropWhile is_digit s else s)"

lemma NormalizePath_plain: "CHR ''/'' \<notin> set s \<Longrightarrow> NormalizePath (s @ t) = s @ NormalizePath t"
  by (induction s) (auto simp: NormalizePath.simps)

lemma slash_no_digit [simp]: "\<not> is_digit CHR ''/''" "\<not> is_digit CHR '':''"
  by (simp_all add: is_digit_def)

lemma dropWhile_segment: "dropWhile is_digit (s @ path_of segs) = dropWhile is_digit s @ path_of segs"
  by (cases segs; induction s) (simp_all add: path_of_def)

lemma NormalizePath_path:
  "\<forall>s \<in> set segs. CHR ''/'' \<notin> set s \<Longrightarrow> NormalizePath (path_of segs) = path_of (map segment_label segs)"
proof (induction segs)
  case (Cons s segs)
  have p: "path_of (s # segs) = CHR ''/'' # s @ path_of segs" for s segs by (simp add: path_of_def)
  have h: "s = [] \<Longrightarrow> path_of segs = [] \<or> hd (path_of segs) = CHR ''/''" by (cases segs) (simp_all add: path_of_def)
  have "CHR ''/'' \<notin> set (dropWhile is_digit s)" using Cons.prems by (auto dest: set_dropWhileD)
  with Cons h show ?case
    by (cases "s = []") (auto simp: p NormalizePath.simps(2) dropWhile_segment NormalizePath_plain segment_label_def)
qed (simp add: path_of_def NormalizePath.simps)

lemma hd_NormalizePath: "s \<noteq> [] \<Longrightarrow> NormalizePath s \<noteq> [] \<and> hd (NormalizePath s) = hd s"
  by (cases s) (simp_all add: NormalizePath.simps)

lemma NormalizePath_idem: "NormalizePath (NormalizePath s) = NormalizePath s"
proof (induction s rule: NormalizePath.induct)
  case (2 c s)
  have i: "NormalizePath (''/:id'' @ t) = ''/:id'' @ NormalizePath t" for t
    using NormalizePath_plain [of "'':id''" t] by (simp add: NormalizePath.simps(2))
  show ?case
  proof (cases "c = CHR ''/'' \<and> s \<noteq> [] \<and> is_digit (hd s)")
    case True
    then show ?thesis using 2(1) i by (simp add: NormalizePath.simps(2))
  next
    case False
    then have n: "NormalizePath (c # s) = c # NormalizePath s" by (auto simp: NormalizePath.simps(2))
    have "\<not> (c = CHR ''/'' \<and> NormalizePath s \<noteq> [] \<and> is_digit (hd (NormalizePath s)))"
      using False hd_NormalizePath [of s] by (cases "s = []") (auto simp: NormalizePath.simps(1))
    then show ?thesis unfolding n using 2(2) [OF False] by (auto simp: NormalizePath.simps(2))
  qed
qed (simp add: NormalizePath.simps)

definition number :: "bytes \<Rightarrow> bool" where
  "number s \<longleftrightarrow> s \<noteq> [] \<and> list_all is_digit s"

lemma segment_label_number: "number s \<Longrightarrow> segment_label s = '':id''"
  by (cases s) (auto simp: number_def segment_label_def list_all_iff)

lemma NormalizePath_shape:
  assumes "\<forall>s \<in> set segs \<union> set segs'. CHR ''/'' \<notin> set s"
    and "list_all2 (\<lambda>s t. s = t \<or> number s \<and> number t) segs segs'"
  shows "NormalizePath (path_of segs) = NormalizePath (path_of segs')"
proof -
  have "map segment_label segs = map segment_label segs'"
    using assms(2) by (induction rule: list_all2_induct) (auto simp: segment_label_number)
  with assms(1) show ?thesis by (simp add: NormalizePath_path)
qed


text \<open>
  Paths that differ in numeric segments only have one label, so the ids of boards, ports and
  ONUs do not multiply the series of a metric, and a label is its own label.
\<close>

theorem metric_labels_few:
  assumes "\<forall>s \<in> set segs \<union> set segs'. CHR ''/'' \<notin> set s"
    and "list_all2 (\<lambda>s t. s = t \<or> number s \<and> number t) segs segs'"
  shows "NormalizePath (path_of segs) = NormalizePath (path_of segs')
    \<and> NormalizePath (NormalizePath (path_of segs)) = NormalizePath (path_of segs)"
  using NormalizePath_shape [OF assms] NormalizePath_idem by blast

theorem metric_labels_few_witness:
  "NormalizePath ''/api/v1/board/1/pon/8/onu/42'' = NormalizePath ''/api/v1/board/2/pon/16/onu/128''"
proof -
  let ?a = "[''api'', ''v1'', ''board'', ''1'', ''pon'', ''8'', ''onu'', ''42'']"
  let ?b = "[''api'', ''v1'', ''board'', ''2'', ''pon'', ''16'', ''onu'', ''128'']"
  have "\<forall>s \<in> set ?a \<union> set ?b. CHR ''/'' \<notin> set s" by simp
  moreover have "number ''1''" "number ''2''" "number ''8''" "number ''16''" "number ''42''" "number ''128''" by code_simp+
  then have "list_all2 (\<lambda>s t. s = t \<or> number s \<and> number t) ?a ?b" by simp
  ultimately have "NormalizePath (path_of ?a) = NormalizePath (path_of ?b)" using metric_labels_few by blast
  then show ?thesis by (simp add: path_of_def)
qed

end
