(* ===== verification/Trap_Service.thy ===== *)
theory Trap_Service
  imports Power_Monitor
begin

text \<open>
  How the trap components run from their start to their end: the listener's settings
  (\<open>NewListener\<close>), the timers of the batcher with the flush at its end (\<open>Start\<close> and
  \<open>Close\<close> of \<open>batcher.go\<close>), and the schedule of the power monitor
  (\<open>NewPowerMonitor\<close> and \<open>Start\<close> of \<open>power_monitor.go\<close>). The operations are those of
  the other trap theories; here each runs to its end before the next, the interleaving of their steps
  is \<open>batcher_step\<close>.
\<close>

subsection \<open>The listener\<close>

text \<open>The receiving of packets is \<open>gosnmp\<close>; it calls \<open>handleTrap\<close>.\<close>

record listener_setup =
  li_addr :: bytes
  li_Community :: bytes
  li_Version :: bytes

definition NewListener :: "int \<Rightarrow> bytes \<Rightarrow> listener_setup" where
  "NewListener port community = \<lparr>li_addr = ''0.0.0.0:'' @ itoa port, li_Community = community, li_Version = ''2c''\<rparr>"

subsection \<open>The timers of the batcher\<close>

text \<open>The severities that \<open>Start\<close> gives a timer.\<close>

definition timed :: "(Severity, int) gomap \<Rightarrow> Severity list" where
  "timed intervals = map fst (filter (\<lambda>(sev, interval). interval > 0) intervals)"

datatype batcher_op = Op_Add TrapEvent | Op_Remove TrapEvent | Op_Tick Severity

record batcher_run =
  br_queues :: queues
  br_sent :: "(Severity \<times> TrapEvent list) list"

type_synonym queue_ord = "(bytes, batcherEntry) range_ord"

definition run_flush ::
    "'w batcher_cfg \<Rightarrow> 'w clock \<Rightarrow> queue_ord \<Rightarrow> Severity \<Rightarrow> batcher_run \<Rightarrow> 'w \<Rightarrow> batcher_run \<times> 'w" where
  "run_flush cfg clock ord sev s w =
     (case flushSeverity cfg clock ord sev (br_queues s) w of
        ((gs, batch), w) \<Rightarrow>
          (\<lparr>br_queues = gs, br_sent = br_sent s @ (if batch = [] then [] else [(sev, batch)])\<rparr>, w))"

text \<open>A tick of a timer that was not started does not happen.\<close>

fun run_op ::
    "'w batcher_cfg \<Rightarrow> 'w clock \<Rightarrow> queue_ord \<Rightarrow> Severity list \<Rightarrow> batcher_op \<Rightarrow> batcher_run \<Rightarrow> 'w \<Rightarrow> batcher_run \<times> 'w" where
  "run_op cfg clock ord sevs (Op_Add e) s w = (s\<lparr>br_queues := Batcher_Add e (br_queues s)\<rparr>, w)"
| "run_op cfg clock ord sevs (Op_Remove e) s w = (s\<lparr>br_queues := Batcher_Remove e (br_queues s)\<rparr>, w)"
| "run_op cfg clock ord sevs (Op_Tick sev) s w = (if sev \<in> set sevs then run_flush cfg clock ord sev s w else (s, w))"

fun run_ops ::
    "'w batcher_cfg \<Rightarrow> 'w clock \<Rightarrow> queue_ord \<Rightarrow> Severity list \<Rightarrow> batcher_op list \<Rightarrow> batcher_run \<Rightarrow> 'w \<Rightarrow> batcher_run \<times> 'w" where
  "run_ops cfg clock ord sevs [] s w = (s, w)"
| "run_ops cfg clock ord sevs (op # ops) s w =
     (case run_op cfg clock ord sevs op s w of (s, w) \<Rightarrow> run_ops cfg clock ord sevs ops s w)"

text \<open>\<open>Close\<close> closes the stop channel: every timer flushes once more and ends.\<close>

fun final_flushes ::
    "'w batcher_cfg \<Rightarrow> 'w clock \<Rightarrow> queue_ord \<Rightarrow> Severity list \<Rightarrow> batcher_run \<Rightarrow> 'w \<Rightarrow> batcher_run \<times> 'w" where
  "final_flushes cfg clock ord [] s w = (s, w)"
| "final_flushes cfg clock ord (sev # sevs) s w =
     (case run_flush cfg clock ord sev s w of (s, w) \<Rightarrow> final_flushes cfg clock ord sevs s w)"

text \<open>A whole life: \<open>Start\<close> with its ticks among the calls of the others, then \<open>Close\<close>.\<close>

definition batcher_life ::
    "'w batcher_cfg \<Rightarrow> 'w clock \<Rightarrow> queue_ord \<Rightarrow> (Severity, int) gomap \<Rightarrow> batcher_op list \<Rightarrow> 'w \<Rightarrow> batcher_run \<times> 'w" where
  "batcher_life cfg clock ord intervals ops w =
     (case run_ops cfg clock ord (timed intervals) ops \<lparr>br_queues = [], br_sent = []\<rparr> w of
        (s, w) \<Rightarrow> final_flushes cfg clock ord (timed intervals) s w)"

subsection \<open>A flush misses nothing\<close>

lemma flush_entry_fresh: "be_lastNotified entry = None \<Longrightarrow> flush_entry cfg clock sev entry w \<noteq> (Skip, w')"
  by (auto simp: flush_entry_def waits_def verify_detail_def verify_power_def verify_status_def Let_def
      split: option.splits prod.splits sum.splits if_splits)

text \<open>What became of an entry: it was asked about, and dropped or notified as the answer said.\<close>

definition asked :: "'w batcher_cfg \<Rightarrow> 'w clock \<Rightarrow> Severity \<Rightarrow> batcherEntry \<Rightarrow> (action \<Rightarrow> bool) \<Rightarrow> bool" where
  "asked cfg clock sev entry P \<longleftrightarrow> (\<exists>w a w'. flush_entry cfg clock sev entry w = (a, w') \<and> P a)"

lemma flush_keys_covers:
  "flush_keys cfg clock sev m keys acc w = ((rm, nt), w') \<Longrightarrow>
    set (fst acc) \<subseteq> set rm \<and> set (snd acc) \<subseteq> set nt
    \<and> (\<forall>key \<in> set keys. \<forall>entry. gm_get m key = Some entry \<longrightarrow> asked cfg clock sev entry (\<lambda>a. case a of
         Skip \<Rightarrow> True | Drop \<Rightarrow> key \<in> set rm | Notify e \<Rightarrow> (key, e) \<in> set nt))"
proof (induction keys arbitrary: acc w)
  case (Cons key keys)
  show ?case
  proof (cases "gm_get m key")
    case None
    then show ?thesis using Cons.IH [of acc w] Cons.prems by auto
  next
    case (Some entry)
    obtain a w1 where a: "flush_entry cfg clock sev entry w = (a, w1)" by fastforce
    then have "flush_keys cfg clock sev m keys (note_action key a acc) w1 = ((rm, nt), w')"
      using Cons.prems Some by simp
    note ih = Cons.IH [OF this]
    have "set (fst acc) \<subseteq> set rm" "set (snd acc) \<subseteq> set nt"
      and here: "case a of Skip \<Rightarrow> True | Drop \<Rightarrow> key \<in> set rm | Notify e \<Rightarrow> (key, e) \<in> set nt"
      using ih by (auto simp: note_action_def split: action.splits)
    moreover have "asked cfg clock sev entry (\<lambda>a. case a of Skip \<Rightarrow> True | Drop \<Rightarrow> key \<in> set rm | Notify e \<Rightarrow> (key, e) \<in> set nt)"
      unfolding asked_def using a here by blast
    ultimately show ?thesis using ih Some by auto
  qed
qed simp

lemma flushSeverity_other: "flushSeverity cfg clock ord sev gs w = ((gs', batch), w') \<Longrightarrow> s \<noteq> sev \<Longrightarrow> queue_of gs' s = queue_of gs s"
  by (auto simp: flushSeverity_def Let_def queue_of_on_queue remove_keys_Nil mark_notified_Nil split: if_splits prod.splits)

lemma flushSeverity_complete:
  assumes "flushSeverity cfg clock ord sev gs w = ((gs', batch), w')" "range_order ord"
  shows "(\<forall>key entry. gm_get (queue_of gs' sev) key = Some entry \<longrightarrow> be_lastNotified entry \<noteq> None)
    \<and> (\<forall>key entry. gm_get (queue_of gs sev) key = Some entry \<and> be_lastNotified entry = None \<longrightarrow>
         asked cfg clock sev entry (\<lambda>a. a = Drop \<or> (\<exists>e \<in> set batch. a = Notify e)))"
proof (cases "queue_of gs sev = []")
  case True
  then show ?thesis using assms(1) by (simp add: flushSeverity_def)
next
  case False
  let ?m = "queue_of gs sev"
  obtain rm nt w1 where k: "flush_keys cfg clock sev ?m (map fst (ord ?m)) ([], []) w = ((rm, nt), w1)"
    by (metis prod.collapse)
  have keys: "set (map fst (ord ?m)) = fst ` set ?m" using range_order_set [OF assms(2)] by simp
  have fresh: "asked cfg clock sev entry (\<lambda>a. a = Drop \<and> key \<in> set rm \<or> (\<exists>e. a = Notify e \<and> (key, e) \<in> set nt))"
    if "gm_get ?m key = Some entry" "be_lastNotified entry = None" for key entry
  proof -
    have "key \<in> set (map fst (ord ?m))" using that(1) keys by (metis domI dom_map_of_conv_image_fst)
    then have "asked cfg clock sev entry (\<lambda>a. case a of Skip \<Rightarrow> True | Drop \<Rightarrow> key \<in> set rm | Notify e \<Rightarrow> (key, e) \<in> set nt)"
      using flush_keys_covers [OF k, THEN conjunct2, THEN conjunct2, THEN bspec] that(1) by blast
    then obtain v a v' where a: "flush_entry cfg clock sev entry v = (a, v')"
      "case a of Skip \<Rightarrow> True | Drop \<Rightarrow> key \<in> set rm | Notify e \<Rightarrow> (key, e) \<in> set nt"
      unfolding asked_def by (elim exE conjE) (rule that)
    then show ?thesis using flush_entry_fresh [OF that(2), of cfg clock sev v v'] unfolding asked_def
      by (intro exI [of _ v] exI [of _ a] exI [of _ v']) (auto split: action.splits)
  qed
  have batch: "batch = map snd nt" using assms(1) False k by (auto simp: flushSeverity_def Let_def split: if_splits prod.splits)
  obtain now where q: "queue_of gs' sev = (if nt = [] then remove_keys rm ?m else mark_notified cfg sev now nt (remove_keys rm ?m))"
    using assms(1) False k
    by (auto simp: flushSeverity_def Let_def queue_of_on_queue remove_keys_Nil mark_notified_Nil split: if_splits prod.splits)
  have rest: "gm_get (queue_of gs' sev) key = (if key \<in> set rm then None else if key \<in> fst ` set nt \<and> gm_get ?m key \<noteq> None
      then gm_get (queue_of gs' sev) key else gm_get ?m key)"
    "\<lbrakk>key \<in> fst ` set nt; gm_get (queue_of gs' sev) key = Some entry\<rbrakk> \<Longrightarrow> be_lastNotified entry \<noteq> None" for key entry
    by (auto simp: q remove_keys_get mark_notified_get split: if_splits)
  have "be_lastNotified entry \<noteq> None" if "gm_get (queue_of gs' sev) key = Some entry" for key entry
  proof
    assume n: "be_lastNotified entry = None"
    then have nt: "key \<notin> fst ` set nt" using rest(2) that by blast
    then have "gm_get ?m key = Some entry" "key \<notin> set rm" using rest(1) [of key] that by (auto split: if_splits)
    with fresh n nt show False unfolding asked_def by (fastforce simp: image_iff)
  qed
  moreover have "asked cfg clock sev entry (\<lambda>a. a = Drop \<or> (\<exists>e \<in> set batch. a = Notify e))"
    if "gm_get ?m key = Some entry" "be_lastNotified entry = None" for key entry
    using fresh [OF that] unfolding asked_def batch by force
  ultimately show ?thesis by blast
qed


subsection \<open>Ticks, and the end\<close>

lemma run_flush_cases:
  assumes "run_flush cfg clock ord sev s w = (s', w')"
  obtains gs batch where "flushSeverity cfg clock ord sev (br_queues s) w = ((gs, batch), w')"
    "s' = \<lparr>br_queues = gs, br_sent = br_sent s @ (if batch = [] then [] else [(sev, batch)])\<rparr>"
  using assms by (auto simp: run_flush_def split: prod.splits)

text \<open>
  No entry is left that was never notified; and every such entry of a queue has been asked about, and
  is among what was sent for the severity unless it was dropped.
\<close>

definition all_notified :: "queue \<Rightarrow> bool" where
  "all_notified q \<longleftrightarrow> (\<forall>key entry. gm_get q key = Some entry \<longrightarrow> be_lastNotified entry \<noteq> None)"

definition settled ::
    "'w batcher_cfg \<Rightarrow> 'w clock \<Rightarrow> Severity \<Rightarrow> queue \<Rightarrow> (Severity \<times> TrapEvent list) list \<Rightarrow> bool" where
  "settled cfg clock sev q sent \<longleftrightarrow> (\<forall>key entry. gm_get q key = Some entry \<and> be_lastNotified entry = None \<longrightarrow>
     asked cfg clock sev entry (\<lambda>a. a = Drop \<or> (\<exists>batch e. (sev, batch) \<in> set sent \<and> e \<in> set batch \<and> a = Notify e)))"

lemma run_flush_settles:
  assumes "range_order ord" "run_flush cfg clock ord sev s w = (s', w')"
  shows "all_notified (queue_of (br_queues s') sev) \<and> settled cfg clock sev (queue_of (br_queues s) sev) (br_sent s')"
proof -
  obtain gs batch where g: "flushSeverity cfg clock ord sev (br_queues s) w = ((gs, batch), w')"
    "s' = \<lparr>br_queues = gs, br_sent = br_sent s @ (if batch = [] then [] else [(sev, batch)])\<rparr>"
    by (rule run_flush_cases [OF assms(2)])
  have "(sev, batch) \<in> set (br_sent s')" if "batch \<noteq> []" using that by (simp add: g(2))
  with flushSeverity_complete [OF g(1) assms(1)] show ?thesis
    unfolding all_notified_def settled_def asked_def g(2) batcher_run.simps by fastforce
qed

lemma settled_mono: "\<lbrakk>settled cfg clock sev q sent; set sent \<subseteq> set sent'\<rbrakk> \<Longrightarrow> settled cfg clock sev q sent'"
  unfolding settled_def asked_def by (meson subsetD)

lemma run_flush_frame:
  assumes "run_flush cfg clock ord x s w = (s', w')"
  shows "set (br_sent s) \<subseteq> set (br_sent s')" "fst ` set (br_sent s') \<subseteq> insert x (fst ` set (br_sent s))"
    "sev \<noteq> x \<Longrightarrow> queue_of (br_queues s') sev = queue_of (br_queues s) sev"
  by (rule run_flush_cases [OF assms], simp, rule run_flush_cases [OF assms], auto,
      rule run_flush_cases [OF assms], simp add: flushSeverity_other)

lemma final_flushes_sent: "final_flushes cfg clock ord sevs s w = (s', w') \<Longrightarrow>
    set (br_sent s) \<subseteq> set (br_sent s') \<and> fst ` set (br_sent s') \<subseteq> fst ` set (br_sent s) \<union> set sevs
    \<and> (sev \<notin> set sevs \<longrightarrow> queue_of (br_queues s') sev = queue_of (br_queues s) sev)"
proof (induction sevs arbitrary: s w)
  case (Cons x sevs)
  obtain s1 w1 where f: "run_flush cfg clock ord x s w = (s1, w1)" by (rule prod.exhaust)
  with Cons.prems have "final_flushes cfg clock ord sevs s1 w1 = (s', w')" by simp
  note ih = Cons.IH [OF this]
  have "sev \<notin> set (x # sevs) \<longrightarrow> queue_of (br_queues s') sev = queue_of (br_queues s) sev"
    using ih run_flush_frame(3) [OF f, of sev] by simp
  moreover have "fst ` set (br_sent s') \<subseteq> fst ` set (br_sent s) \<union> set (x # sevs)"
    using ih run_flush_frame(2) [OF f] by simp blast
  ultimately show ?case using ih run_flush_frame(1) [OF f] by blast
qed simp

lemma final_flushes_drain:
  assumes "range_order ord"
  shows "final_flushes cfg clock ord sevs s w = (s', w') \<Longrightarrow> sev \<in> set sevs \<Longrightarrow>
    all_notified (queue_of (br_queues s') sev) \<and> settled cfg clock sev (queue_of (br_queues s) sev) (br_sent s')"
proof (induction sevs arbitrary: s w)
  case (Cons x sevs)
  obtain s1 w1 where f: "run_flush cfg clock ord x s w = (s1, w1)" by (rule prod.exhaust)
  with Cons.prems have r: "final_flushes cfg clock ord sevs s1 w1 = (s', w')" by simp
  show ?case
  proof (cases "x = sev")
    case False
    then show ?thesis using Cons.IH [OF r] Cons.prems(2) run_flush_frame(3) [OF f, of sev] by simp
  next
    case True
    note keep = final_flushes_sent [OF r, of sev] and now = run_flush_settles [OF assms f]
    have "all_notified (queue_of (br_queues s') sev)"
      using keep now Cons.IH [OF r] True by (cases "sev \<in> set sevs") simp_all
    moreover have "settled cfg clock sev (queue_of (br_queues s) sev) (br_sent s')"
      using settled_mono [OF conjunct2 [OF now]] keep by (simp add: True)
    ultimately show ?thesis by blast
  qed
qed simp

lemma run_op_sent: "run_op cfg clock ord sevs op s w = (s', w') \<Longrightarrow> fst ` set (br_sent s') \<subseteq> fst ` set (br_sent s) \<union> set sevs"
  by (cases op) (auto simp: run_flush_def split: if_splits prod.splits)

lemma run_ops_sent: "run_ops cfg clock ord sevs ops s w = (s', w') \<Longrightarrow> fst ` set (br_sent s') \<subseteq> fst ` set (br_sent s) \<union> set sevs"
proof (induction ops arbitrary: s w)
  case (Cons op ops)
  obtain s1 w1 where o: "run_op cfg clock ord sevs op s w = (s1, w1)" by fastforce
  with Cons.prems have "run_ops cfg clock ord sevs ops s1 w1 = (s', w')" by simp
  from Cons.IH [OF this] run_op_sent [OF o] show ?case by blast
qed simp

text \<open>
  C14. The end of the batcher loses no alert of a severity that has a timer: whatever was queued
  and never notified before \<open>Close\<close> is asked about on the device, and it is sent unless the
  device does not confirm it; afterwards no queue of such a severity holds an unsent event. A
  severity without a timer is never flushed: what is queued there is never sent.
\<close>

theorem close_loses_nothing:
  assumes "range_order ord"
    and "run_ops cfg clock ord (timed intervals) ops \<lparr>br_queues = [], br_sent = []\<rparr> w = (s, w1)"
    and "batcher_life cfg clock ord intervals ops w = (s', w')"
  shows "if sev \<in> set (timed intervals)
    then settled cfg clock sev (queue_of (br_queues s) sev) (br_sent s') \<and> all_notified (queue_of (br_queues s') sev)
    else queue_of (br_queues s') sev = queue_of (br_queues s) sev \<and> (\<forall>batch. (sev, batch) \<notin> set (br_sent s'))"
proof -
  have f: "final_flushes cfg clock ord (timed intervals) s w1 = (s', w')" using assms(2,3) by (simp add: batcher_life_def)
  have "fst ` set (br_sent s') \<subseteq> fst ` set (br_sent s) \<union> set (timed intervals)" "fst ` set (br_sent s) \<subseteq> set (timed intervals)"
    using final_flushes_sent [OF f, of sev] run_ops_sent [OF assms(2)] by simp_all
  then have "sev \<notin> set (timed intervals) \<longrightarrow> (\<forall>batch. (sev, batch) \<notin> set (br_sent s'))" by (metis Un_absorb1 fst_conv image_eqI subsetD)
  then show ?thesis using final_flushes_drain [OF assms(1) f, of sev] final_flushes_sent [OF f, of sev] by simp
qed

definition dying_event :: TrapEvent where
  "dying_event = zero_event\<lparr>ev_Board := 1, ev_PON := 2, ev_OnuID := 9, ev_EventType := ''DyingGasp''\<rparr>"

text \<open>With a timer for the critical severity only, a loss of signal is sent at the end, a dying gasp is not.\<close>

theorem close_loses_nothing_witness:
  "\<exists>s w. batcher_life plain_batcher (\<lambda>w. (0, w)) rev (BuildIntervals 300 0 0 0) [Op_Add los_event, Op_Add dying_event] ()
      = (s, w)
    \<and> (\<exists>batch. (SeverityCritical, batch) \<in> set (br_sent s) \<and> los_event \<in> set batch)
    \<and> gm_get (queue_of (br_queues s) SeverityLow) ''1-2-9'' \<noteq> None \<and> (\<forall>batch. (SeverityLow, batch) \<notin> set (br_sent s))"
proof -
  let ?iv = "BuildIntervals 300 0 0 0" and ?ops = "[Op_Add los_event, Op_Add dying_event]"
  let ?gs = "Batcher_Add dying_event (Batcher_Add los_event [])"
  obtain s w where l: "batcher_life plain_batcher (\<lambda>w. (0, w)) rev ?iv ?ops () = (s, w)" by (rule prod.exhaust)
  have t: "timed ?iv = [SeverityCritical]" by code_simp
  have r: "run_ops plain_batcher (\<lambda>w. (0, w)) rev (timed ?iv) ?ops \<lparr>br_queues = [], br_sent = []\<rparr> ()
      = (\<lparr>br_queues = ?gs, br_sent = []\<rparr>, ())" by simp
  have q: "gm_get (queue_of ?gs SeverityCritical) ''1-2-3'' = Some \<lparr>be_event = los_event, be_lastNotified = None\<rparr>"
    "gm_get (queue_of ?gs SeverityLow) ''1-2-9'' \<noteq> None" by code_simp+
  have n: "flush_entry plain_batcher (\<lambda>w. (0, w)) SeverityCritical \<lparr>be_event = los_event, be_lastNotified = None\<rparr> w
      = (Notify los_event, w)" for w
    by (simp add: flush_entry_def waits_def plain_batcher_def)
  note c = close_loses_nothing [OF range_order_rev r l]
  have "settled plain_batcher (\<lambda>w. (0, w)) SeverityCritical (queue_of ?gs SeverityCritical) (br_sent s)"
    using c [of SeverityCritical] by (simp add: t)
  then have "\<exists>batch. (SeverityCritical, batch) \<in> set (br_sent s) \<and> los_event \<in> set batch"
    unfolding settled_def asked_def using q(1) n by fastforce
  moreover have "gm_get (queue_of (br_queues s) SeverityLow) ''1-2-9'' \<noteq> None" "\<forall>batch. (SeverityLow, batch) \<notin> set (br_sent s)"
    using c [of SeverityLow] q(2) by (simp_all add: t)
  ultimately show ?thesis using l by blast
qed

subsection \<open>The schedule of the power monitor\<close>

text \<open>
  \<open>load\<close> is \<open>time.LoadLocation\<close> and \<open>parse\<close> the parser of \<open>robfig/cron\<close>, which gives a
  schedule for an expression in a zone, or in the local one. An unknown zone is ignored, and so is an
  expression that does not parse.
\<close>

definition NewPowerMonitor :: "(bytes \<Rightarrow> 'l option) \<Rightarrow> ('l option \<Rightarrow> bytes \<Rightarrow> 's option) \<Rightarrow> PowerMonitorConfig \<Rightarrow> 's option" where
  "NewPowerMonitor load parse cfg =
     (if pm_Cron cfg = [] then None
      else parse (if pm_Timezone cfg = [] then None else load (pm_Timezone cfg)) (pm_Cron cfg))"

text \<open>What \<open>Start\<close> runs: the ticker with its interval, and the cron schedule.\<close>

record 's monitor_plan =
  mp_ticker :: "int option"
  mp_cron :: "'s option"

definition monitor_Start :: "PowerMonitorConfig \<Rightarrow> 's option \<Rightarrow> 's monitor_plan option" where
  "monitor_Start cfg cronRunner =
     (let hasInterval = pm_Interval cfg > 0 in
      if \<not> hasInterval \<and> cronRunner = None then None
      else Some \<lparr>mp_ticker = (if hasInterval then Some (pm_Interval cfg) else None), mp_cron = cronRunner\<rparr>)"

text \<open>
  The scans of a run. Before each one the world may have moved on, and the webhook may be
  another one; \<open>safeScan\<close> adds to \<open>scan\<close> that a panic ends the scan only.
\<close>

fun run_scans ::
    "'w clock \<Rightarrow> PowerMonitorConfig \<Rightarrow> 'w list_fetcher \<Rightarrow> WebhookClient option \<Rightarrow> (('w \<Rightarrow> 'w) \<times> active_webhook) list
     \<Rightarrow> monitor \<Rightarrow> 'w \<Rightarrow> monitor \<times> 'w" where
  "run_scans clock cfg fetch inst [] st w = (st, w)"
| "run_scans clock cfg fetch inst ((step, aw) # rest) st w =
     (case scan clock cfg fetch aw inst st (step w) of (st, w) \<Rightarrow> run_scans clock cfg fetch inst rest st w)"

lemma monitor_idle: "monitor_Start cfg cronRunner = None \<longleftrightarrow> pm_Interval cfg \<le> 0 \<and> cronRunner = None"
  by (auto simp: monitor_Start_def Let_def)

lemma scan_quiet:
  assumes "\<forall>b p w. case fst (fetch b p w) of Inr onus \<Rightarrow> \<forall>onu \<in> set onus. not_normal cfg key b p onu | _ \<Rightarrow> True"
    and "quiet_for clock key t st" "scan clock cfg fetch aw inst st w = (st', w')"
  shows "quiet_for clock key t st' \<and> adds_others key st st'"
  using scan_ports_quiet [OF assms(1,2), of aw inst "scanned_ports cfg" w] assms(3) by (simp add: scan_def)

lemma run_scans_quiet:
  assumes "\<forall>b p w. case fst (fetch b p w) of Inr onus \<Rightarrow> \<forall>onu \<in> set onus. not_normal cfg key b p onu | _ \<Rightarrow> True"
  shows "quiet_for clock key t st \<Longrightarrow> run_scans clock cfg fetch inst steps st w = (st', w')
    \<Longrightarrow> quiet_for clock key t st' \<and> adds_others key st st'"
proof (induction steps arbitrary: st w)
  case (Cons x steps)
  obtain f aw where x: "x = (f, aw)" by fastforce
  obtain st1 w1 where s: "scan clock cfg fetch aw inst st (f w) = (st1, w1)" by fastforce
  note q = scan_quiet [OF assms Cons.prems(1) s]
  have "run_scans clock cfg fetch inst steps st1 w1 = (st', w')" using Cons.prems(2) by (simp add: x s)
  from Cons.IH [OF conjunct1 [OF q] this] q show ?case using adds_others_trans by blast
qed simp



end
