(* ===== verification/App_Process.thy ===== *)
theory App_Process
  imports App_Start Http_Observed Trap_Service
begin

text \<open>
  The process around \<open>App.Start\<close>: logger, error reports and traces (\<open>pkg/logger\<close>,
  \<open>pkg/sentry\<close>, \<open>pkg/tracing\<close>), the end of the server (\<open>pkg/graceful\<close>), the
  release of what \<open>Start\<close> has opened, \<open>cmd/api/main.go\<close> and \<open>cmd/healthcheck/main.go\<close>.
  zap, the Sentry SDK, OpenTelemetry and godotenv are other packages: their parts are parameters.
\<close>

subsection \<open>The logger\<close>

datatype log_level = DebugLevel | InfoLevel

record zap_config =
  zc_Encoding :: bytes
  zc_Level :: log_level
  zc_Color :: bool
  zc_TimeKey :: bytes
  zc_MessageKey :: bytes
  zc_LevelKey :: bytes

record app_logger =
  lg_config :: zap_config
  lg_fields :: "(bytes \<times> bytes) list"

text \<open>The package variables \<open>once\<close> and \<open>appLogger\<close>. Building the configuration is taken to succeed.\<close>

record log_state =
  ls_once :: bool
  ls_app :: "app_logger option"

definition zap_config_of :: "bytes \<Rightarrow> zap_config" where
  "zap_config_of env =
     (let dev = (env = ''development'' \<or> env = ''dev'') in
      \<lparr>zc_Encoding = (if dev then ''console'' else ''json''), zc_Level = (if dev then DebugLevel else InfoLevel),
       zc_Color = dev, zc_TimeKey = ''timestamp'', zc_MessageKey = ''message'', zc_LevelKey = ''level''\<rparr>)"

definition logger_Init :: "bytes \<Rightarrow> bytes \<Rightarrow> bytes \<Rightarrow> log_state \<Rightarrow> log_state" where
  "logger_Init env service version st =
     (if ls_once st then st
      else \<lparr>ls_once = True, ls_app = Some \<lparr>lg_config = zap_config_of env,
              lg_fields = [(''service'', service), (''version'', version)]\<rparr>\<rparr>)"

text \<open>\<open>L\<close>: the logger, made on the first use when nobody has.\<close>

definition logger_L :: "log_state \<Rightarrow> app_logger option \<times> log_state" where
  "logger_L st =
     (let st = (if ls_app st = None then logger_Init ''production'' ''snmp-olt-zte'' ''unknown'' st else st)
      in (ls_app st, st))"

definition with_field :: "bytes \<Rightarrow> bytes \<Rightarrow> app_logger \<Rightarrow> app_logger" where
  "with_field k v lg = lg\<lparr>lg_fields := lg_fields lg @ [(k, v)]\<rparr>"

definition logger_WithRequestID :: "'e req_ctx \<Rightarrow> log_state \<Rightarrow> app_logger option \<times> log_state" where
  "logger_WithRequestID cx st =
     (let reqID = RequestIDFromContext cx in
      if reqID = [] then logger_L st
      else (case logger_L st of (lg, st) \<Rightarrow> (map_option (with_field ''request_id'' reqID) lg, st)))"

definition logger_WithModule :: "bytes \<Rightarrow> log_state \<Rightarrow> app_logger option \<times> log_state" where
  "logger_WithModule m st =
     (case logger_L st of (lg, st) \<Rightarrow> (map_option (with_field ''module'' m) lg, st))"

definition no_logger :: log_state where "no_logger = \<lparr>ls_once = False, ls_app = None\<rparr>"

text \<open>The first \<open>Init\<close> decides, and \<open>L\<close> has a logger from the start.\<close>

lemma logger_Init_once: "logger_Init e2 s2 v2 (logger_Init e1 s1 v1 st) = logger_Init e1 s1 v1 st"
  by (simp add: logger_Init_def)

lemma logger_L_some: "fst (logger_L no_logger) \<noteq> None" "fst (logger_L (logger_Init e s v no_logger)) \<noteq> None"
  by (simp_all add: logger_L_def logger_Init_def no_logger_def)

subsection \<open>Error reports and traces\<close>

record sentry_options =
  so_Dsn :: bytes
  so_Environment :: bytes
  so_Release :: bytes

definition sentry_Init :: "(sentry_options \<Rightarrow> gerror option) \<Rightarrow> bytes \<Rightarrow> bytes \<Rightarrow> bytes \<Rightarrow> gerror option" where
  "sentry_Init sdk dsn env release =
     (if dsn = [] then None else sdk \<lparr>so_Dsn = dsn, so_Environment = env, so_Release = release\<rparr>)"

record TracingConfig =
  tg_Enabled :: bool
  tg_Endpoint :: bytes
  tg_ServiceName :: bytes
  tg_Environment :: bytes
  tg_Version :: bytes

text \<open>
  \<open>newExporter\<close> connects to an endpoint, \<open>mergeResources\<close> adds attributes to the default
  ones. \<open>None\<close> is the provider that does nothing.
\<close>

definition tracing_Init ::
    "(bytes \<Rightarrow> gerror + 'x) \<Rightarrow> ((bytes \<times> bytes) list \<Rightarrow> gerror + 'y) \<Rightarrow> TracingConfig \<Rightarrow> gerror + ('x \<times> 'y) option" where
  "tracing_Init newExporter mergeResources cfg =
     (if \<not> tg_Enabled cfg then Inr None
      else (case newExporter (tg_Endpoint cfg) of
              Inl err \<Rightarrow> Inl err
            | Inr exporter \<Rightarrow>
                (case mergeResources [(''service.name'', tg_ServiceName cfg), (''service.version'', tg_Version cfg),
                        (''deployment.environment'', tg_Environment cfg)] of
                   Inl err \<Rightarrow> Inl err
                 | Inr res \<Rightarrow> Inr (Some (exporter, res)))))"

subsection \<open>The end of the server\<close>

text \<open>
  Which case of the \<open>select\<close> comes first: the server stops serving, with the error of
  \<open>ListenAndServe\<close> unless that is \<open>ErrServerClosed\<close>; the context is done; or a signal arrives.
  The result is that of \<open>graceful.Shutdown\<close>, and whether the server was shut down.
\<close>

datatype stop = Serving_ended "gerror option" | Context_done | Signalled

definition Shutdown :: "env \<Rightarrow> stop \<Rightarrow> gerror option \<times> bool" where
  "Shutdown getenv stop =
     (case stop of
        Serving_ended res \<Rightarrow>
          (case listen_mode getenv of
             Inl err \<Rightarrow> (Some err, False)
           | Inr _ \<Rightarrow> (map_option (\<lambda>err. Plain (''failed to start server: '' @ err_text err)) res, False))
      | Context_done \<Rightarrow> (None, True)
      | Signalled \<Rightarrow> (None, True))"

subsection \<open>What \<open>Start\<close> releases\<close>

text \<open>The deferred calls of \<open>Start\<close>, in the order of the statements; they run in the other one.\<close>

datatype deferred = Close_Redis | Close_Registry | Cancel_Poller | Close_Batcher | Close_Listener | Close_Monitor

record 'w resources =
  re_redis :: bool
  re_reg :: "'w registry"
  re_poller :: bool
  re_batcher :: bool
  re_listener :: bool
  re_monitor :: bool

fun run_deferred :: "entry_ord \<Rightarrow> deferred \<Rightarrow> 'w resources \<Rightarrow> 'w resources" where
  "run_deferred ord Close_Redis s = s\<lparr>re_redis := False\<rparr>"
| "run_deferred ord Close_Registry s = s\<lparr>re_reg := reg_Close ord (re_reg s)\<rparr>"
| "run_deferred ord Cancel_Poller s = s\<lparr>re_poller := False\<rparr>"
| "run_deferred ord Close_Batcher s = s\<lparr>re_batcher := False\<rparr>"
| "run_deferred ord Close_Listener s = s\<lparr>re_listener := False\<rparr>"
| "run_deferred ord Close_Monitor s = s\<lparr>re_monitor := False\<rparr>"

definition deferred_of :: "('w, 'p) running \<Rightarrow> deferred list" where
  "deferred_of rn =
     [Close_Redis, Close_Registry] @ (if rn_poller rn = None then [] else [Cancel_Poller])
     @ (case rn_traps rn of
          None \<Rightarrow> []
        | Some t \<Rightarrow> (if ts_batcher t = None then [] else [Close_Batcher]) @ [Close_Listener]
                    @ (if ts_monitor t = None then [] else [Close_Monitor]))"

definition held :: "('w, 'p) running \<Rightarrow> 'w registry \<Rightarrow> 'w resources" where
  "held rn reg = \<lparr>re_redis = True, re_reg = reg, re_poller = (rn_poller rn \<noteq> None),
     re_batcher = (case rn_traps rn of None \<Rightarrow> False | Some t \<Rightarrow> ts_batcher t \<noteq> None),
     re_listener = (rn_traps rn \<noteq> None),
     re_monitor = (case rn_traps rn of None \<Rightarrow> False | Some t \<Rightarrow> ts_monitor t \<noteq> None)\<rparr>"

text \<open>The end of a started service whose registry has become \<open>reg\<close>.\<close>

definition Start_ends ::
    "entry_ord \<Rightarrow> env \<Rightarrow> ('w, 'p) running \<Rightarrow> 'w registry \<Rightarrow> stop \<Rightarrow> gerror option \<times> 'w resources" where
  "Start_ends ord getenv rn reg stop =
     (fst (Shutdown getenv stop), fold (run_deferred ord) (rev (deferred_of rn)) (held rn reg))"

subsection \<open>The programs\<close>

record ('x, 'y) boot =
  bt_log :: log_state
  bt_sentry :: "gerror option"
  bt_tracing :: "gerror + ('x \<times> 'y) option"

text \<open>The libraries of \<open>main\<close>; \<open>lb_dotenv\<close> adds the variables of the file \<open>.env\<close>.\<close>

record ('x, 'y) main_libs =
  lb_dotenv :: "env \<Rightarrow> env"
  lb_sentry :: "sentry_options \<Rightarrow> gerror option"
  lb_exporter :: "bytes \<Rightarrow> gerror + 'x"
  lb_merge :: "(bytes \<times> bytes) list \<Rightarrow> gerror + 'y"

text \<open>From the first line of \<open>main\<close> to \<open>server.Start\<close>. \<open>APP_ENV\<close> is read before the file.\<close>

definition main_boot :: "('x, 'y) main_libs \<Rightarrow> bytes \<Rightarrow> env \<Rightarrow> ('x, 'y) boot" where
  "main_boot lb version getenv0 =
     (let env = (if getenv0 ''APP_ENV'' = [] then ''production'' else getenv0 ''APP_ENV'');
          getenv = lb_dotenv lb getenv0;
          (sentryEnv, sentryRelease) = Resolve getenv ''snmp-olt-zte'' env version;
          otelEndpoint = (if getenv ''OTEL_EXPORTER_OTLP_ENDPOINT'' = [] then ''localhost:4317''
                          else getenv ''OTEL_EXPORTER_OTLP_ENDPOINT'')
      in \<lparr>bt_log = logger_Init env ''snmp-olt-zte'' version no_logger,
          bt_sentry = sentry_Init (lb_sentry lb) (getenv ''SENTRY_DSN'') sentryEnv sentryRelease,
          bt_tracing = tracing_Init (lb_exporter lb) (lb_merge lb)
            \<lparr>tg_Enabled = (parse_bool (getenv ''OTEL_ENABLED'') = Some True), tg_Endpoint = otelEndpoint,
             tg_ServiceName = ''snmp-olt-zte'', tg_Environment = env, tg_Version = version\<rparr>\<rparr>)"

datatype cleanup = Cancel_Context | Shutdown_Tracer | Flush_Sentry | Sync_Logger

text \<open>\<open>logger.Fatal\<close> exits at once: the deferred calls of \<open>main\<close> run only without an error.\<close>

definition main_end :: "('x, 'y) boot \<Rightarrow> gerror option \<Rightarrow> int \<times> cleanup list" where
  "main_end b res =
     (case res of
        Some err \<Rightarrow> (1, [])
      | None \<Rightarrow> (0, [Cancel_Context] @ (case bt_tracing b of Inl _ \<Rightarrow> [] | Inr _ \<Rightarrow> [Shutdown_Tracer])
                    @ [Flush_Sentry, Sync_Logger]))"

text \<open>\<open>None\<close> is a process that waits for the device registry without end.\<close>

definition main ::
    "('x, 'y) main_libs \<Rightarrow> (int, int) range_ord \<Rightarrow> entry_ord \<Rightarrow> bytes \<Rightarrow> ('w, 'a, 'p) process \<Rightarrow> stop \<Rightarrow> 'w
     \<Rightarrow> ((int \<times> cleanup list) \<times> 'w) option" where
  "main lb ordb ord version p stop w =
     (let b = main_boot lb version (pc_env p);
          p = p\<lparr>pc_env := lb_dotenv lb (pc_env p)\<rparr> in
      case Start ordb ord p w of
        None \<Rightarrow> None
      | Some (Inl err, w) \<Rightarrow> Some (main_end b (Some err), w)
      | Some (Inr rn, w) \<Rightarrow> Some (main_end b (fst (Shutdown (pc_env p) stop)), w))"

text \<open>\<open>cmd/healthcheck\<close>: \<open>get\<close> is the status of a GET request, or its error.\<close>

definition healthcheck :: "(bytes \<Rightarrow> gerror + int) \<Rightarrow> env \<Rightarrow> int" where
  "healthcheck get getenv =
     (let port = (if getenv ''SERVER_PORT'' = [] then ''8081'' else getenv ''SERVER_PORT'') in
      case get (''http://localhost:'' @ port @ ''/healthz'') of
        Inl err \<Rightarrow> 1
      | Inr status \<Rightarrow> if status \<noteq> 200 then 1 else 0)"

subsection \<open>Nothing stays open\<close>

text \<open>A wanted end: by a signal or the context, or a server that was closed while it could serve.\<close>

definition wanted_end :: "env \<Rightarrow> stop \<Rightarrow> bool" where
  "wanted_end getenv stop \<longleftrightarrow>
     (case stop of Serving_ended res \<Rightarrow> res = None \<and> (\<exists>m. listen_mode getenv = Inr m) | _ \<Rightarrow> True)"

lemma Shutdown_wanted: "fst (Shutdown getenv stop) = None \<longleftrightarrow> wanted_end getenv stop"
  by (auto simp: Shutdown_def wanted_end_def split: stop.split sum.split)

lemma deferred_release:
  "fold (run_deferred ord) (rev (deferred_of rn)) (held rn reg) =
     \<lparr>re_redis = False, re_reg = reg_Close ord reg, re_poller = False, re_batcher = False, re_listener = False, re_monitor = False\<rparr>"
  by (cases "rn_traps rn") (auto simp: deferred_of_def held_def)


text \<open>A signal, after a poll has replaced the OLT under a running job.\<close>

definition ex_running :: "((bytes, bytes) gomap, bytes) running" where
  "ex_running = \<lparr>rn_cfg = ex_cfg, rn_trusted = [], rn_reg = ex_reg1, rn_poller = Some (''http://registry'', [], 1),
     rn_traps = None, rn_users = None, rn_addr = '':8081''\<rparr>"


subsection \<open>Exit codes\<close>

text \<open>
  The exit code is 0 exactly for a service that started and came to a wanted end. With any other
  code nothing of what \<open>main\<close> has deferred runs: buffered reports and log lines are not flushed.
\<close>

lemma main_exit:
  assumes "main lb ordb ord version p stop w = Some ((code, cleanups), w')" "p' = p\<lparr>pc_env := lb_dotenv lb (pc_env p)\<rparr>"
  shows "code = (if (\<exists>rn v. Start ordb ord p' w = Some (Inr rn, v)) \<and> wanted_end (pc_env p') stop then 0 else 1)"
    "code = 0 \<longleftrightarrow> Flush_Sentry \<in> set cleanups" "code = 0 \<longleftrightarrow> Sync_Logger \<in> set cleanups"
  using assms Shutdown_wanted [of "pc_env p'" stop]
  by (auto simp: main_def main_end_def Let_def split: option.splits sum.splits prod.splits)

text \<open>The logger does not know an \<open>APP_ENV\<close> that only the file has.\<close>

lemma boot_log_before_dotenv: "bt_log (main_boot lb version getenv) = bt_log (main_boot (lb\<lparr>lb_dotenv := f\<rparr>) version getenv)"
  by (simp add: main_boot_def Let_def split: prod.split)

text \<open>The health check asks the address the service listens on, without TLS, and takes its answer.\<close>

lemma healthcheck_answered:
  assumes "get (''http://localhost'' @ server_addr getenv @ ''/healthz'') = Inr (rs_Status (fst (serve_route sv Rt_Healthz r cx h w)))"
  shows "healthcheck get getenv = 0"
  using assms by (simp add: healthcheck_def server_addr_def Let_def serve_route_def send_reply_def status_reply_def
      SendJSONResponse_def split: if_splits)

end
