(* ===== verification/Spec2Isabelle.thy ===== *)
theory Spec2Isabelle
  imports App_Process
begin

text \<open>
  A verification library for snmp-olt-zte, a service that reads ZTE C320/C300 OLTs over SNMP, offers
  the result as a cached HTTP API for several tenants, and listens for SNMP traps that it verifies on
  the device and forwards to webhooks. The model follows the Go sources file by file; the names of
  definitions are those of the functions and types, with a suffix or prefix where a name is taken.

  \<^bold>\<open>The program and its theories.\<close>

  \<^item> Foundations. \<open>Prelude\<close>: Go maps as association lists (\<open>gomap\<close>) with the
    visiting orders of \<open>range\<close> (\<open>range_order\<close>), wrap-around of \<open>int\<close> (\<open>int64\<close>), the shared
    rewriting collections. \<open>Go_Strings\<close>, \<open>Go_Json\<close>, \<open>Go_Float\<close>, \<open>Go_Time\<close>, \<open>Go_Clock\<close>:
    the parts of the standard library that the sources use (\<open>strings\<close>, \<open>strconv\<close>, \<open>encoding/json\<close> with
    parser and printer, IEEE doubles as far as the optical power needs them, dates and zones).
  \<^item> Errors, \<open>internal/errors\<close> and \<open>internal/utils/error.go\<close>: \<open>App_Errors\<close>. Errors are
    values with their chain of causes; \<open>HandleError\<close> is their HTTP form.
  \<^item> Values of a device, \<open>internal/utils/extractor.go\<close> and \<open>converter.go\<close>: \<open>Extractors\<close>.
  \<^item> Configuration, \<open>config/\<close>: \<open>Oid_Generator\<close> (object identifiers of a port), \<open>Board_Config\<close>
    (topologies), \<open>Olt_Config\<close> (OLT and user registries, \<open>Config\<close> and its records),
    \<open>Device_Registry\<close> (the client of the device registry with its retry loop), \<open>Load_Config\<close>.
  \<^item> Repositories: \<open>Redis_Repo\<close> (\<open>internal/repository/redis.go\<close>), \<open>Snmp_Repo\<close>
    (\<open>internal/repository/snmp.go\<close>: the operations as a caller sees them, and the pool with its semaphore as a
    step relation over interleaved goroutines), \<open>Snmp_Setup\<close> (\<open>pkg/snmp/snmp.go\<close> and the filling of a pool).
  \<^item> Queries, \<open>internal/usecase\<close>: \<open>Onu_Model\<close> (records and JSON of \<open>internal/model\<close>),
    \<open>Onu_Usecase\<close> (every query of \<open>onu.go\<close> and \<open>prewarm.go\<close>), \<open>Onu_Keys\<close>, \<open>Onu_Queries\<close>,
    \<open>Onu_Cache\<close> (what they return and what they do to the cache), \<open>Uplink\<close> (\<open>uplink.go\<close>).
  \<^item> Traps, \<open>internal/trap\<close>: \<open>Trap_Listener\<close> (from a packet to an event), \<open>Trap_Severity\<close>,
    \<open>Trap_Handler\<close> (verification on the device), \<open>Trap_Batcher\<close> (the queues and their flushes, as operations
    in any order), \<open>Power_Monitor\<close> (\<open>power_monitor.go\<close>), \<open>Webhook_Format\<close> (the four
    platforms), \<open>Webhook_Payload\<close>, \<open>Webhook_Client\<close> (delivery, the live settings with
    their refresher, the HTTP handlers of \<open>app/webhook.go\<close>), \<open>Trap_Service\<close> (how listener, batcher
    and power monitor run from their start to their end).
  \<^item> The registry of OLTs at run time, \<open>app/registry.go\<close> and \<open>app/default_fetcher.go\<close>:
    \<open>Olt_Registry\<close> (state, operations, and the step relation \<open>reg_step\<close> that interleaves them with
    background jobs), \<open>Olt_Reconcile\<close> (invariant and effect of \<open>Reconcile\<close>), \<open>Olt_Lifecycle\<close> (the
    properties of every reachable registry, and the poller).
  \<^item> HTTP: \<open>Middleware\<close> (\<open>internal/middleware\<close>, \<open>internal/reqctx\<close>), \<open>Onu_Handler\<close>
    (\<open>internal/handler/onu.go\<close>, \<open>pkg/pagination\<close>), \<open>Health\<close> (\<open>internal/health\<close>), \<open>Http_Routes\<close>
    (\<open>app/routes.go\<close>: endpoints, OLT resolution, the whole server), \<open>Http_Api\<close> (properties of the API), \<open>Http_Observed\<close>
    (\<open>pkg/metrics\<close>, the access log that stops panics, the audit log, and the server with them).
  \<^item> The process: \<open>App_Start\<close> (\<open>app/app.go\<close> with \<open>pkg/redis\<close>, up to the listening server),
    \<open>App_Process\<close> (the end of the service and the release of what it holds, \<open>pkg/graceful\<close>, the set-up
    of \<open>pkg/logger\<close>, \<open>pkg/sentry\<close> and \<open>pkg/tracing\<close>, and the programs of \<open>cmd/\<close>).

  A request runs through \<open>loadRoutesWithRegistry\<close> (request id, headers, limits, \<open>Authenticator\<close>),
  \<open>resolveOLT\<close> finds the OLT in the registry, the validators turn the URL's ids into numbers, a handler
  calls the use case of that OLT, which asks the cache and then the device. A trap runs through
  \<open>handleTrap\<close>, \<open>HandleEvent\<close> (which reads the ONU of the default OLT), the batcher and the webhook client.
  The poller fetches the inventory and \<open>Reconcile\<close> makes the registry follow it.

  \<^bold>\<open>How state and effects are modelled.\<close> Everything outside the sources (Redis, SNMP
  connections, clocks, HTTP) is a function over a world \<open>'w\<close> of any type, given in records of operations
  (\<open>redis_ops\<close>, \<open>conn_ops\<close>, \<open>dialer\<close>, \<open>reg_ops\<close>, \<open>http_ops\<close>, \<open>ip_ops\<close>); what a
  theorem relies on is a hypothesis over it (\<open>serves\<close>, \<open>answers_tables\<close>, \<open>keeps_headers\<close>,
  \<open>clock_ok\<close>), shown to be satisfiable by a witness. A function that may fail returns
  \<open>gerror + 'a\<close>, a nil slice is \<open>None\<close>, a panic is a value of its own, an \<open>int\<close> that can overflow
  is wrapped by \<open>int64\<close>. Visiting orders of maps are arguments; a result is proved for all of them. The interfaces
  between components (a codec and its store, the source of an ONU's detail that traps and batcher rely on,
  the formatter of a platform) are locales, interpreted on the model's own definitions.

  \<^bold>\<open>What the lemmas show.\<close> Round trips of identifiers, dates, JSON codecs and cached values; the
  identifiers of different ports and the cache keys of different OLTs never meet; an accepted configuration has a complete
  topology and unique OLTs, and the start-up retry ends; a query returns exactly what the device shows, list and
  detail agree, and free numbers are the complement of the used ones; the pool never shares a connection and closes each
  one once; an ONU is queued under one severity, and events that are sent describe the ONU as the device
  showed it; a payload is well-formed JSON that tells every event, delivery is bounded, and the power monitor does
  not repeat itself; the registry is the inventory, in every interleaving no pool is closed under a job, and the
  stack of an entry reaches the device the entry names; the API runs for configured users only, a tenant cannot tell the
  OLTs of others from missing ones, a handler never sees an id that is not a configured port, a list request
  answers with the device's ONUs, a page is what its metadata say, and every response carries its headers; a configured service starts with
  a registry that mirrors its configuration, and in production its API is closed to requests without a key; a request
  is reported once whatever its handler does, and the reports change no answer; at the end everything that was opened is
  released, and the batcher sends what its timers have left.

  \<^bold>\<open>Bounds.\<close> Loops are recursions on their data; the retry loop of the device registry is a partial
  function that is proved to return, the delivery loop counts its attempts down from \<open>maxRetries + 1\<close>, the poller and
  the webhook refresher are run for any number of ticks, and \<open>ParseDuration\<close> and the JSON reader recurse on the length of
  their input.

  \<^bold>\<open>Not modelled.\<close> The lines that components log, measured times and sizes, traces and error reports beyond
  their set-up; the counting of the SNMP walks inside the uplink detection; deadlines of requests and queries; the
  coalescing of concurrent identical calls (\<open>singleflight\<close>), so that a call is its own; the instants at which tickers
  and cron fire, which are the steps of a run. Path matching (\<open>chi\<close>), CORS, the rate limiter, \<open>net/netip\<close>,
  request ids (\<open>xid\<close>), the zone data base, gosnmp, zap, the Sentry and OpenTelemetry libraries, godotenv and the Redis
  client are other packages and hence parameters.
\<close>

end
